(* ===== verification/Prelude.thy ===== *)
theory Prelude
  imports Main "HOL-Library.Multiset" "HOL-Library.AList"
begin

text \<open>
  Shared vocabulary of the development: the names of the model's basic types, the
  error-and-state plumbing that every fallible, state-threading operation of
  \<open>getVikeConfig.ts\<close> is written in, and generic lemmas on lists, filters and
  association lists that the component theories use through the collections
  \<open>plumbing_simps\<close> and \<open>partition_simps\<close>.
\<close>

named_theorems plumbing_simps "equations of the error and state plumbing"
named_theorems partition_simps "facts about splitting a list by complementary filters"

type_synonym config_name = string
type_synonym location_id = "string list"

text \<open>
  A JavaScript function that may throw and that mutates pass-scoped state is a HOL
  function from the state to \<open>'e + ('a \<times> 's)\<close>: \<open>Inl\<close> is the thrown error, \<open>Inr\<close>
  the returned value with the state after the call. \<open>bind_st\<close> sequences two such
  calls, propagating the first error as the exception does.
\<close>

definition bind_st :: "'e + ('a \<times> 's) \<Rightarrow> ('a \<Rightarrow> 's \<Rightarrow> 'e + ('b \<times> 's)) \<Rightarrow> 'e + ('b \<times> 's)" where
  "bind_st m f = (case m of Inl e \<Rightarrow> Inl e | Inr (a, s) \<Rightarrow> f a s)"

text \<open>\<open>xs.forEach(x => out.push(f(x)))\<close> with \<open>f\<close> fallible and state-threading.\<close>

fun map_st :: "('a \<Rightarrow> 's \<Rightarrow> 'e + ('b \<times> 's)) \<Rightarrow> 'a list \<Rightarrow> 's \<Rightarrow> 'e + ('b list \<times> 's)" where
  "map_st f [] s = Inr ([], s)"
| "map_st f (x # xs) s =
     bind_st (f x s) (\<lambda>y s'. bind_st (map_st f xs s') (\<lambda>ys s''. Inr (y # ys, s'')))"

text \<open>\<open>xs.map(f)\<close> with \<open>f\<close> fallible and stateless.\<close>

fun map_err :: "('a \<Rightarrow> 'e + 'b) \<Rightarrow> 'a list \<Rightarrow> 'e + 'b list" where
  "map_err f [] = Inr []"
| "map_err f (x # xs) =
     (case f x of Inl e \<Rightarrow> Inl e | Inr y \<Rightarrow> (case map_err f xs of Inl e \<Rightarrow> Inl e | Inr ys \<Rightarrow> Inr (y # ys)))"

text \<open>\<open>xs.forEach(x => check(x))\<close> where \<open>check\<close> may throw: the first error.\<close>

fun for_each_err :: "('a \<Rightarrow> 'e + unit) \<Rightarrow> 'a list \<Rightarrow> 'e + unit" where
  "for_each_err f [] = Inr ()"
| "for_each_err f (x # xs) = (case f x of Inl e \<Rightarrow> Inl e | Inr _ \<Rightarrow> for_each_err f xs)"

text \<open>\<open>Promise.all(xs.map(f))\<close> over fallible calls that may run out of fuel
  (\<open>None\<close>): the first error in list order, or all results.\<close>

fun map_opt_err :: "('a \<Rightarrow> ('e + 'b) option) \<Rightarrow> 'a list \<Rightarrow> ('e + 'b list) option" where
  "map_opt_err f [] = Some (Inr [])"
| "map_opt_err f (x # xs) =
     (case f x of
        None \<Rightarrow> None
      | Some (Inl e) \<Rightarrow> Some (Inl e)
      | Some (Inr y) \<Rightarrow>
          (case map_opt_err f xs of
             None \<Rightarrow> None
           | Some (Inl e) \<Rightarrow> Some (Inl e)
           | Some (Inr ys) \<Rightarrow> Some (Inr (y # ys))))"

text \<open>A \<open>forEach\<close> whose callback updates shared state and may throw: the state is
  threaded through the elements in order, and the first error ends the loop.\<close>

fun fold_err :: "('a \<Rightarrow> 's \<Rightarrow> 'e + 's) \<Rightarrow> 'a list \<Rightarrow> 's \<Rightarrow> 'e + 's" where
  "fold_err f [] s = Inr s"
| "fold_err f (x # xs) s = (case f x s of Inl e \<Rightarrow> Inl e | Inr s' \<Rightarrow> fold_err f xs s')"

text \<open>The same over callbacks that may also run out of fuel (\<open>None\<close>).\<close>

fun fold_opt_err :: "('a \<Rightarrow> 's \<Rightarrow> ('e + 's) option) \<Rightarrow> 'a list \<Rightarrow> 's \<Rightarrow> ('e + 's) option" where
  "fold_opt_err f [] s = Some (Inr s)"
| "fold_opt_err f (x # xs) s =
     (case f x s of
        None \<Rightarrow> None
      | Some (Inl e) \<Rightarrow> Some (Inl e)
      | Some (Inr s') \<Rightarrow> fold_opt_err f xs s')"

lemma bind_st_Inl [simp, plumbing_simps]: "bind_st (Inl e) f = Inl e"
  by (simp add: bind_st_def)

lemma bind_st_Inr [simp, plumbing_simps]: "bind_st (Inr (a, s)) f = f a s"
  by (simp add: bind_st_def)

lemma bind_st_eq_Inr [plumbing_simps]:
  "bind_st m f = Inr r \<longleftrightarrow> (\<exists>a s. m = Inr (a, s) \<and> f a s = Inr r)"
  by (cases m) (auto simp: bind_st_def)

lemma bind_st_eq_Inl [plumbing_simps]:
  "bind_st m f = Inl e \<longleftrightarrow> m = Inl e \<or> (\<exists>a s. m = Inr (a, s) \<and> f a s = Inl e)"
  by (cases m) (auto simp: bind_st_def)

lemma map_st_append [plumbing_simps]:
  "map_st f (xs @ ys) s =
     bind_st (map_st f xs s) (\<lambda>as s'. bind_st (map_st f ys s') (\<lambda>bs s''. Inr (as @ bs, s'')))"
proof (induction xs arbitrary: s)
  case Nil
  show ?case by (cases "map_st f ys s") (auto simp: bind_st_def)
next
  case (Cons x xs)
  show ?case
    by (cases "f x s")
       (auto simp: Cons bind_st_def split: sum.splits prod.splits)
qed

text \<open>
  A call whose returned value does not depend on the state (the state only decides
  whether it throws) maps, when the whole loop succeeds, to the plain \<open>map\<close>.
\<close>

lemma map_st_value:
  assumes "\<And>x s r s'. x \<in> set xs \<Longrightarrow> f x s = Inr (r, s') \<Longrightarrow> r = g x"
    and "map_st f xs s = Inr (ys, s')"
  shows "ys = map g xs"
  using assms
proof (induction xs arbitrary: s ys)
  case Nil
  then show ?case by simp
next
  case (Cons x xs)
  from Cons.prems(2) obtain y s1 ys' where
    fx: "f x s = Inr (y, s1)" and rest: "map_st f xs s1 = Inr (ys', s')" and ys: "ys = y # ys'"
    by (auto simp: bind_st_eq_Inr)
  have "y = g x" using Cons.prems(1) fx by simp
  moreover have "ys' = map g xs" using Cons.IH Cons.prems(1) rest by simp
  ultimately show ?case using ys by simp
qed

lemma map_st_length:
  "map_st f xs s = Inr (ys, s') \<Longrightarrow> length ys = length xs"
proof (induction xs arbitrary: s ys)
  case Nil
  then show ?case by simp
next
  case (Cons x xs)
  then show ?case by (auto simp: bind_st_eq_Inr)
qed

text \<open>
  A state invariant kept by every successful call is kept by the loop.
\<close>

lemma map_st_invariant:
  assumes "\<And>x s r s'. x \<in> set xs \<Longrightarrow> P s \<Longrightarrow> f x s = Inr (r, s') \<Longrightarrow> P s'"
    and "map_st f xs s = Inr (ys, s')" and "P s"
  shows "P s'"
  using assms
proof (induction xs arbitrary: s ys)
  case Nil
  then show ?case by simp
next
  case (Cons x xs)
  from Cons.prems(2) obtain y s1 ys' where
    fx: "f x s = Inr (y, s1)" and rest: "map_st f xs s1 = Inr (ys', s')"
    by (auto simp: bind_st_eq_Inr)
  have "P s1" using Cons.prems(1,3) fx by (meson list.set_intros(1))
  have step: "\<And>z t r t'. z \<in> set xs \<Longrightarrow> P t \<Longrightarrow> f z t = Inr (r, t') \<Longrightarrow> P t'"
    using Cons.prems(1) by (meson list.set_intros(2))
  show ?case by (rule Cons.IH [OF step rest \<open>P s1\<close>])
qed

lemma map_st_list_all2:
  "map_st f xs s = Inr (ys, s') \<Longrightarrow> list_all2 (\<lambda>x y. \<exists>t t'. f x t = Inr (y, t')) xs ys"
proof (induction xs arbitrary: s ys)
  case Nil
  then show ?case by simp
next
  case (Cons x xs)
  then show ?case by (fastforce simp: bind_st_eq_Inr)
qed

lemma list_all2_set1_ex: "list_all2 P xs ys \<Longrightarrow> x \<in> set xs \<Longrightarrow> \<exists>y\<in>set ys. P x y"
  by (metis in_set_conv_nth list_all2_conv_all_nth)

lemma list_all2_hd: "list_all2 P xs ys \<Longrightarrow> xs \<noteq> [] \<Longrightarrow> P (hd xs) (hd ys)"
  by (cases xs; cases ys) auto

lemma sorted_map_const: "(\<And>x. x \<in> set xs \<Longrightarrow> f x = c) \<Longrightarrow> sorted (map f xs)"
  by (induction xs) auto

lemma map_err_map [plumbing_simps]:
  "(\<And>x. x \<in> set xs \<Longrightarrow> f x = Inr (g x)) \<Longrightarrow> map_err f xs = Inr (map g xs)"
  by (induction xs) auto

lemma map_err_list_all2:
  "map_err f xs = Inr ys \<Longrightarrow> list_all2 (\<lambda>x y. f x = Inr y) xs ys"
proof (induction xs arbitrary: ys)
  case Nil
  then show ?case by simp
next
  case (Cons x xs)
  then show ?case by (auto split: sum.splits)
qed

lemma map_err_Inr_elem: "map_err f xs = Inr ys \<Longrightarrow> x \<in> set xs \<Longrightarrow> \<exists>y. f x = Inr y"
  by (induction xs arbitrary: ys) (auto split: sum.splits)

lemma map_err_Inr_result: "map_err f xs = Inr ys \<Longrightarrow> y \<in> set ys \<Longrightarrow> \<exists>x\<in>set xs. f x = Inr y"
  by (induction xs arbitrary: ys) (auto split: sum.splits)

lemma map_err_Cons_Inr:
  "map_err f (x # xs) = Inr zs \<Longrightarrow> \<exists>y ys. zs = y # ys \<and> f x = Inr y \<and> map_err f xs = Inr ys"
  by (auto split: sum.splits)

lemma for_each_err_Inr [plumbing_simps]: "for_each_err f xs = Inr () \<longleftrightarrow> (\<forall>x\<in>set xs. f x = Inr ())"
  by (induction xs) (auto split: sum.splits)

lemma for_each_err_Inl: "for_each_err f xs = Inl e \<Longrightarrow> \<exists>x\<in>set xs. f x = Inl e"
  by (induction xs) (auto split: sum.splits)

lemma for_each_err_append [plumbing_simps]:
  "for_each_err f (xs @ ys) = (case for_each_err f xs of Inl e \<Rightarrow> Inl e | Inr _ \<Rightarrow> for_each_err f ys)"
  by (induction xs) (auto split: sum.splits)

lemma for_each_err_not_Inr:
  assumes "x \<in> set xs" and "f x \<noteq> Inr ()"
  shows "\<exists>e. for_each_err f xs = Inl e"
proof (cases "for_each_err f xs")
  case (Inr u)
  then have "for_each_err f xs = Inr ()" by simp
  then show ?thesis using assms by (simp add: for_each_err_Inr)
qed simp

lemma map_err_cong:
  "(\<And>x. x \<in> set xs \<Longrightarrow> f x = g x) \<Longrightarrow> map_err f xs = map_err g xs"
  by (induction xs) (auto split: sum.splits)

lemma map_opt_err_not_None:
  "(\<And>x. x \<in> set xs \<Longrightarrow> f x \<noteq> None) \<Longrightarrow> map_opt_err f xs \<noteq> None"
  by (induction xs) (auto split: option.splits sum.splits)

lemma map_opt_err_Inl:
  "map_opt_err f xs = Some (Inl e) \<Longrightarrow> \<exists>x\<in>set xs. f x = Some (Inl e)"
  by (induction xs) (auto split: option.splits sum.splits)

lemma map_opt_err_Inr:
  "map_opt_err f xs = Some (Inr ys) \<Longrightarrow> list_all2 (\<lambda>x y. f x = Some (Inr y)) xs ys"
  by (induction xs arbitrary: ys) (auto split: option.splits sum.splits)

lemma list_all2_UN:
  "list_all2 P xs ys \<Longrightarrow> (\<And>x y. P x y \<Longrightarrow> g y = h x) \<Longrightarrow> (\<Union>y\<in>set ys. g y) = (\<Union>x\<in>set xs. h x)"
  by (induction rule: list_all2_induct) auto

lemma trancl_step_set:
  "{q'. (p, q') \<in> R\<^sup>+} = (\<Union>q\<in>{q. (p, q) \<in> R}. insert q {q'. (q, q') \<in> R\<^sup>+})"
  by (auto intro: trancl_into_trancl2 elim: converse_tranclE)

subsection \<open>Splitting a list by filters\<close>

lemma mset_filter_split [partition_simps]:
  "mset (filter P xs) + mset (filter (\<lambda>x. \<not> P x) xs) = mset xs"
  by (induction xs) auto

lemma filter_filter_conj [partition_simps]:
  "filter P (filter Q xs) = filter (\<lambda>x. Q x \<and> P x) xs"
  by (simp add: conj_commute)

lemma mset_filter_cases4 [partition_simps]:
  assumes "\<And>x. x \<in> set xs \<Longrightarrow> (A x \<or> B x \<or> C x \<or> D x)"
    and "\<And>x. x \<in> set xs \<Longrightarrow> A x \<Longrightarrow> \<not> B x \<and> \<not> C x \<and> \<not> D x"
    and "\<And>x. x \<in> set xs \<Longrightarrow> B x \<Longrightarrow> \<not> C x \<and> \<not> D x"
    and "\<And>x. x \<in> set xs \<Longrightarrow> C x \<Longrightarrow> \<not> D x"
  shows "mset (filter A xs) + mset (filter B xs) + mset (filter C xs) + mset (filter D xs) = mset xs"
  using assms
proof (induction xs)
  case Nil
  then show ?case by simp
next
  case (Cons y ys)
  have IH: "mset (filter A ys) + mset (filter B ys) + mset (filter C ys) + mset (filter D ys) = mset ys"
    using Cons.prems by (intro Cons.IH) auto
  have "A y \<or> B y \<or> C y \<or> D y" using Cons.prems(1) by simp
  then show ?case using IH Cons.prems(2-4) by auto
qed

subsection \<open>Association lists as JavaScript objects\<close>

text \<open>
  A JavaScript object \<open>Record<string, T>\<close> iterated with \<open>Object.entries\<close> keeps its keys
  in insertion order, and \<open>obj[k] = v\<close> replaces an existing key in place or appends a new
  one: exactly \<open>AList.update\<close>. Lookup is \<open>map_of\<close>.
\<close>

lemma list_all_update: "list_all P al \<Longrightarrow> P (k, v) \<Longrightarrow> list_all P (AList.update k v al)"
  by (induction al) auto

lemma map_of_update_same [simp]: "map_of (AList.update k v al) k = Some v"
  by (simp add: update_conv')

lemma map_of_update_other [simp]: "k' \<noteq> k \<Longrightarrow> map_of (AList.update k v al) k' = map_of al k'"
  by (simp add: update_conv')

text \<open>Invariants of the state folds: a property every successful step preserves
  holds at the end.\<close>

lemma fold_err_invariant:
  assumes "fold_err f xs s = Inr s'" "P s"
    and "\<And>x t t'. x \<in> set xs \<Longrightarrow> P t \<Longrightarrow> f x t = Inr t' \<Longrightarrow> P t'"
  shows "P s'"
  using assms
proof (induction xs arbitrary: s)
  case (Cons x xs)
  then obtain t where f: "f x s = Inr t" "fold_err f xs t = Inr s'" by (auto split: sum.splits)
  moreover have "P t" using Cons.prems(3)[of x s t] Cons.prems(2) f by simp
  ultimately show ?case
  proof (intro Cons.IH[of t])
    fix y u u' assume "y \<in> set xs" "P u" "f y u = Inr u'"
    then show "P u'" using Cons.prems(3)[of y u u'] by simp
  qed simp_all
qed simp

lemma fold_opt_err_invariant:
  assumes "fold_opt_err f xs s = Some (Inr s')" "P s"
    and "\<And>x t t'. x \<in> set xs \<Longrightarrow> P t \<Longrightarrow> f x t = Some (Inr t') \<Longrightarrow> P t'"
  shows "P s'"
  using assms
proof (induction xs arbitrary: s)
  case (Cons x xs)
  then obtain t where f: "f x s = Some (Inr t)" "fold_opt_err f xs t = Some (Inr s')"
    by (auto split: option.splits sum.splits)
  moreover have "P t" using Cons.prems(3)[of x s t] Cons.prems(2) f by simp
  ultimately show ?case
  proof (intro Cons.IH[of t])
    fix y u u' assume "y \<in> set xs" "P u" "f y u = Some (Inr u')"
    then show "P u'" using Cons.prems(3)[of y u u'] by simp
  qed simp_all
qed simp

lemma fold_err_establish:
  assumes "fold_err f xs s = Inr s'" "x \<in> set xs"
    and "\<And>t t'. f x t = Inr t' \<Longrightarrow> P t'"
    and "\<And>y t t'. P t \<Longrightarrow> f y t = Inr t' \<Longrightarrow> P t'"
  shows "P s'"
  using assms(1,2)
proof (induction xs arbitrary: s)
  case (Cons y xs)
  then obtain t where f: "f y s = Inr t" "fold_err f xs t = Inr s'" by (auto split: sum.splits)
  show ?case
  proof (cases "x \<in> set xs")
    case True
    then show ?thesis using Cons.IH f(2) by blast
  next
    case False
    then have "x = y" using Cons.prems(2) by simp
    then have "P t" using assms(3) f(1) by blast
    then show ?thesis using fold_err_invariant[OF f(2), of P] assms(4) by blast
  qed
qed simp

lemma fold_err_suffix_invariant:
  assumes "fold_err f xs s = Inr s'" "Q xs s"
    and "\<And>x ys t t'. Q (x # ys) t \<Longrightarrow> f x t = Inr t' \<Longrightarrow> Q ys t'"
  shows "Q [] s'"
  using assms(1,2)
proof (induction xs arbitrary: s)
  case (Cons x xs)
  then obtain t where f: "f x s = Inr t" "fold_err f xs t = Inr s'" by (auto split: sum.splits)
  then show ?case using Cons.IH assms(3) Cons.prems(2) by blast
qed simp

text \<open>Results of \<open>map_st\<close>: a relation every call establishes between its argument
  and its result holds pointwise.\<close>

lemma map_st_rel:
  assumes "map_st f xs s = Inr (ys, s')"
    and "\<And>x t r t'. x \<in> set xs \<Longrightarrow> f x t = Inr (r, t') \<Longrightarrow> R x r"
  shows "list_all2 R xs ys"
  using assms
proof (induction xs arbitrary: s ys)
  case (Cons x xs)
  from Cons.prems(1) obtain y s1 ys' where
    fx: "f x s = Inr (y, s1)" and rest: "map_st f xs s1 = Inr (ys', s')" and ys: "ys = y # ys'"
    by (auto simp: bind_st_eq_Inr)
  have "R x y" using Cons.prems(2) fx by simp
  moreover have "list_all2 R xs ys'" using Cons.IH[OF rest] Cons.prems(2) by simp
  ultimately show ?case using ys by simp
qed simp

lemma fold_err_append [plumbing_simps]:
  "fold_err f (xs @ ys) s = (case fold_err f xs s of Inl e \<Rightarrow> Inl e | Inr s' \<Rightarrow> fold_err f ys s')"
  by (induction xs arbitrary: s) (auto split: sum.splits)

text \<open>A map that keeps the sort key commutes with \<open>sort_key\<close>.\<close>

lemma insort_key_map_same_key:
  "(\<And>x. k (h x) = k x) \<Longrightarrow> insort_key k (h x) (map h ys) = map h (insort_key k x ys)"
  by (induction ys) auto

lemma sort_key_map_same_key:
  assumes "\<And>x. k (h x) = k x"
  shows "sort_key k (map h xs) = map h (sort_key k xs)"
proof (induction xs)
  case (Cons x xs)
  have "insort_key k (h x) (map h (sort_key k xs)) = map h (insort_key k x (sort_key k xs))"
    by (rule insort_key_map_same_key) (rule assms)
  then show ?case using Cons by simp
qed simp

end
