(* ===== verification/Model.thy ===== *)
theory Model
  imports Prelude
begin

text \<open>
  The data of \<open>getVikeConfig.ts\<close>: JavaScript values as a datatype, the file
  paths of \<open>FilePath\<close>, the interface files (\<open>InterfaceConfigFile\<close> and
  \<open>InterfaceValueFile\<close>), config definitions (\<open>ConfigDefinitionInternal\<close>), value
  sources (\<open>ConfigValueSource\<close>), the usage errors and invariant violations the code
  throws, and the import resolver it calls (\<open>parseImportData\<close>, \<open>requireResolve\<close>),
  which is a collaborator outside the sources and is therefore a parameter.
\<close>

subsection \<open>JavaScript values\<close>

text \<open>
  Values exported by user files are opaque to the resolution algorithm except where a
  rule inspects them: strings (import references), arrays and sets (cumulative
  configs), objects (\<open>meta\<close>, effects) and functions (\<open>effect\<close>, identified by a
  number; calling one is the collaborator \<open>call_effect\<close> of the effect engine).
\<close>

datatype jsval =
    JUndefined
  | JNull
  | JBool bool
  | JNum int
  | JStr string
  | JArr "jsval list"
  | JSet "jsval list"
  | JObj "(string \<times> jsval) list"
  | JFun nat

text \<open>\<open>isObject\<close> of the utils: \<open>typeof v === 'object' && v !== null\<close>.\<close>

fun is_object :: "jsval \<Rightarrow> bool" where
  "is_object (JArr _) = True"
| "is_object (JSet _) = True"
| "is_object (JObj _) = True"
| "is_object _ = False"

subsection \<open>Config environments\<close>

text \<open>\<open>ConfigEnvInternal\<close>: the four user-visible environments and the two internal
  routing ones the built-in definitions use.\<close>

datatype config_env =
    ClientOnly | ServerOnly | ServerAndClient | ConfigOnly | RoutingEager | RoutingLazy

subsection \<open>File paths and interface files\<close>

record file_path =
  fp_absolute :: "string option"
  fp_relative :: "string option"
  fp_import_abs :: "string option"

text \<open>\<open>DefinedAtFileInfo\<close>: a file path and the export path inside the file.\<close>

record defined_at_info =
  dai_path :: file_path
  dai_export_path :: "string list"

text \<open>
  \<open>InterfaceFile = InterfaceConfigFile | InterfaceValueFile\<close>. The discriminating
  fields go into \<open>if_kind\<close>: a config file carries \<open>extendsFilePaths\<close> and
  \<open>isConfigExtend\<close>, a value file its \<open>configName\<close>. The \<open>configMap\<close> is an
  association list in insertion order; its entry \<open>{ configValue?: unknown }\<close> is
  \<open>None\<close> when the key \<open>configValue\<close> is absent (value not loaded) and \<open>Some v\<close>
  otherwise.
\<close>

datatype if_kind =
    ConfigFileKind "string list" bool
  | ValueFileKind config_name

record interface_file =
  if_path :: file_path
  if_config_map :: "(config_name \<times> jsval option) list"
  if_kind :: if_kind

fun is_config_file :: "interface_file \<Rightarrow> bool" where
  "is_config_file f = (case if_kind f of ConfigFileKind _ _ \<Rightarrow> True | ValueFileKind _ \<Rightarrow> False)"

fun is_value_file :: "interface_file \<Rightarrow> bool" where
  "is_value_file f = (case if_kind f of ConfigFileKind _ _ \<Rightarrow> False | ValueFileKind _ \<Rightarrow> True)"

fun is_config_extend :: "interface_file \<Rightarrow> bool" where
  "is_config_extend f = (case if_kind f of ConfigFileKind _ b \<Rightarrow> b | ValueFileKind _ \<Rightarrow> False)"

fun value_config_name :: "interface_file \<Rightarrow> config_name option" where
  "value_config_name f = (case if_kind f of ConfigFileKind _ _ \<Rightarrow> None | ValueFileKind c \<Rightarrow> Some c)"

text \<open>\<open>interfaceFile.configMap[configName]\<close> is truthy (the entry is an object).\<close>

definition defines_config :: "config_name \<Rightarrow> interface_file \<Rightarrow> bool" where
  "defines_config cn f \<longleftrightarrow> map_of (if_config_map f) cn \<noteq> None"

text \<open>\<open>isInterfaceFileUserLand\<close>.\<close>

definition is_user_land :: "interface_file \<Rightarrow> bool" where
  "is_user_land f \<longleftrightarrow> (is_config_file f \<and> \<not> is_config_extend f) \<or> is_value_file f"

subsection \<open>Config definitions\<close>

text \<open>
  \<open>ConfigDefinitionInternal\<close>: \<open>env\<close>, \<open>cumulative\<close>, \<open>effect\<close> and \<open>_computed\<close>
  (functions, by identity) and \<open>_valueIsFilePath\<close>.
\<close>

record config_def =
  cd_env :: config_env
  cd_cumulative :: bool
  cd_effect :: "nat option"
  cd_computed :: "nat option"
  cd_value_is_file_path :: bool

subsection \<open>Value sources\<close>

text \<open>
  \<open>ConfigValueSource\<close>: \<open>value\<close> is \<open>None\<close> when the key is absent (the value is
  imported at runtime); \<open>definedAtInfo\<close> is \<open>None\<close> exactly for computed sources.
\<close>

record config_value_source =
  cvs_value :: "jsval option"
  cvs_value_is_file_path :: bool
  cvs_env :: config_env
  cvs_imported :: bool
  cvs_computed :: bool
  cvs_defined_at :: "defined_at_info option"

text \<open>\<open>ConfigValueSources\<close> and the definitions of a page
  (\<open>ConfigDefinitionsIncludingCustom\<close>): objects keyed by config name, in insertion
  order.\<close>

type_synonym config_value_sources = "(config_name \<times> config_value_source list) list"
type_synonym config_defs = "(config_name \<times> config_def) list"

subsection \<open>Errors\<close>

text \<open>
  Every \<open>assertUsage(false, ...)\<close> of the code is a usage error with the data its
  message names; every \<open>assert\<close> is an invariant violation (an internal defect).
\<close>

datatype error =
    ErrShouldBeImport config_name
  | ErrEnvConflict string config_name config_env config_name config_env
  | ErrImportUnresolved string
  | ErrImportOutsideRoot string
  | ErrCumulativeNotConfigFile config_name "defined_at_info option"
  | ErrCumulativeMix config_name "defined_at_info option" "defined_at_info option"
  | ErrCumulativeNotContainer config_name "defined_at_info option"
  | ErrNotSerializable config_name
  | ErrUnknownConfig string config_name "string option"
  | ErrGlobalConfig string config_name "string list"
  | ErrInfiniteExtends "string list"
  | ErrExtendsInvalid
  | ErrConfigFileExports
  | ErrMetaNotObject
  | ErrMetaDefNotObject config_name
  | ErrMetaEnvMissing config_name
  | ErrMetaEnvType config_name
  | ErrMetaEnvValue config_name string
  | ErrMetaEffectType config_name
  | ErrMetaEffectEnv config_name config_env
  | ErrEffectUnsupported
  | ErrValueFileExports string config_name
  | ErrPlusInDirectory string
  | ErrPlusInFileName string
  | ErrRoutingRootNotString config_name "string option"
  | ErrRoutingRootNoSlash config_name "string option" string
  | InvariantViolation

subsection \<open>The import resolver collaborator\<close>

text \<open>
  \<open>ImportData\<close> (the fields the resolution reads) and the two functions the code
  calls but does not define: \<open>parseImportData\<close> (is a string an import reference?)
  and \<open>requireResolve(importPath, cwd)\<close> (Node's resolution, \<open>null\<close> for a Vite alias),
  with Node's \<open>path.posix.dirname\<close>.
\<close>

record import_data =
  imp_path :: string
  imp_export_name :: string

record resolver =
  parse_import_data :: "string \<Rightarrow> import_data option"
  require_resolve :: "string \<Rightarrow> string \<Rightarrow> string option"
  posix_dirname :: "string \<Rightarrow> string"

text \<open>Pass-scoped state \<open>filesEnv\<close>: for every imported file, the configs it provides
  and their environments, in the order they were recorded.\<close>

type_synonym files_env = "string \<Rightarrow> (config_env \<times> config_name) list option"

end
