(* ===== verification/Resolution.thy ===== *)
theory Resolution
  imports Model
begin

text \<open>
  The Source Resolution Engine of \<open>getVikeConfig.ts\<close>: the same-file environment
  check \<open>assertFileEnv\<close> on the pass-scoped \<open>filesEnv\<close> table, import resolution
  (\<open>resolveImport\<close> and its helpers), \<open>getConfigValueSource\<close>, the per-location
  priority rule of \<open>resolveConfigValueSources\<close> with its overridden-definition
  warnings, and the loop over the ancestor locations. Every operation that touches
  \<open>filesEnv\<close> takes it and returns it; every throw is an \<open>Inl\<close>.
\<close>

subsection \<open>Strings and paths\<close>

definition starts_with :: "string \<Rightarrow> string \<Rightarrow> bool" where
  "starts_with s p \<longleftrightarrow> take (length p) s = p"

text \<open>
  \<open>path.posix.relative(root, abs)\<close> for normalised absolute paths where \<open>abs\<close> starts
  with the string \<open>root\<close>: \<open>Some\<close> of the relative path when \<open>abs\<close> lies in the
  directory \<open>root\<close>, \<open>None\<close> when it lies beside it (\<open>/app2/x\<close> against
  \<open>/app\<close>), where Node returns a path beginning with \<open>..\<close>.
\<close>

definition relative_under :: "string \<Rightarrow> string \<Rightarrow> string option" where
  "relative_under root absp =
     (let rest = drop (length root) absp in
      if rest = [] then Some []
      else if root \<noteq> [] \<and> last root = CHR ''/'' then Some rest
      else if hd rest = CHR ''/'' then Some (tl rest)
      else None)"

text \<open>\<open>getVitePathFromAbsolutePath\<close>: the assertion that the relative path starts
  with neither \<open>/\<close> nor \<open>.\<close> is an invariant violation when it fails.\<close>

definition get_vite_path_from_absolute_path :: "string \<Rightarrow> string \<Rightarrow> error + string" where
  "get_vite_path_from_absolute_path absp root =
     (case relative_under root absp of
        None \<Rightarrow> Inl InvariantViolation
      | Some vp \<Rightarrow>
          if starts_with vp ''/'' \<or> starts_with vp ''.'' then Inl InvariantViolation
          else Inr (CHR ''/'' # vp))"

text \<open>\<open>resolveImportPath_relativeToUserRootDir\<close>.\<close>

definition resolve_import_path_relative_to_user_root_dir :: "string \<Rightarrow> import_data \<Rightarrow> string \<Rightarrow> error + string" where
  "resolve_import_path_relative_to_user_root_dir absp idata root =
     (if starts_with absp root then get_vite_path_from_absolute_path absp root
      else Inl (ErrImportOutsideRoot (imp_path idata)))"

text \<open>\<open>resolveImportPath\<close>: \<open>requireResolve(importPath, dirname(importer))\<close>. The
  importer of an import is always a loaded file, whose absolute path is set.\<close>

definition resolve_import_path :: "resolver \<Rightarrow> import_data \<Rightarrow> file_path \<Rightarrow> string option" where
  "resolve_import_path r idata importer =
     require_resolve r (imp_path idata) (posix_dirname r (the (fp_absolute importer)))"

subsection \<open>The same-file environment check\<close>

text \<open>\<open>assertFileEnv\<close>: record \<open>(configEnv, configName)\<close> for the file, then fail if
  any record of the file has another environment, naming the first such.\<close>

definition assert_file_env :: "string \<Rightarrow> config_env \<Rightarrow> config_name \<Rightarrow> files_env \<Rightarrow> error + (unit \<times> files_env)" where
  "assert_file_env p env cn fe =
     (let file_env = (case fe p of None \<Rightarrow> [] | Some l \<Rightarrow> l) @ [(env, cn)] in
      case filter (\<lambda>c. fst c \<noteq> env) file_env of
        [] \<Rightarrow> Inr ((), fe(p \<mapsto> file_env))
      | c # _ \<Rightarrow> Inl (ErrEnvConflict p (snd c) (fst c) cn env))"

subsection \<open>Import resolution\<close>

text \<open>
  \<open>resolveImport\<close>: \<open>None\<close> (the code's \<open>null\<close>) for a value that is not a string or
  not an import; otherwise the file-environment check on the resolved file (or on the
  import path when it does not resolve), then the resolved \<open>DefinedAtFileInfo\<close>: a
  relative import must resolve and lie under the user root; any other import (a
  package or a path alias) keeps its import path.
\<close>

definition resolve_import ::
  "resolver \<Rightarrow> jsval option \<Rightarrow> file_path \<Rightarrow> string \<Rightarrow> config_env \<Rightarrow> config_name
   \<Rightarrow> files_env \<Rightarrow> error + (defined_at_info option \<times> files_env)" where
  "resolve_import r cv importer root env cn fe =
     (case cv of
        Some (JStr s) \<Rightarrow>
          (case parse_import_data r s of
             None \<Rightarrow> Inr (None, fe)
           | Some idata \<Rightarrow>
               (let absp = resolve_import_path r idata importer;
                    exp = imp_export_name idata;
                    export_path = (if exp = ''default'' \<or> exp = cn then [] else [exp])
                in bind_st (assert_file_env (case absp of Some a \<Rightarrow> a | None \<Rightarrow> imp_path idata) env cn fe)
                  (\<lambda>_ fe'.
                    if starts_with (imp_path idata) ''.'' then
                      (case absp of
                         None \<Rightarrow> Inl (ErrImportUnresolved (imp_path idata))
                       | Some a \<Rightarrow>
                           (case resolve_import_path_relative_to_user_root_dir a idata root of
                              Inl e \<Rightarrow> Inl e
                            | Inr rel \<Rightarrow>
                                Inr (Some \<lparr>dai_path = \<lparr>fp_absolute = Some a, fp_relative = Some rel,
                                                        fp_import_abs = None\<rparr>,
                                           dai_export_path = export_path\<rparr>, fe')))
                    else
                      Inr (Some \<lparr>dai_path = \<lparr>fp_absolute = absp, fp_relative = None,
                                              fp_import_abs = Some (imp_path idata)\<rparr>,
                                 dai_export_path = export_path\<rparr>, fe'))))
      | _ \<Rightarrow> Inr (None, fe))"

subsection \<open>One contributor as a value source\<close>

text \<open>\<open>getConfigValueSource\<close>, branch by branch: a file-path-only config, a config
  file (imported or inline value), a value file (loaded or deferred).\<close>

definition get_config_value_source ::
  "resolver \<Rightarrow> string \<Rightarrow> config_name \<Rightarrow> interface_file \<Rightarrow> config_def
   \<Rightarrow> files_env \<Rightarrow> error + (config_value_source \<times> files_env)" where
  "get_config_value_source r root cn f d fe =
     (case map_of (if_config_map f) cn of
        None \<Rightarrow> Inl InvariantViolation
      | Some conf \<Rightarrow>
          (let env = cd_env d;
               defined_at_config_file = \<lparr>dai_path = if_path f, dai_export_path = [''default'', cn]\<rparr>
           in if cd_value_is_file_path d then
                (if is_config_file f then
                   bind_st (resolve_import r conf (if_path f) root env cn fe)
                     (\<lambda>imp fe'. case imp of
                        None \<Rightarrow> Inl (ErrShouldBeImport cn)
                      | Some i \<Rightarrow>
                          (let vfp = (case fp_relative (dai_path i) of
                                        Some p \<Rightarrow> p | None \<Rightarrow> the (fp_import_abs (dai_path i)))
                           in Inr (\<lparr>cvs_value = Some (JStr vfp), cvs_value_is_file_path = True,
                                    cvs_env = env, cvs_imported = True, cvs_computed = False,
                                    cvs_defined_at = Some i\<rparr>, fe')))
                 else
                   Inr (\<lparr>cvs_value = Some (JStr (the (fp_relative (if_path f)))),
                         cvs_value_is_file_path = True, cvs_env = env, cvs_imported = True,
                         cvs_computed = False,
                         cvs_defined_at = Some \<lparr>dai_path = if_path f, dai_export_path = []\<rparr>\<rparr>, fe))
              else if is_config_file f then
                (case conf of
                   None \<Rightarrow> Inl InvariantViolation
                 | Some v \<Rightarrow>
                     bind_st (resolve_import r conf (if_path f) root env cn fe)
                       (\<lambda>imp fe'. case imp of
                          Some i \<Rightarrow>
                            Inr (\<lparr>cvs_value = None, cvs_value_is_file_path = False, cvs_env = env,
                                  cvs_imported = True, cvs_computed = False,
                                  cvs_defined_at = Some i\<rparr>, fe')
                        | None \<Rightarrow>
                            Inr (\<lparr>cvs_value = Some v, cvs_value_is_file_path = False, cvs_env = env,
                                  cvs_imported = False, cvs_computed = False,
                                  cvs_defined_at = Some defined_at_config_file\<rparr>, fe')))
              else
                (if conf = None \<and> env = ConfigOnly then Inl InvariantViolation
                 else
                   Inr (\<lparr>cvs_value = conf, cvs_value_is_file_path = False, cvs_env = env,
                         cvs_imported = (conf = None), cvs_computed = False,
                         cvs_defined_at = Some \<lparr>dai_path = if_path f,
                            dai_export_path = (if value_config_name f = Some cn then [] else [cn])\<rparr>\<rparr>,
                        fe))))"

subsection \<open>The priority rule at one location\<close>

text \<open>
  The four groups of \<open>resolveConfigValueSources\<close>, among the files of one location
  that define the config: value files whose primary config it is, config files that
  are not reached through \<open>extends\<close>, value files that export it as a side effect,
  and extended config files.
\<close>

definition primary_value_files :: "config_name \<Rightarrow> interface_file list \<Rightarrow> interface_file list" where
  "primary_value_files cn fs =
     filter (\<lambda>f. is_value_file f \<and> value_config_name f = Some cn) (filter (defines_config cn) fs)"

definition direct_config_files :: "config_name \<Rightarrow> interface_file list \<Rightarrow> interface_file list" where
  "direct_config_files cn fs =
     filter (\<lambda>f. is_config_file f \<and> \<not> is_config_extend f) (filter (defines_config cn) fs)"

definition side_effect_files :: "config_name \<Rightarrow> interface_file list \<Rightarrow> interface_file list" where
  "side_effect_files cn fs =
     filter (\<lambda>f. is_value_file f \<and> value_config_name f \<noteq> Some cn) (filter (defines_config cn) fs)"

definition extends_files :: "config_name \<Rightarrow> interface_file list \<Rightarrow> interface_file list" where
  "extends_files cn fs =
     filter (\<lambda>f. is_config_file f \<and> is_config_extend f) (filter (defines_config cn) fs)"

text \<open>
  \<open>makeOrderDeterministic\<close> is \<open>lowerFirst\<close> on the length of the path relative to
  the user root: \<open>Array.prototype.sort\<close> is stable, so it is \<open>sort_key\<close>. The
  comparator asserts that both files are user-land and have a relative path; a
  comparison sort of two or more elements compares every element, so the assertion
  fails exactly when a list of at least two elements holds one that breaks it.
\<close>

definition det_key :: "interface_file \<Rightarrow> nat" where
  "det_key f = length (the (fp_relative (if_path f)))"

definition det_sortable :: "interface_file list \<Rightarrow> bool" where
  "det_sortable fs \<longleftrightarrow>
     length fs < 2 \<or> list_all (\<lambda>f. is_user_land f \<and> fp_relative (if_path f) \<noteq> None) fs"

text \<open>
  The order in which \<open>add\<close> is called at one location: the winner (first primary
  value file, else first direct config file), the files it overrides (the rest of both
  sorted groups, primary first: \<open>[...valueFiles, ...configFiles]\<close> without the
  winner), then side-effect exports, then extended config files.
\<close>

definition location_order :: "config_name \<Rightarrow> interface_file list \<Rightarrow> interface_file list" where
  "location_order cn fs =
     sort_key det_key (primary_value_files cn fs) @ sort_key det_key (direct_config_files cn fs)
     @ side_effect_files cn fs @ extends_files cn fs"

type_synonym warning = "config_name \<times> config_value_source \<times> config_value_source"

text \<open>\<open>warnOverridenConfigValues\<close>: for each loser, the sources of winner and loser
  are computed (each call records into \<open>filesEnv\<close>), and a warning names both.\<close>

definition warn_overriden_config_values ::
  "resolver \<Rightarrow> string \<Rightarrow> config_name \<Rightarrow> config_def \<Rightarrow> interface_file \<Rightarrow> interface_file list
   \<Rightarrow> files_env \<Rightarrow> error + (warning list \<times> files_env)" where
  "warn_overriden_config_values r root cn d winner losers =
     map_st (\<lambda>loser fe.
       bind_st (get_config_value_source r root cn winner d fe) (\<lambda>sw fe1.
       bind_st (get_config_value_source r root cn loser d fe1) (\<lambda>sl fe2.
         if cvs_computed sl \<or> cvs_computed sw then Inl InvariantViolation
         else Inr ((cn, sl, sw), fe2)))) losers"

text \<open>One iteration of the location loop of \<open>resolveConfigValueSources\<close>.\<close>

definition resolve_location ::
  "resolver \<Rightarrow> string \<Rightarrow> config_name \<Rightarrow> config_def \<Rightarrow> interface_file list
   \<Rightarrow> files_env \<Rightarrow> error + ((config_value_source list \<times> warning list) \<times> files_env)" where
  "resolve_location r root cn d fs fe =
     (if \<not> det_sortable (primary_value_files cn fs) \<or> \<not> det_sortable (direct_config_files cn fs)
      then Inl InvariantViolation
      else
        bind_st
          (case sort_key det_key (primary_value_files cn fs) @ sort_key det_key (direct_config_files cn fs) of
             [] \<Rightarrow> Inr ([], fe)
           | winner # overriden \<Rightarrow> warn_overriden_config_values r root cn d winner overriden fe)
          (\<lambda>ws fe1. bind_st (map_st (\<lambda>f. get_config_value_source r root cn f d) (location_order cn fs) fe1)
             (\<lambda>srcs fe2. Inr ((srcs, ws), fe2))))"

text \<open>
  The loop over the relevant locations, most specific first (the order of
  \<open>interfaceFilesRelevant\<close>): a location with no defining file is skipped
  (\<open>continue\<close>); otherwise \<open>sources\<close> becomes an array and the location's sources
  are appended. \<open>None\<close> is the code's \<open>null\<close>: no location defines the config.
\<close>

fun resolve_locations ::
  "resolver \<Rightarrow> string \<Rightarrow> config_name \<Rightarrow> config_def \<Rightarrow> (location_id \<times> interface_file list) list
   \<Rightarrow> config_value_source list option \<Rightarrow> warning list
   \<Rightarrow> files_env \<Rightarrow> error + ((config_value_source list option \<times> warning list) \<times> files_env)" where
  "resolve_locations r root cn d [] acc ws fe = Inr ((acc, ws), fe)"
| "resolve_locations r root cn d ((l, fs) # rest) acc ws fe =
     (if filter (defines_config cn) fs = [] then resolve_locations r root cn d rest acc ws fe
      else bind_st (resolve_location r root cn d fs fe) (\<lambda>(srcs, ws') fe'.
        resolve_locations r root cn d rest
          (Some ((case acc of None \<Rightarrow> [] | Some a \<Rightarrow> a) @ srcs)) (ws @ ws') fe'))"

text \<open>\<open>resolveConfigValueSources\<close>, with its closing assertion that a non-null
  result is non-empty.\<close>

definition resolve_config_value_sources ::
  "resolver \<Rightarrow> string \<Rightarrow> config_name \<Rightarrow> config_def \<Rightarrow> (location_id \<times> interface_file list) list
   \<Rightarrow> files_env \<Rightarrow> error + ((config_value_source list option \<times> warning list) \<times> files_env)" where
  "resolve_config_value_sources r root cn d locs fe =
     bind_st (resolve_locations r root cn d locs None [] fe) (\<lambda>(srcs, ws) fe'.
       if srcs = Some [] then Inl InvariantViolation else Inr ((srcs, ws), fe'))"

subsection \<open>The abstract order of contributors\<close>

text \<open>
  The specification the loop implements: the contributors of a config, location by
  location in the given order, each location in its priority order. \<open>bucket_rank\<close>
  names the four priority groups 0 to 3.
\<close>

definition resolve_order :: "config_name \<Rightarrow> (location_id \<times> interface_file list) list \<Rightarrow> interface_file list" where
  "resolve_order cn locs = concat (map (\<lambda>(l, fs). location_order cn fs) locs)"

definition bucket_rank :: "config_name \<Rightarrow> interface_file \<Rightarrow> nat" where
  "bucket_rank cn f =
     (if is_value_file f \<and> value_config_name f = Some cn then 0
      else if is_config_file f \<and> \<not> is_config_extend f then 1
      else if is_value_file f then 2 else 3)"

subsection \<open>Concrete inputs for the witnesses\<close>

text \<open>A page directory \<open>/pages\<close> with \<open>+title.js\<close>, a \<open>+config.js\<close> that also
  sets \<open>title\<close>, and a config file extended from a package.\<close>

definition example_resolver :: resolver where
  "example_resolver =
     \<lparr>parse_import_data = (\<lambda>s. None), require_resolve = (\<lambda>p cwd. None), posix_dirname = (\<lambda>s. s)\<rparr>"

definition example_value_file :: interface_file where
  "example_value_file =
     \<lparr>if_path = \<lparr>fp_absolute = Some ''/r/pages/+title.js'', fp_relative = Some ''/pages/+title.js'',
                 fp_import_abs = None\<rparr>,
      if_config_map = [(''title'', Some (JStr ''A''))], if_kind = ValueFileKind ''title''\<rparr>"

definition example_config_file :: interface_file where
  "example_config_file =
     \<lparr>if_path = \<lparr>fp_absolute = Some ''/r/pages/+config.js'', fp_relative = Some ''/pages/+config.js'',
                 fp_import_abs = None\<rparr>,
      if_config_map = [(''title'', Some (JStr ''B''))], if_kind = ConfigFileKind [] False\<rparr>"

definition example_extended_file :: interface_file where
  "example_extended_file =
     \<lparr>if_path = \<lparr>fp_absolute = Some ''/n/vike-react/+config.js'', fp_relative = None,
                 fp_import_abs = Some ''vike-react/config''\<rparr>,
      if_config_map = [(''title'', Some (JStr ''C''))], if_kind = ConfigFileKind [] True\<rparr>"

definition example_def :: config_def where
  "example_def =
     \<lparr>cd_env = ServerAndClient, cd_cumulative = False, cd_effect = None, cd_computed = None,
      cd_value_is_file_path = False\<rparr>"

subsection \<open>Classification of interface files\<close>

lemma config_file_iff_not_value [simp]: "is_config_file f \<longleftrightarrow> \<not> is_value_file f"
  by (simp split: if_kind.splits)

lemmas group_defs =
  primary_value_files_def direct_config_files_def side_effect_files_def extends_files_def

lemmas example_defs =
  example_resolver_def example_value_file_def example_config_file_def example_extended_file_def
  example_def_def

lemmas resolution_defs =
  resolve_config_value_sources_def resolve_location_def location_order_def group_defs
  det_sortable_def is_user_land_def defines_config_def get_config_value_source_def
  resolve_import_def warn_overriden_config_values_def det_key_def

subsection \<open>Paths under the user root\<close>

lemma relative_under_child:
  "root \<noteq> [] \<Longrightarrow> last root \<noteq> CHR ''/'' \<Longrightarrow> relative_under root (root @ CHR ''/'' # p) = Some p"
  by (simp add: relative_under_def)

subsection \<open>The per-location order\<close>

text \<open>Every defining file is added exactly once: the assertions \<open>!visited.has\<close>
  before each \<open>add\<close> and \<open>visited.has\<close> after the location never fail.\<close>

lemma location_order_mset:
  "mset (location_order cn fs) = mset (filter (defines_config cn) fs)"
proof -
  let ?d = "filter (defines_config cn) fs"
  have "mset (filter (\<lambda>f. is_value_file f \<and> value_config_name f = Some cn) ?d)
      + mset (filter (\<lambda>f. is_config_file f \<and> \<not> is_config_extend f) ?d)
      + mset (filter (\<lambda>f. is_value_file f \<and> value_config_name f \<noteq> Some cn) ?d)
      + mset (filter (\<lambda>f. is_config_file f \<and> is_config_extend f) ?d) = mset ?d"
    by (rule mset_filter_cases4) (auto split: if_kind.splits)
  then show ?thesis
    by (simp add: location_order_def group_defs ac_simps)
qed

lemma location_order_Nil_iff: "location_order cn fs = [] \<longleftrightarrow> filter (defines_config cn) fs = []"
  by (metis location_order_mset mset_zero_iff)

lemma location_order_rank_sorted:
  "sorted (map (bucket_rank cn) (location_order cn fs))"
proof -
  have r0: "\<And>x. x \<in> set (sort_key det_key (primary_value_files cn fs)) \<Longrightarrow> bucket_rank cn x = 0"
    by (auto simp: bucket_rank_def group_defs split: if_kind.splits)
  have r1: "\<And>x. x \<in> set (sort_key det_key (direct_config_files cn fs)) \<Longrightarrow> bucket_rank cn x = 1"
    by (auto simp: bucket_rank_def group_defs split: if_kind.splits)
  have r2: "\<And>x. x \<in> set (side_effect_files cn fs) \<Longrightarrow> bucket_rank cn x = 2"
    by (auto simp: bucket_rank_def group_defs split: if_kind.splits)
  have r3: "\<And>x. x \<in> set (extends_files cn fs) \<Longrightarrow> bucket_rank cn x = 3"
    by (auto simp: bucket_rank_def group_defs split: if_kind.splits)
  show ?thesis
    unfolding location_order_def map_append
    using r0 r1 r2 r3
    by (auto simp: sorted_append intro!: sorted_map_const)
qed

lemma location_order_hd_primary:
  assumes "primary_value_files cn fs \<noteq> []"
  shows "hd (location_order cn fs) \<in> set (primary_value_files cn fs)"
proof -
  have "sort_key det_key (primary_value_files cn fs) \<noteq> []" using assms by (metis length_0_conv length_sort)
  then show ?thesis
    by (simp add: location_order_def) (metis list.set_sel(1) set_sort)
qed

lemma primary_value_files_iff:
  "f \<in> set (primary_value_files cn fs) \<longleftrightarrow> f \<in> set fs \<and> defines_config cn f \<and> value_config_name f = Some cn"
  by (auto simp: group_defs split: if_kind.splits)

subsection \<open>The loop implements the order\<close>

lemma resolve_location_sources:
  assumes "resolve_location r root cn d fs fe = Inr ((srcs, ws), fe')"
  shows "list_all2 (\<lambda>f s. \<exists>t t'. get_config_value_source r root cn f d t = Inr (s, t'))
           (location_order cn fs) srcs"
  using assms
  by (auto simp: resolve_location_def bind_st_eq_Inr split: if_splits list.splits
           dest!: map_st_list_all2)

lemma resolve_location_warnings:
  assumes "resolve_location r root cn d fs fe = Inr ((srcs, ws), fe')"
    and "sort_key det_key (primary_value_files cn fs) @ sort_key det_key (direct_config_files cn fs)
           = winner # overriden"
  shows "list_all2 (\<lambda>f w. fst w = cn \<and> (\<exists>t t'. get_config_value_source r root cn f d t = Inr (fst (snd w), t')))
           overriden ws"
proof -
  from assms obtain fe1 where
    warn: "warn_overriden_config_values r root cn d winner overriden fe = Inr (ws, fe1)"
    by (auto simp: resolve_location_def bind_st_eq_Inr split: if_splits)
  have "list_all2 (\<lambda>x y. \<exists>t t'. (\<lambda>loser fe.
       bind_st (get_config_value_source r root cn winner d fe) (\<lambda>sw fe1.
       bind_st (get_config_value_source r root cn loser d fe1) (\<lambda>sl fe2.
         if cvs_computed sl \<or> cvs_computed sw then Inl InvariantViolation
         else Inr ((cn, sl, sw), fe2)))) x t = Inr (y, t')) overriden ws"
    using warn unfolding warn_overriden_config_values_def by (rule map_st_list_all2)
  then show ?thesis
    by (rule list_all2_mono) (fastforce simp: bind_st_eq_Inr split: if_splits)
qed

lemma resolve_locations_sources:
  assumes "resolve_locations r root cn d locs acc ws fe = Inr ((srcs, ws'), fe')"
  shows "\<exists>new. list_all2 (\<lambda>f s. \<exists>t t'. get_config_value_source r root cn f d t = Inr (s, t'))
                 (resolve_order cn locs) new
           \<and> srcs = (if new = [] then acc else Some ((case acc of None \<Rightarrow> [] | Some a \<Rightarrow> a) @ new))"
  using assms
proof (induction r root cn d locs acc ws fe rule: resolve_locations.induct)
  case (1 r root cn d acc ws fe)
  then show ?case by (simp add: resolve_order_def)
next
  case (2 r root cn d l fs rest acc ws fe)
  let ?R = "\<lambda>f s. \<exists>t t'. get_config_value_source r root cn f d t = Inr (s, t')"
  show ?case
  proof (cases "filter (defines_config cn) fs = []")
    case True
    then have "location_order cn fs = []" by (simp add: location_order_Nil_iff)
    with True "2.IH"(1) "2.prems" show ?thesis by (simp add: resolve_order_def)
  next
    case False
    from False "2.prems" obtain srcs1 ws1 fe1 where
      loc: "resolve_location r root cn d fs fe = Inr ((srcs1, ws1), fe1)" and
      rest: "resolve_locations r root cn d rest
               (Some ((case acc of None \<Rightarrow> [] | Some a \<Rightarrow> a) @ srcs1)) (ws @ ws1) fe1 = Inr ((srcs, ws'), fe')"
      by (auto simp: bind_st_eq_Inr)
    have l1: "list_all2 ?R (location_order cn fs) srcs1" using loc by (rule resolve_location_sources)
    have "location_order cn fs \<noteq> []" using False by (simp add: location_order_Nil_iff)
    then have ne: "srcs1 \<noteq> []" using l1 by (auto simp: list_all2_conv_all_nth)
    obtain new where n1: "list_all2 ?R (resolve_order cn rest) new"
      and n2: "srcs = (if new = [] then Some ((case acc of None \<Rightarrow> [] | Some a \<Rightarrow> a) @ srcs1)
                     else Some ((case acc of None \<Rightarrow> [] | Some a \<Rightarrow> a) @ srcs1 @ new))"
      using "2.IH"(2)[OF False rest] by auto
    have "list_all2 ?R (resolve_order cn ((l, fs) # rest)) (srcs1 @ new)"
      using l1 n1 by (simp add: resolve_order_def list_all2_appendI)
    then show ?thesis using n2 ne by (intro exI[of _ "srcs1 @ new"]) auto
  qed
qed

lemma resolve_locations_nonempty:
  assumes "resolve_locations r root cn d locs acc ws fe = Inr ((srcs, ws'), fe')" and "acc \<noteq> Some []"
  shows "srcs \<noteq> Some []"
proof -
  obtain new where "srcs = (if new = [] then acc else Some ((case acc of None \<Rightarrow> [] | Some a \<Rightarrow> a) @ new))"
    using resolve_locations_sources[OF assms(1)] by blast
  then show ?thesis using assms(2) by auto
qed

lemma resolve_locations_single:
  assumes "resolve_locations r root cn d [(l, fs)] None [] fe = Inr ((srcs, ws), fe')"
    and "filter (defines_config cn) fs \<noteq> []"
  shows "resolve_location r root cn d fs fe = Inr ((the srcs, ws), fe')"
  using assms by (auto simp: bind_st_eq_Inr)

lemma resolve_order_first_location:
  assumes "\<forall>(l', fs') \<in> set pre. filter (defines_config cn) fs' = []"
    and "filter (defines_config cn) fs \<noteq> []"
  shows "hd (resolve_order cn (pre @ (l, fs) # post)) = hd (location_order cn fs)"
proof -
  have pre: "concat (map (\<lambda>(l, fs). location_order cn fs) pre) = []"
    using assms(1) by (induction pre) (auto simp: location_order_Nil_iff)
  have "location_order cn fs \<noteq> []" using assms(2) by (simp add: location_order_Nil_iff)
  then show ?thesis using pre by (simp add: resolve_order_def hd_append)
qed

lemma resolve_sources_nonempty_result:
  "resolve_config_value_sources r root cn d locs fe = Inr ((Some srcs, ws), fe') \<Longrightarrow> srcs \<noteq> []"
  by (auto simp: resolve_config_value_sources_def bind_st_eq_Inr split: if_splits)

lemma resolve_config_value_sources_loop:
  "resolve_config_value_sources r root cn d locs fe = Inr ((srcs, ws), fe') \<Longrightarrow>
   resolve_locations r root cn d locs None [] fe = Inr ((srcs, ws), fe')"
  by (auto simp: resolve_config_value_sources_def bind_st_eq_Inr split: if_splits)

lemma gcvs_value_file_defined_at:
  assumes "get_config_value_source r root cn f d t = Inr (s, t')" and "is_value_file f"
  shows "cvs_defined_at s = Some \<lparr>dai_path = if_path f,
           dai_export_path = (if cd_value_is_file_path d \<or> value_config_name f = Some cn then [] else [cn])\<rparr>"
  using assms
  by (auto simp: get_config_value_source_def Let_def bind_st_eq_Inr
           split: option.splits if_splits if_kind.splits)

text \<open>C6. The closing assertion \<open>sources === null || sources.length > 0\<close> of
  \<open>resolveConfigValueSources\<close> never fails: whenever the location loop succeeds,
  the function returns the loop's result.\<close>

theorem resolve_sources_assertion_holds:
  assumes "resolve_locations r root cn d locs None [] fe = Inr ((srcs, ws), fe')"
  shows "resolve_config_value_sources r root cn d locs fe = Inr ((srcs, ws), fe')"
  using resolve_locations_nonempty[OF assms] assms
  by (simp add: resolve_config_value_sources_def)

theorem resolve_sources_assertion_holds_witness:
  "\<exists>srcs ws fe'.
     resolve_locations example_resolver ''/r'' ''title'' example_def
       [([''pages''], [example_extended_file, example_config_file, example_value_file])] None [] Map.empty
       = Inr ((srcs, ws), fe')
   \<and> resolve_config_value_sources example_resolver ''/r'' ''title'' example_def
       [([''pages''], [example_extended_file, example_config_file, example_value_file])] Map.empty
       = Inr ((srcs, ws), fe')"
proof -
  obtain srcs ws fe' where loop:
    "resolve_locations example_resolver ''/r'' ''title'' example_def
       [([''pages''], [example_extended_file, example_config_file, example_value_file])] None [] Map.empty
       = Inr ((srcs, ws), fe')"
    by (simp add: example_defs resolution_defs)
  show ?thesis using loop resolve_sources_assertion_holds [OF loop] by blast
qed

text \<open>C5. Refinement: when \<open>resolveConfigValueSources\<close> succeeds, its sources are,
  one for one, the sources \<open>getConfigValueSource\<close> makes of the contributors in the
  abstract order \<open>resolve_order\<close>; it returns \<open>null\<close> exactly when no location
  defines the config.\<close>

theorem resolve_config_value_sources_refines:
  assumes "resolve_config_value_sources r root cn d locs fe = Inr ((srcs, ws), fe')"
  shows "case srcs of
           None \<Rightarrow> resolve_order cn locs = []
         | Some ss \<Rightarrow> list_all2 (\<lambda>f s. \<exists>t t'. get_config_value_source r root cn f d t = Inr (s, t'))
                        (resolve_order cn locs) ss"
  using resolve_locations_sources[OF resolve_config_value_sources_loop[OF assms]]
  by (auto split: option.splits if_splits)

theorem resolve_config_value_sources_refines_witness:
  "\<exists>srcs ws fe'.
     resolve_config_value_sources example_resolver ''/r'' ''title'' example_def
       [([''pages''], [example_extended_file, example_config_file, example_value_file])] Map.empty
       = Inr ((srcs, ws), fe')
   \<and> (case srcs of
        None \<Rightarrow> resolve_order ''title'' [([''pages''], [example_extended_file, example_config_file, example_value_file])] = []
      | Some ss \<Rightarrow> list_all2 (\<lambda>f s. \<exists>t t'. get_config_value_source example_resolver ''/r'' ''title'' f example_def t = Inr (s, t'))
           (resolve_order ''title'' [([''pages''], [example_extended_file, example_config_file, example_value_file])]) ss)"
proof -
  obtain srcs ws fe' where res:
    "resolve_config_value_sources example_resolver ''/r'' ''title'' example_def
       [([''pages''], [example_extended_file, example_config_file, example_value_file])] Map.empty
       = Inr ((srcs, ws), fe')"
    by (simp add: example_defs resolution_defs)
  show ?thesis using res resolve_config_value_sources_refines [OF res] by blast
qed

text \<open>C1. Override priority (spec P1): at a location with a value file whose primary
  config is the target, the value that is used (the first source) comes from such a
  value file, whatever else the location defines and in whatever order its files
  were found.\<close>

theorem value_file_overrides_config_file:
  assumes res: "resolve_config_value_sources r root cn d [(l, fs)] fe = Inr ((Some srcs, ws), fe')"
    and v: "v \<in> set fs" "defines_config cn v" "value_config_name v = Some cn"
  shows "\<exists>w\<in>set fs. defines_config cn w \<and> value_config_name w = Some cn \<and>
           cvs_defined_at (hd srcs) = Some \<lparr>dai_path = if_path w, dai_export_path = []\<rparr>"
proof -
  let ?R = "\<lambda>f s. \<exists>t t'. get_config_value_source r root cn f d t = Inr (s, t')"
  have la: "list_all2 ?R (location_order cn fs) srcs"
    using resolve_config_value_sources_refines[OF res] by (simp add: resolve_order_def)
  have prim: "primary_value_files cn fs \<noteq> []"
    using v by (metis empty_iff list.set(1) primary_value_files_iff)
  have ne: "location_order cn fs \<noteq> []" using v by (auto simp: location_order_Nil_iff filter_empty_conv)
  let ?w = "hd (location_order cn fs)"
  have w: "?w \<in> set fs" "defines_config cn ?w" "value_config_name ?w = Some cn"
    using location_order_hd_primary[OF prim] by (simp_all add: primary_value_files_iff)
  obtain t t' where "get_config_value_source r root cn ?w d t = Inr (hd srcs, t')"
    using list_all2_hd[OF la ne] by blast
  moreover have "is_value_file ?w" using w(3) by (auto split: if_kind.splits)
  ultimately have "cvs_defined_at (hd srcs) = Some \<lparr>dai_path = if_path ?w, dai_export_path = []\<rparr>"
    using w(3) by (simp add: gcvs_value_file_defined_at)
  then show ?thesis using w by blast
qed

theorem value_file_overrides_config_file_witness:
  "\<exists>srcs ws fe'.
     resolve_config_value_sources example_resolver ''/r'' ''title'' example_def
       [([''pages''], [example_extended_file, example_config_file, example_value_file])] Map.empty
       = Inr ((Some srcs, ws), fe')
   \<and> example_value_file \<in> set [example_extended_file, example_config_file, example_value_file]
   \<and> defines_config ''title'' example_value_file \<and> value_config_name example_value_file = Some ''title''
   \<and> (\<exists>w\<in>set [example_extended_file, example_config_file, example_value_file].
        defines_config ''title'' w \<and> value_config_name w = Some ''title'' \<and>
        cvs_defined_at (hd srcs) = Some \<lparr>dai_path = if_path w, dai_export_path = []\<rparr>)"
proof -
  obtain srcs ws fe' where res:
    "resolve_config_value_sources example_resolver ''/r'' ''title'' example_def
       [([''pages''], [example_extended_file, example_config_file, example_value_file])] Map.empty
       = Inr ((Some srcs, ws), fe')"
    by (simp add: example_defs resolution_defs)
  have v: "example_value_file \<in> set [example_extended_file, example_config_file, example_value_file]"
    "defines_config ''title'' example_value_file" "value_config_name example_value_file = Some ''title''"
    by (simp_all add: example_defs defines_config_def)
  show ?thesis using res v value_file_overrides_config_file [OF res v] by blast
qed

text \<open>C4. The overridden definition is reported (spec P1): when a location has a
  primary value file for the config, every non-extension config file of the location
  that defines it is the loser of a warning.\<close>

theorem overridden_config_file_warned:
  assumes res: "resolve_config_value_sources r root cn d [(l, fs)] fe = Inr ((srcs, ws), fe')"
    and v: "v \<in> set fs" "defines_config cn v" "value_config_name v = Some cn"
    and c: "c \<in> set fs" "defines_config cn c" "is_config_file c" "\<not> is_config_extend c"
  shows "\<exists>w\<in>set ws. fst w = cn \<and> (\<exists>t t'. get_config_value_source r root cn c d t = Inr (fst (snd w), t'))"
proof -
  have "filter (defines_config cn) fs \<noteq> []" using v by (metis filter_empty_conv)
  then have loc: "resolve_location r root cn d fs fe = Inr ((the srcs, ws), fe')"
    using resolve_locations_single resolve_config_value_sources_loop[OF res] by blast
  have "primary_value_files cn fs \<noteq> []"
    using v by (metis empty_iff list.set(1) primary_value_files_iff)
  then obtain p ps where ps: "sort_key det_key (primary_value_files cn fs) = p # ps"
    by (metis length_0_conv length_sort neq_Nil_conv)
  have "c \<in> set (direct_config_files cn fs)" using c by (simp add: group_defs)
  then have "c \<in> set (ps @ sort_key det_key (direct_config_files cn fs))" by simp
  moreover have "list_all2 (\<lambda>f w. fst w = cn \<and> (\<exists>t t'. get_config_value_source r root cn f d t = Inr (fst (snd w), t')))
      (ps @ sort_key det_key (direct_config_files cn fs)) ws"
    using resolve_location_warnings[OF loc] ps by simp
  ultimately show ?thesis by (blast dest: list_all2_set1_ex)
qed

theorem overridden_config_file_warned_witness:
  "\<exists>srcs ws fe'.
     resolve_config_value_sources example_resolver ''/r'' ''title'' example_def
       [([''pages''], [example_extended_file, example_config_file, example_value_file])] Map.empty
       = Inr ((srcs, ws), fe')
   \<and> (\<exists>w\<in>set ws. fst w = ''title'' \<and> (\<exists>t t'. get_config_value_source example_resolver ''/r'' ''title''
          example_config_file example_def t = Inr (fst (snd w), t')))"
proof -
  obtain srcs ws fe' where res:
    "resolve_config_value_sources example_resolver ''/r'' ''title'' example_def
       [([''pages''], [example_extended_file, example_config_file, example_value_file])] Map.empty
       = Inr ((srcs, ws), fe')"
    by (simp add: example_defs resolution_defs)
  have v: "example_value_file \<in> set [example_extended_file, example_config_file, example_value_file]"
    "defines_config ''title'' example_value_file" "value_config_name example_value_file = Some ''title''"
    and c: "example_config_file \<in> set [example_extended_file, example_config_file, example_value_file]"
    "defines_config ''title'' example_config_file" "is_config_file example_config_file"
    "\<not> is_config_extend example_config_file"
    by (simp_all add: example_defs defines_config_def)
  show ?thesis using res overridden_config_file_warned [OF res v c] by blast
qed

text \<open>C3. Extends priority (spec P3): at one location, a config file placed there
  directly is added before every config file reached only through \<open>extends\<close>.\<close>

theorem direct_config_precedes_extends:
  assumes "i < length (location_order cn fs)" "j < length (location_order cn fs)"
    and "is_config_file (location_order cn fs ! i)" "\<not> is_config_extend (location_order cn fs ! i)"
    and "is_config_extend (location_order cn fs ! j)"
  shows "i < j"
proof (rule ccontr)
  assume "\<not> i < j"
  then have "bucket_rank cn (location_order cn fs ! j) \<le> bucket_rank cn (location_order cn fs ! i)"
    using location_order_rank_sorted[of cn fs] assms(1)
    by (auto simp: sorted_iff_nth_mono)
  moreover have "bucket_rank cn (location_order cn fs ! i) = 1"
    using assms(3,4) by (auto simp: bucket_rank_def split: if_kind.splits)
  moreover have "bucket_rank cn (location_order cn fs ! j) = 3"
    using assms(5) by (auto simp: bucket_rank_def split: if_kind.splits)
  ultimately show False by simp
qed

theorem direct_config_precedes_extends_witness:
  "location_order ''title'' [example_extended_file, example_config_file, example_value_file] ! 1 = example_config_file
   \<and> location_order ''title'' [example_extended_file, example_config_file, example_value_file] ! 2 = example_extended_file
   \<and> (1::nat) < 2"
proof -
  have ord: "location_order ''title'' [example_extended_file, example_config_file, example_value_file]
      = [example_value_file, example_config_file, example_extended_file]"
    by (simp add: example_defs location_order_def group_defs defines_config_def)
  have "1 < length (location_order ''title'' [example_extended_file, example_config_file, example_value_file])"
    "2 < length (location_order ''title'' [example_extended_file, example_config_file, example_value_file])"
    "is_config_file (location_order ''title'' [example_extended_file, example_config_file, example_value_file] ! 1)"
    "\<not> is_config_extend (location_order ''title'' [example_extended_file, example_config_file, example_value_file] ! 1)"
    "is_config_extend (location_order ''title'' [example_extended_file, example_config_file, example_value_file] ! 2)"
    unfolding ord by (simp_all add: example_defs)
  then have "(1::nat) < 2" by (rule direct_config_precedes_extends)
  then show ?thesis by (simp add: ord)
qed

text \<open>Imports under the user root: an absolute path inside the user root
  directory (a root without a trailing slash, a relative part that starts with
  neither \<open>/\<close> nor \<open>.\<close>) resolves to its Vite path, the relative part behind a slash.\<close>

theorem import_under_root_resolves:
  assumes "root \<noteq> []" "last root \<noteq> CHR ''/''" "\<not> starts_with p ''/''" "\<not> starts_with p ''.''"
  shows "resolve_import_path_relative_to_user_root_dir (root @ CHR ''/'' # p) idata root = Inr (CHR ''/'' # p)"
  using assms by (simp add: resolve_import_path_relative_to_user_root_dir_def starts_with_def
      get_vite_path_from_absolute_path_def relative_under_child)

theorem import_under_root_resolves_witness:
  "resolve_import_path_relative_to_user_root_dir ''/app/pages/x.js'' \<lparr>imp_path = ''./x.js'', imp_export_name = ''default''\<rparr> ''/app''
     = Inr ''/pages/x.js''"
  using import_under_root_resolves[of "''/app''" "''pages/x.js''"] by (simp add: starts_with_def)

text \<open>C37. A path beside the user root is an internal error: for a user root
  directory without a trailing slash, every absolute path that extends the root
  string by a part not starting with \<open>/\<close> (as \<open>/app2/x.js\<close> for the root \<open>/app\<close>)
  passes the string test \<open>startsWith(userRootDir)\<close>, and the assertion of
  \<open>getVitePathFromAbsolutePath\<close> then fails, instead of the usage error for an
  import outside the user root.\<close>

theorem import_beside_root_is_internal_error:
  assumes "root \<noteq> []" "last root \<noteq> CHR ''/''" "s \<noteq> []" "hd s \<noteq> CHR ''/''"
  shows "resolve_import_path_relative_to_user_root_dir (root @ s) idata root = Inl InvariantViolation"
  using assms by (simp add: resolve_import_path_relative_to_user_root_dir_def starts_with_def
      get_vite_path_from_absolute_path_def relative_under_def)

theorem import_beside_root_is_internal_error_witness:
  "resolve_import_path_relative_to_user_root_dir ''/app2/x.js'' \<lparr>imp_path = ''../app2/x.js'', imp_export_name = ''default''\<rparr> ''/app''
     = Inl InvariantViolation"
  using import_beside_root_is_internal_error[of "''/app''" "''2/x.js''"] by simp

end
