(* ===== verification/Locations.thy ===== *)
theory Locations
  imports Model
begin

text \<open>
  The Location Inheritance Resolver. The helpers \<open>isInherited\<close>,
  \<open>sortAfterInheritanceOrder\<close> and \<open>isGlobalLocation\<close> live in
  \<open>getVikeConfig/filesystemRouting.ts\<close>, which is not among the sources: they are
  modelled from the specification (section 4.3), on locations as lists of path
  segments (\<open>/pages/blog\<close> is \<open>[''pages'', ''blog'']\<close>). \<open>getInterfaceFilesRelevant\<close>
  of \<open>getVikeConfig.ts\<close> is modelled from the code.
\<close>

text \<open>\<open>isInherited(l1, l2)\<close>: \<open>l1\<close> is an ancestor of \<open>l2\<close> or \<open>l2\<close> itself.\<close>

definition is_inherited :: "location_id \<Rightarrow> location_id \<Rightarrow> bool" where
  "is_inherited l1 l2 \<longleftrightarrow> take (length l1) l2 = l1"

text \<open>\<open>sortAfterInheritanceOrder\<close> is \<open>higherFirst\<close> on the depth: as a stable sort,
  \<open>sort_key\<close> on the negated depth.\<close>

definition inheritance_key :: "location_id \<times> interface_file list \<Rightarrow> int" where
  "inheritance_key e = - int (length (fst e))"

text \<open>\<open>isGlobalLocation(l, ls)\<close>: \<open>l\<close> is an ancestor of every known location.\<close>

definition is_global_location :: "location_id \<Rightarrow> location_id list \<Rightarrow> bool" where
  "is_global_location l ls \<longleftrightarrow> list_all (is_inherited l) ls"

text \<open>\<open>getInterfaceFilesRelevant\<close>: the entries of the locations the page inherits
  from, most specific first.\<close>

definition get_interface_files_relevant ::
  "(location_id \<times> interface_file list) list \<Rightarrow> location_id \<Rightarrow> (location_id \<times> interface_file list) list" where
  "get_interface_files_relevant by_loc page =
     sort_key inheritance_key (filter (\<lambda>e. is_inherited (fst e) page) by_loc)"

lemma is_inherited_refl [simp]: "is_inherited l l"
  by (simp add: is_inherited_def)

lemma is_inherited_length: "is_inherited l1 l2 \<Longrightarrow> length l1 \<le> length l2"
  by (metis is_inherited_def length_take min.bounded_iff nle_le)

lemma set_get_interface_files_relevant [simp]:
  "set (get_interface_files_relevant by_loc page) = {e \<in> set by_loc. is_inherited (fst e) page}"
  by (auto simp: get_interface_files_relevant_def)

lemma get_interface_files_relevant_sorted:
  "sorted (map inheritance_key (get_interface_files_relevant by_loc page))"
  by (simp add: get_interface_files_relevant_def)

text \<open>In a list sorted by \<open>inheritance_key\<close>, an entry is at least as deep as every
  entry after it.\<close>

lemma sorted_inheritance_later_shallower:
  assumes "sorted (map inheritance_key (ys @ x # zs))" and "z \<in> set zs"
  shows "length (fst z) \<le> length (fst x)"
proof -
  have "inheritance_key x \<le> inheritance_key z"
    using assms by (auto simp: sorted_append)
  then show ?thesis by (simp add: inheritance_key_def)
qed

end
