(* ===== verification/Registry.thy ===== *)
theory Registry
  imports Model
begin

text \<open>
  The Definition Registry: the validation of a \<open>meta\<close> value (\<open>assertMetaValue\<close>)
  and the assembly of a page's config definitions from the built-in ones and the
  \<open>meta\<close> declarations of the interface files it inherits
  (\<open>getConfigDefinitions\<close>), with the JavaScript object operations they use. The
  built-in definitions (\<open>configDefinitionsBuiltIn\<close>) live outside the sources and
  are a parameter. A user definition is shallow-merged over the existing one, field
  by field (\<open>env\<close>, \<open>cumulative\<close>, \<open>effect\<close>, \<open>_computed\<close>, \<open>_valueIsFilePath\<close>).
\<close>

subsection \<open>JavaScript object operations\<close>

fun digit_char :: "nat \<Rightarrow> char" where
  "digit_char n = char_of (48 + n)"

fun nat_str :: "nat \<Rightarrow> string" where
  "nat_str n = (if n < 10 then [digit_char n] else nat_str (n div 10) @ [digit_char (n mod 10)])"

text \<open>\<open>Object.entries\<close>: the own enumerable properties, in order (indices for arrays
  and strings, none for sets and other primitives).\<close>

fun object_entries :: "jsval \<Rightarrow> (string \<times> jsval) list" where
  "object_entries (JObj kvs) = kvs"
| "object_entries (JArr xs) = zip (map nat_str [0..<length xs]) xs"
| "object_entries (JStr s) = zip (map nat_str [0..<length s]) (map (\<lambda>c. JStr [c]) s)"
| "object_entries _ = []"

text \<open>\<open>k in v\<close> for the keys the registry asks about (\<open>env\<close>, \<open>effect\<close>), which
  no prototype defines, and property access \<open>v[k]\<close>.\<close>

definition js_has_key :: "string \<Rightarrow> jsval \<Rightarrow> bool" where
  "js_has_key k v \<longleftrightarrow> map_of (object_entries v) k \<noteq> None"

definition js_get :: "jsval \<Rightarrow> string \<Rightarrow> jsval" where
  "js_get v k = (case map_of (object_entries v) k of Some x \<Rightarrow> x | None \<Rightarrow> JUndefined)"

text \<open>Truthiness.\<close>

fun js_truthy :: "jsval \<Rightarrow> bool" where
  "js_truthy JUndefined = False"
| "js_truthy JNull = False"
| "js_truthy (JBool b) = b"
| "js_truthy (JNum n) = (n \<noteq> 0)"
| "js_truthy (JStr s) = (s \<noteq> [])"
| "js_truthy _ = True"

subsection \<open>Validating a meta value\<close>

text \<open>The value of \<open>env\<close> as an environment, for the four values users may set.\<close>

definition parse_config_env :: "string \<Rightarrow> config_env option" where
  "parse_config_env s =
     (if s = ''client-only'' then Some ClientOnly
      else if s = ''server-only'' then Some ServerOnly
      else if s = ''server-and-client'' then Some ServerAndClient
      else if s = ''config-only'' then Some ConfigOnly
      else None)"

text \<open>The checks of \<open>assertMetaValue\<close> on one entry \<open>meta[configName] = def\<close>, in
  the code's order: an object; \<open>env\<close> present, a string, one of the four values;
  \<open>effect\<close>, when present, a function on a \<open>config-only\<close> config.\<close>

definition assert_meta_entry :: "config_name \<Rightarrow> jsval \<Rightarrow> error + unit" where
  "assert_meta_entry cn def =
     (if \<not> is_object def then Inl (ErrMetaDefNotObject cn)
      else if \<not> js_has_key ''env'' def then Inl (ErrMetaEnvMissing cn)
      else case js_get def ''env'' of
        JStr e \<Rightarrow>
          (case parse_config_env e of
             None \<Rightarrow> Inl (ErrMetaEnvValue cn e)
           | Some env \<Rightarrow>
               if js_has_key ''effect'' def then
                 (case js_get def ''effect'' of
                    JFun _ \<Rightarrow> if env = ConfigOnly then Inr () else Inl (ErrMetaEffectEnv cn env)
                  | _ \<Rightarrow> Inl (ErrMetaEffectType cn))
               else Inr ())
      | _ \<Rightarrow> Inl (ErrMetaEnvType cn))"

text \<open>\<open>assertMetaValue\<close>: the value is an object and every entry passes; the
  validated entries are returned.\<close>

definition assert_meta_value :: "jsval \<Rightarrow> error + (config_name \<times> jsval) list" where
  "assert_meta_value meta =
     (if \<not> is_object meta then Inl ErrMetaNotObject
      else case map_err (\<lambda>(cn, def). assert_meta_entry cn def) (object_entries meta) of
        Inl e \<Rightarrow> Inl e
      | Inr _ \<Rightarrow> Inr (object_entries meta))"

subsection \<open>Assembling the definitions\<close>

text \<open>\<open>{...configDefinitions[configName], ...configDefinition}\<close> on the fields of a
  definition: a field the user definition sets replaces the existing one; a new
  config starts from no field set (not cumulative, no effect, nothing computed).
  \<open>assertMetaValue\<close> has already checked \<open>env\<close> and \<open>effect\<close>; \<open>_computed\<close> is read
  as a function, any other value of it as absent (a truthy non-function would make
  the later call throw), and \<open>cumulative\<close> and \<open>_valueIsFilePath\<close> by truthiness.\<close>

definition merge_config_def :: "config_def option \<Rightarrow> jsval \<Rightarrow> config_def" where
  "merge_config_def old def =
     (let base = (case old of
                    Some d \<Rightarrow> d
                  | None \<Rightarrow> \<lparr>cd_env = ClientOnly, cd_cumulative = False, cd_effect = None,
                             cd_computed = None, cd_value_is_file_path = False\<rparr>);
          base1 = (case js_get def ''env'' of
                     JStr e \<Rightarrow> (case parse_config_env e of Some env \<Rightarrow> base\<lparr>cd_env := env\<rparr> | None \<Rightarrow> base)
                   | _ \<Rightarrow> base);
          base2 = (if js_has_key ''cumulative'' def
                   then base1\<lparr>cd_cumulative := js_truthy (js_get def ''cumulative'')\<rparr> else base1);
          base3 = (if js_has_key ''_computed'' def
                   then base2\<lparr>cd_computed := (case js_get def ''_computed'' of JFun f \<Rightarrow> Some f | _ \<Rightarrow> None)\<rparr>
                   else base2);
          base4 = (if js_has_key ''_valueIsFilePath'' def
                   then base3\<lparr>cd_value_is_file_path := js_truthy (js_get def ''_valueIsFilePath'')\<rparr> else base3)
      in if js_has_key ''effect'' def
         then (case js_get def ''effect'' of JFun f \<Rightarrow> base4\<lparr>cd_effect := Some f\<rparr> | _ \<Rightarrow> base4)
         else base4)"

text \<open>One interface file's contribution: its \<open>meta\<close> config, when it defines one,
  validated and merged entry by entry.\<close>

definition apply_meta_of_file :: "interface_file \<Rightarrow> config_defs \<Rightarrow> error + config_defs" where
  "apply_meta_of_file f defs =
     (case map_of (if_config_map f) ''meta'' of
        None \<Rightarrow> Inr defs
      | Some conf \<Rightarrow>
          (case assert_meta_value (case conf of Some v \<Rightarrow> v | None \<Rightarrow> JUndefined) of
             Inl e \<Rightarrow> Inl e
           | Inr entries \<Rightarrow>
               Inr (fold (\<lambda>(cn, def) ds. AList.update cn (merge_config_def (map_of ds cn) def) ds)
                      entries defs)))"

fun apply_meta_of_files :: "interface_file list \<Rightarrow> config_defs \<Rightarrow> error + config_defs" where
  "apply_meta_of_files [] defs = Inr defs"
| "apply_meta_of_files (f # fs) defs =
     (case apply_meta_of_file f defs of Inl e \<Rightarrow> Inl e | Inr defs' \<Rightarrow> apply_meta_of_files fs defs')"

text \<open>\<open>getConfigDefinitions\<close>: starting from the built-ins, the files of the
  relevant locations in their order (most specific location first).\<close>

definition get_config_definitions ::
  "config_defs \<Rightarrow> (location_id \<times> interface_file list) list \<Rightarrow> error + config_defs" where
  "get_config_definitions builtins relevant = apply_meta_of_files (concat (map snd relevant)) builtins"

text \<open>The config names the \<open>meta\<close> of an interface file declares.\<close>

definition meta_names :: "interface_file \<Rightarrow> config_name list" where
  "meta_names f = (case map_of (if_config_map f) ''meta'' of
                     Some (Some m) \<Rightarrow> map fst (object_entries m) | _ \<Rightarrow> [])"

text \<open>Inputs for the witnesses: a \<open>+config.js\<close> whose \<open>meta\<close> sets the
  environment of one config, and built-ins with a \<open>config-only\<close> config carrying
  an effect.\<close>

definition example_meta_file :: "config_name \<Rightarrow> string \<Rightarrow> interface_file" where
  "example_meta_file cn e =
     \<lparr>if_path = \<lparr>fp_absolute = Some ''/app/pages/+config.js'', fp_relative = Some ''/pages/+config.js'',
                 fp_import_abs = None\<rparr>,
      if_config_map = [(''meta'', Some (JObj [(cn, JObj [(''env'', JStr e)])]))],
      if_kind = ConfigFileKind [] False\<rparr>"

definition example_effect_builtins :: config_defs where
  "example_effect_builtins =
     [(''x'', \<lparr>cd_env = ConfigOnly, cd_cumulative = False, cd_effect = Some 0, cd_computed = None,
              cd_value_is_file_path = False\<rparr>)]"

lemmas registry_example_defs = example_meta_file_def example_effect_builtins_def

subsection \<open>Lemmas\<close>

lemma js_get_has_key: "js_get d k \<noteq> JUndefined \<Longrightarrow> js_has_key k d"
  by (auto simp: js_get_def js_has_key_def split: option.splits)

lemma assert_meta_value_Inr:
  assumes "assert_meta_value m = Inr es"
  shows "es = object_entries m" "is_object m" "\<And>cn d. (cn, d) \<in> set es \<Longrightarrow> assert_meta_entry cn d = Inr ()"
proof -
  show e: "es = object_entries m" "is_object m" using assms
    by (auto simp: assert_meta_value_def split: if_splits sum.splits)
  fix cn d assume "(cn, d) \<in> set es"
  moreover obtain us where "map_err (\<lambda>(cn, def). assert_meta_entry cn def) (object_entries m) = Inr us"
    using assms by (auto simp: assert_meta_value_def split: if_splits sum.splits)
  ultimately show "assert_meta_entry cn d = Inr ()"
    using map_err_Inr_elem e(1) by fastforce
qed

lemma assert_meta_entry_Inr:
  "assert_meta_entry cn d = Inr () \<longleftrightarrow>
     is_object d \<and> (\<exists>e env. js_get d ''env'' = JStr e \<and> parse_config_env e = Some env
       \<and> (js_has_key ''effect'' d \<longrightarrow> (\<exists>f. js_get d ''effect'' = JFun f) \<and> env = ConfigOnly))"
  by (auto simp: assert_meta_entry_def js_get_has_key split: jsval.splits option.splits if_splits)

lemma apply_meta_of_files_append:
  "apply_meta_of_files (fs @ gs) defs =
     (case apply_meta_of_files fs defs of Inl e \<Rightarrow> Inl e | Inr defs' \<Rightarrow> apply_meta_of_files gs defs')"
  by (induction fs arbitrary: defs) (auto split: sum.splits)

lemma fold_update_keys:
  "fst ` set (fold (\<lambda>(cn, def) ds. AList.update cn (g ds cn def) ds) es defs) = fst ` set defs \<union> fst ` set es"
proof (induction es arbitrary: defs)
  case (Cons x es)
  obtain a b where x: "x = (a, b)" by fastforce
  show ?case unfolding x using Cons.IH[of "AList.update a (g defs a b) defs"] by (auto simp: dom_update)
qed simp

lemma apply_meta_of_file_keys:
  assumes "apply_meta_of_file f defs = Inr defs'"
  shows "fst ` set defs' = fst ` set defs \<union> set (meta_names f)"
proof (cases "map_of (if_config_map f) ''meta''")
  case None
  then show ?thesis using assms by (simp add: apply_meta_of_file_def meta_names_def)
next
  case (Some conf)
  then obtain m where c: "conf = Some m"
    using assms by (cases conf) (simp_all add: apply_meta_of_file_def assert_meta_value_def)
  then obtain es where "assert_meta_value m = Inr es"
    and "defs' = fold (\<lambda>(cn, def) ds. AList.update cn (merge_config_def (map_of ds cn) def) ds) es defs"
    using assms Some by (auto simp: apply_meta_of_file_def split: sum.splits)
  then show ?thesis using Some c assert_meta_value_Inr(1)
    by (simp add: fold_update_keys meta_names_def)
qed

lemma apply_meta_of_files_keys:
  "apply_meta_of_files fs defs = Inr defs' \<Longrightarrow>
     fst ` set defs' = fst ` set defs \<union> set (concat (map meta_names fs))"
proof (induction fs arbitrary: defs)
  case (Cons f fs)
  then obtain d1 where "apply_meta_of_file f defs = Inr d1" "apply_meta_of_files fs d1 = Inr defs'"
    by (auto split: sum.splits)
  then show ?case using Cons.IH apply_meta_of_file_keys by auto
qed simp

lemma fold_update_other:
  "cn \<notin> fst ` set es \<Longrightarrow>
     map_of (fold (\<lambda>(k, v) ds. AList.update k (h (map_of ds k) v) ds) es ds) cn = map_of ds cn"
  by (induction es arbitrary: ds) auto

lemma fold_update_distinct:
  "distinct (map fst es) \<Longrightarrow> map_of es cn = Some v \<Longrightarrow>
     map_of (fold (\<lambda>(k, v) ds. AList.update k (h (map_of ds k) v) ds) es ds) cn = Some (h (map_of ds cn) v)"
proof (induction es arbitrary: ds)
  case (Cons kw es)
  obtain k w where kw: "kw = (k, w)" by fastforce
  show ?case
  proof (cases "k = cn")
    case True
    then have "cn \<notin> fst ` set es" "w = v" using Cons.prems kw by auto
    then show ?thesis using True kw fold_update_other[of cn es h] by simp
  next
    case False
    then show ?thesis using Cons kw by simp
  qed
qed simp

lemma merge_config_def_env:
  "js_get d ''env'' = JStr e \<Longrightarrow> parse_config_env e = Some env \<Longrightarrow> cd_env (merge_config_def old d) = env"
  by (simp add: merge_config_def_def Let_def split: jsval.splits)

lemma apply_meta_of_file_other:
  "apply_meta_of_file f ds = Inr ds' \<Longrightarrow> cn \<notin> set (meta_names f) \<Longrightarrow> map_of ds' cn = map_of ds cn"
  by (auto simp: apply_meta_of_file_def meta_names_def fold_update_other assert_meta_value_def
           split: option.splits sum.splits if_splits)

lemma apply_meta_of_files_other:
  "apply_meta_of_files fs ds = Inr ds' \<Longrightarrow> \<forall>g\<in>set fs. cn \<notin> set (meta_names g) \<Longrightarrow> map_of ds' cn = map_of ds cn"
  by (induction fs arbitrary: ds) (auto split: sum.splits dest!: apply_meta_of_file_other)

subsection \<open>Properties of the registry\<close>

text \<open>C31. Validated definitions are well formed (spec 4.1): every entry that
  \<open>assertMetaValue\<close> accepts sets \<open>env\<close> to one of the four user environments, and
  sets \<open>effect\<close>, if at all, to a function on a \<open>config-only\<close> config.\<close>

theorem assert_meta_value_sound:
  assumes "assert_meta_value m = Inr es" and "(cn, d) \<in> set es"
  shows "\<exists>e env. js_get d ''env'' = JStr e \<and> parse_config_env e = Some env
           \<and> (js_has_key ''effect'' d \<longrightarrow> (\<exists>f. js_get d ''effect'' = JFun f) \<and> env = ConfigOnly)"
  using assert_meta_value_Inr(3)[OF assms] by (simp add: assert_meta_entry_Inr)

theorem assert_meta_value_sound_witness:
  "\<exists>e env. js_get (JObj [(''env'', JStr ''config-only''), (''effect'', JFun 0)]) ''env'' = JStr e
     \<and> parse_config_env e = Some env
     \<and> (js_has_key ''effect'' (JObj [(''env'', JStr ''config-only''), (''effect'', JFun 0)])
        \<longrightarrow> (\<exists>f. js_get (JObj [(''env'', JStr ''config-only''), (''effect'', JFun 0)]) ''effect'' = JFun f)
           \<and> env = ConfigOnly)"
proof -
  let ?d = "JObj [(''env'', JStr ''config-only''), (''effect'', JFun 0)]"
  have ok: "assert_meta_value (JObj [(''x'', ?d)]) = Inr [(''x'', ?d)]"
    by (simp add: assert_meta_value_def assert_meta_entry_def js_has_key_def js_get_def parse_config_env_def)
  show ?thesis using assert_meta_value_sound[OF ok] by simp
qed

text \<open>An effect off \<open>config-only\<close> is a usage error (spec 4.1): a definition
  with a valid \<open>env\<close> other than \<open>config-only\<close> and a function \<open>effect\<close> is rejected
  with the error that names the config and its environment.\<close>

theorem assert_meta_value_rejects_effect:
  assumes "is_object d" "js_get d ''env'' = JStr e" "parse_config_env e = Some env" "env \<noteq> ConfigOnly"
    and "js_get d ''effect'' = JFun f"
  shows "assert_meta_value (JObj [(cn, d)]) = Inl (ErrMetaEffectEnv cn env)"
  using assms js_get_has_key[of d "''env''"] js_get_has_key[of d "''effect''"]
  by (simp add: assert_meta_value_def assert_meta_entry_def)

theorem assert_meta_value_rejects_effect_witness:
  "assert_meta_value (JObj [(''x'', JObj [(''env'', JStr ''server-only''), (''effect'', JFun 0)])])
     = Inl (ErrMetaEffectEnv ''x'' ServerOnly)"
  by (rule assert_meta_value_rejects_effect[where e = "''server-only''" and f = 0])
    (simp_all add: js_get_def parse_config_env_def)

text \<open>The registry holds the built-ins and every declared name: the config
  names \<open>getConfigDefinitions\<close> returns are those of the built-in definitions and
  those declared in the \<open>meta\<close> of any interface file of a relevant location.\<close>

theorem get_config_definitions_names:
  assumes "get_config_definitions builtins relevant = Inr defs"
  shows "fst ` set defs = fst ` set builtins \<union> (\<Union>(l, fs) \<in> set relevant. \<Union>f \<in> set fs. set (meta_names f))"
proof -
  have "set (concat (map meta_names (concat (map snd relevant))))
      = (\<Union>(l, fs) \<in> set relevant. \<Union>f \<in> set fs. set (meta_names f))"
    by (simp add: split_beta)
  then show ?thesis using apply_meta_of_files_keys[OF assms[unfolded get_config_definitions_def]] by simp
qed

theorem get_config_definitions_names_witness:
  "\<exists>defs. get_config_definitions example_effect_builtins [([''pages''], [example_meta_file ''y'' ''client-only''])]
            = Inr defs \<and> fst ` set defs = {''x'', ''y''}"
proof -
  obtain defs where ok: "get_config_definitions example_effect_builtins
      [([''pages''], [example_meta_file ''y'' ''client-only''])] = Inr defs"
    by (simp add: registry_example_defs get_config_definitions_def apply_meta_of_file_def
        assert_meta_value_def assert_meta_entry_def js_has_key_def js_get_def parse_config_env_def)
  have "fst ` set defs = {''x''} \<union> {''y''}"
    using get_config_definitions_names[OF ok] by (simp add: registry_example_defs meta_names_def)
  then show ?thesis using ok by auto
qed

text \<open>Last writer wins (spec 4.1): the environment of a config after
  \<open>getConfigDefinitions\<close> is the one set by the last file, in processing order,
  whose \<open>meta\<close> declares it.\<close>

theorem meta_last_writer_env:
  assumes ok: "apply_meta_of_files (xs @ f # ys) defs = Inr defs'"
    and later: "\<forall>g\<in>set ys. cn \<notin> set (meta_names g)"
    and meta: "map_of (if_config_map f) ''meta'' = Some (Some m)" "distinct (map fst (object_entries m))"
    and entry: "map_of (object_entries m) cn = Some d" "js_get d ''env'' = JStr e" "parse_config_env e = Some env"
  shows "\<exists>cd. map_of defs' cn = Some cd \<and> cd_env cd = env"
proof -
  obtain d1 d2 where s1: "apply_meta_of_files xs defs = Inr d1" and s2: "apply_meta_of_file f d1 = Inr d2"
    and s3: "apply_meta_of_files ys d2 = Inr defs'"
    using ok by (auto simp: apply_meta_of_files_append split: sum.splits)
  obtain es where es: "assert_meta_value m = Inr es"
    and d2: "d2 = fold (\<lambda>(cn, def) ds. AList.update cn (merge_config_def (map_of ds cn) def) ds) es d1"
    using s2 meta(1) by (auto simp: apply_meta_of_file_def split: sum.splits)
  have "map_of d2 cn = Some (merge_config_def (map_of d1 cn) d)"
    using d2 assert_meta_value_Inr(1)[OF es] meta(2) entry(1) by (simp add: fold_update_distinct)
  then show ?thesis using apply_meta_of_files_other[OF s3 later] merge_config_def_env[OF entry(2,3)] by simp
qed

theorem meta_last_writer_env_witness:
  "\<exists>defs. apply_meta_of_files [example_meta_file ''x'' ''config-only'', example_meta_file ''x'' ''client-only''] []
            = Inr defs \<and> (\<exists>cd. map_of defs ''x'' = Some cd \<and> cd_env cd = ClientOnly)"
proof -
  obtain defs where ok: "apply_meta_of_files ([example_meta_file ''x'' ''config-only''] @
      example_meta_file ''x'' ''client-only'' # []) [] = Inr defs"
    by (simp add: registry_example_defs apply_meta_of_file_def
        assert_meta_value_def assert_meta_entry_def js_has_key_def js_get_def parse_config_env_def)
  have "\<exists>cd. map_of defs ''x'' = Some cd \<and> cd_env cd = ClientOnly"
    by (rule meta_last_writer_env[OF ok, where m = "JObj [(''x'', JObj [(''env'', JStr ''client-only'')])]"
          and d = "JObj [(''env'', JStr ''client-only'')]" and e = "''client-only''"]) (simp_all add: registry_example_defs js_get_def parse_config_env_def)
  then show ?thesis using ok by auto
qed

text \<open>C36. The shallow merge can pair an effect with another environment: a
  \<open>meta\<close> that only sets \<open>env\<close> of a built-in config carrying an \<open>effect\<close> passes
  \<open>assertMetaValue\<close> for every valid environment, and the merged definition keeps
  the effect with the new environment; for an environment other than
  \<open>config-only\<close> this is the pairing spec 4.1 calls a usage error.\<close>

theorem meta_merge_keeps_effect_off_config_only:
  assumes "map_of builtins cn = Some bd" "cd_effect bd = Some fn" "parse_config_env e = Some env"
    and "map_of (if_config_map f) ''meta'' = Some (Some (JObj [(cn, JObj [(''env'', JStr e)])]))"
  shows "\<exists>defs cd. get_config_definitions builtins [(l, [f])] = Inr defs
     \<and> map_of defs cn = Some cd \<and> cd_env cd = env \<and> cd_effect cd = Some fn"
  using assms
  by (simp add: get_config_definitions_def apply_meta_of_file_def merge_config_def_def
      assert_meta_value_def assert_meta_entry_def js_has_key_def js_get_def)

theorem meta_merge_keeps_effect_off_config_only_witness:
  "\<exists>defs cd. get_config_definitions example_effect_builtins [([''pages''], [example_meta_file ''x'' ''client-only''])]
     = Inr defs \<and> map_of defs ''x'' = Some cd \<and> cd_env cd = ClientOnly \<and> cd_effect cd = Some 0"
  by (rule meta_merge_keeps_effect_off_config_only[where bd = "the (map_of example_effect_builtins ''x'')"])
    (simp_all add: registry_example_defs parse_config_env_def)

end
