(* ===== verification/Cumulative.thy ===== *)
theory Cumulative
  imports Model
begin

text \<open>
  The Cumulative Merger and the computation of a page's final values
  (\<open>getConfigValues\<close>, \<open>mergeCumulative\<close>, \<open>getDefinedAtFile\<close> of
  \<open>getVikeConfig.ts\<close>). A non-cumulative config takes the value of its first source;
  a cumulative one merges the arrays or the sets of all its sources, in source order.
  \<open>mergeCumulativeValues\<close> (utils) and the serialisability check of
  \<open>getConfigValueSerialized\<close> are not among the sources and are modelled from the
  specification. Set elements are compared structurally: JavaScript compares objects
  in a \<open>Set\<close> by reference, primitives by value.
\<close>

subsection \<open>Resolved values\<close>

text \<open>\<open>DefinedAt\<close>: computed, one file (path to show and export path), or the list
  of files of a cumulative value.\<close>

datatype defined_at =
    DefinedAtComputed
  | DefinedAtFile "string option" "string list"
  | DefinedAtCumulative "(string option \<times> string list) list"

record config_value =
  cv_value :: jsval
  cv_defined_at :: defined_at

text \<open>\<open>ConfigValues\<close>: an object keyed by config name, in insertion order.\<close>

type_synonym config_values = "(config_name \<times> config_value) list"

subsection \<open>Where a value is defined\<close>

definition get_defined_at_file_path_to_show_to_user :: "defined_at_info \<Rightarrow> string option" where
  "get_defined_at_file_path_to_show_to_user i =
     (case fp_relative (dai_path i) of Some p \<Rightarrow> Some p | None \<Rightarrow> fp_import_abs (dai_path i))"

text \<open>\<open>getDefinedAtFile\<close>: asserts the source is not computed (a computed source
  has no \<open>definedAtInfo\<close>).\<close>

definition get_defined_at_file :: "config_value_source \<Rightarrow> error + (string option \<times> string list)" where
  "get_defined_at_file s =
     (if cvs_computed s then Inl InvariantViolation
      else case cvs_defined_at s of
             None \<Rightarrow> Inl InvariantViolation
           | Some i \<Rightarrow> Inr (get_defined_at_file_path_to_show_to_user i, dai_export_path i))"

subsection \<open>Merging cumulative values\<close>

text \<open>The serialisability check of \<open>getConfigValueSerialized\<close>: functions cannot be
  serialised.\<close>

fun is_serializable :: "jsval \<Rightarrow> bool" where
  "is_serializable (JFun _) = False"
| "is_serializable (JArr xs) = list_all is_serializable xs"
| "is_serializable (JSet xs) = list_all is_serializable xs"
| "is_serializable (JObj kvs) = list_all (\<lambda>kv. is_serializable (snd kv)) kvs"
| "is_serializable _ = True"

text \<open>\<open>mergeCumulativeValues\<close>: arrays are concatenated; sets are united, each
  element kept at its first occurrence, as \<open>new Set([...a, ...b])\<close> does.\<close>

definition union_first :: "'a list \<Rightarrow> 'a list" where
  "union_first xs = rev (remdups (rev xs))"

definition merge_cumulative_arrays :: "jsval list list \<Rightarrow> jsval" where
  "merge_cumulative_arrays xss = JArr (concat xss)"

definition merge_cumulative_sets :: "jsval list list \<Rightarrow> jsval" where
  "merge_cumulative_sets xss = JSet (union_first (concat xss))"

text \<open>
  The loop of \<open>mergeCumulative\<close> over the sources, with its state \<open>valuesArr\<close>,
  \<open>valuesSet\<close> and \<open>configValueSourcePrevious\<close>: each source must carry its value
  (only config files may define a cumulative config), the value must be serialisable
  and an array or a set, and \<open>assertNoMixing\<close> fails at the first value of the other
  kind, naming that source and the previous one.
\<close>

fun merge_cumulative_loop ::
  "config_name \<Rightarrow> config_value_source list \<Rightarrow> jsval list list \<Rightarrow> jsval list list
   \<Rightarrow> config_value_source option \<Rightarrow> error + (jsval list list \<times> jsval list list)" where
  "merge_cumulative_loop cn [] arrs sets prev = Inr (arrs, sets)"
| "merge_cumulative_loop cn (s # ss) arrs sets prev =
     (if cvs_computed s then Inl InvariantViolation
      else case cvs_value s of
        None \<Rightarrow> Inl (ErrCumulativeNotConfigFile cn (cvs_defined_at s))
      | Some v \<Rightarrow>
          if \<not> is_serializable v then Inl (ErrNotSerializable cn)
          else case v of
            JArr xs \<Rightarrow>
              (if sets = [] then merge_cumulative_loop cn ss (arrs @ [xs]) sets (Some s)
               else case prev of
                 None \<Rightarrow> Inl InvariantViolation
               | Some p \<Rightarrow> Inl (ErrCumulativeMix cn (cvs_defined_at s) (cvs_defined_at p)))
          | JSet xs \<Rightarrow>
              (if arrs = [] then merge_cumulative_loop cn ss arrs (sets @ [xs]) (Some s)
               else case prev of
                 None \<Rightarrow> Inl InvariantViolation
               | Some p \<Rightarrow> Inl (ErrCumulativeMix cn (cvs_defined_at s) (cvs_defined_at p)))
          | _ \<Rightarrow> Inl (ErrCumulativeNotContainer cn (cvs_defined_at s)))"

definition merge_cumulative :: "config_name \<Rightarrow> config_value_source list \<Rightarrow> error + jsval" where
  "merge_cumulative cn srcs =
     (case merge_cumulative_loop cn srcs [] [] None of
        Inl e \<Rightarrow> Inl e
      | Inr (arrs, sets) \<Rightarrow>
          if arrs \<noteq> [] then (if sets = [] then Inr (merge_cumulative_arrays arrs) else Inl InvariantViolation)
          else if sets \<noteq> [] then Inr (merge_cumulative_sets sets)
          else Inl InvariantViolation)"

subsection \<open>Final values\<close>

text \<open>One entry of \<open>getConfigValues\<close>: \<open>None\<close> when a non-cumulative config's
  first source has no value (it is imported at runtime), so no entry is written.\<close>

definition get_config_value ::
  "config_defs \<Rightarrow> config_name \<Rightarrow> config_value_source list \<Rightarrow> error + config_value option" where
  "get_config_value defs cn srcs =
     (case map_of defs cn of
        None \<Rightarrow> Inl InvariantViolation
      | Some d \<Rightarrow>
          if \<not> cd_cumulative d then
            (case srcs of
               [] \<Rightarrow> Inl InvariantViolation
             | s # _ \<Rightarrow>
                 (case cvs_value s of
                    None \<Rightarrow> Inr None
                  | Some v \<Rightarrow>
                      if cvs_computed s then Inr (Some \<lparr>cv_value = v, cv_defined_at = DefinedAtComputed\<rparr>)
                      else (case get_defined_at_file s of
                              Inl e \<Rightarrow> Inl e
                            | Inr (p, ep) \<Rightarrow> Inr (Some \<lparr>cv_value = v, cv_defined_at = DefinedAtFile p ep\<rparr>))))
          else
            (case merge_cumulative cn srcs of
               Inl e \<Rightarrow> Inl e
             | Inr v \<Rightarrow>
                 (case map_err get_defined_at_file srcs of
                    Inl e \<Rightarrow> Inl e
                  | Inr files \<Rightarrow> Inr (Some \<lparr>cv_value = v, cv_defined_at = DefinedAtCumulative files\<rparr>))))"

text \<open>\<open>getConfigValues\<close>: the entries in the order of \<open>configValueSources\<close>.\<close>

fun get_config_values_acc ::
  "config_defs \<Rightarrow> config_value_sources \<Rightarrow> config_values \<Rightarrow> error + config_values" where
  "get_config_values_acc defs [] acc = Inr acc"
| "get_config_values_acc defs ((cn, srcs) # rest) acc =
     (case get_config_value defs cn srcs of
        Inl e \<Rightarrow> Inl e
      | Inr None \<Rightarrow> get_config_values_acc defs rest acc
      | Inr (Some cv) \<Rightarrow> get_config_values_acc defs rest (AList.update cn cv acc))"

definition get_config_values :: "config_value_sources \<Rightarrow> config_defs \<Rightarrow> error + config_values" where
  "get_config_values cvss defs = get_config_values_acc defs cvss []"

subsection \<open>Classes of cumulative sources\<close>

definition container_elems :: "jsval option \<Rightarrow> jsval list" where
  "container_elems v = (case v of Some (JArr xs) \<Rightarrow> xs | Some (JSet xs) \<Rightarrow> xs | _ \<Rightarrow> [])"

definition cumulative_array_source :: "config_value_source \<Rightarrow> bool" where
  "cumulative_array_source s \<longleftrightarrow>
     \<not> cvs_computed s \<and> (case cvs_value s of Some (JArr xs) \<Rightarrow> is_serializable (JArr xs) | _ \<Rightarrow> False)"

definition cumulative_set_source :: "config_value_source \<Rightarrow> bool" where
  "cumulative_set_source s \<longleftrightarrow>
     \<not> cvs_computed s \<and> (case cvs_value s of Some (JSet xs) \<Rightarrow> is_serializable (JSet xs) | _ \<Rightarrow> False)"

subsection \<open>Sources for the witnesses\<close>

definition example_cumulative_source :: "jsval \<Rightarrow> config_value_source" where
  "example_cumulative_source v =
     \<lparr>cvs_value = Some v, cvs_value_is_file_path = False, cvs_env = ServerOnly, cvs_imported = False,
      cvs_computed = False,
      cvs_defined_at = Some \<lparr>dai_path = \<lparr>fp_absolute = None, fp_relative = Some ''/pages/+config.js'',
                                          fp_import_abs = None\<rparr>,
                              dai_export_path = [''default'', ''passToClient'']\<rparr>\<rparr>"

definition example_cumulative_def :: config_def where
  "example_cumulative_def =
     \<lparr>cd_env = ServerOnly, cd_cumulative = True, cd_effect = None, cd_computed = None,
      cd_value_is_file_path = False\<rparr>"

subsection \<open>The merge loop\<close>

lemma merge_loop_arrays:
  "list_all cumulative_array_source ss \<Longrightarrow>
   merge_cumulative_loop cn ss arrs [] prev = Inr (arrs @ map (\<lambda>s. container_elems (cvs_value s)) ss, [])"
proof (induction ss arbitrary: arrs prev)
  case Nil
  then show ?case by simp
next
  case (Cons s ss)
  then show ?case
    by (auto simp: cumulative_array_source_def container_elems_def split: option.splits jsval.splits)
qed

lemma merge_loop_sets:
  "list_all cumulative_set_source ss \<Longrightarrow>
   merge_cumulative_loop cn ss [] sets prev = Inr ([], sets @ map (\<lambda>s. container_elems (cvs_value s)) ss)"
proof (induction ss arbitrary: sets prev)
  case Nil
  then show ?case by simp
next
  case (Cons s ss)
  then show ?case
    by (auto simp: cumulative_set_source_def container_elems_def split: option.splits jsval.splits)
qed

lemma array_source_not_set_source: "cumulative_array_source s \<Longrightarrow> \<not> cumulative_set_source s"
  by (auto simp: cumulative_array_source_def cumulative_set_source_def split: option.splits jsval.splits)

lemma merge_loop_mix:
  assumes "list_all (\<lambda>s. cumulative_array_source s \<or> cumulative_set_source s) ss"
    and "arrs \<noteq> [] \<or> (\<exists>s\<in>set ss. cumulative_array_source s)"
    and "sets \<noteq> [] \<or> (\<exists>s\<in>set ss. cumulative_set_source s)"
    and "arrs = [] \<or> sets = []" and "arrs \<noteq> [] \<or> sets \<noteq> [] \<longrightarrow> prev \<noteq> None"
  shows "\<exists>a b. merge_cumulative_loop cn ss arrs sets prev = Inl (ErrCumulativeMix cn a b)"
  using assms
proof (induction ss arbitrary: arrs sets prev)
  case Nil
  then show ?case by simp
next
  case (Cons s ss)
  show ?case
  proof (cases "cumulative_array_source s")
    case True
    then obtain xs where v: "cvs_value s = Some (JArr xs)" "\<not> cvs_computed s" "is_serializable (JArr xs)"
      by (auto simp: cumulative_array_source_def split: option.splits jsval.splits)
    show ?thesis
    proof (cases "sets = []")
      case True
      have "\<exists>a b. merge_cumulative_loop cn ss (arrs @ [xs]) sets (Some s) = Inl (ErrCumulativeMix cn a b)"
        using Cons.prems True \<open>cumulative_array_source s\<close> array_source_not_set_source
        by (intro Cons.IH) auto
      then show ?thesis using v True by simp
    next
      case False
      then have "prev \<noteq> None" using Cons.prems by auto
      then show ?thesis using v False by auto
    qed
  next
    case False
    then have set_src: "cumulative_set_source s" using Cons.prems(1) by simp
    then obtain xs where v: "cvs_value s = Some (JSet xs)" "\<not> cvs_computed s" "is_serializable (JSet xs)"
      by (auto simp: cumulative_set_source_def split: option.splits jsval.splits)
    show ?thesis
    proof (cases "arrs = []")
      case True
      have "\<exists>a b. merge_cumulative_loop cn ss arrs (sets @ [xs]) (Some s) = Inl (ErrCumulativeMix cn a b)"
        using Cons.prems True False array_source_not_set_source by (intro Cons.IH) auto
      then show ?thesis using v True by simp
    next
      case False
      then have "prev \<noteq> None" using Cons.prems by auto
      then show ?thesis using v False by auto
    qed
  qed
qed

lemma set_union_first [simp]: "set (union_first xs) = set xs"
  by (simp add: union_first_def)

lemma distinct_union_first: "distinct (union_first xs)"
  by (simp add: union_first_def)

lemma get_config_values_acc_other:
  "get_config_values_acc defs cvss acc = Inr vals \<Longrightarrow> cn \<notin> fst ` set cvss \<Longrightarrow> map_of vals cn = map_of acc cn"
proof (induction defs cvss acc rule: get_config_values_acc.induct)
  case (1 defs acc)
  then show ?case by simp
next
  case (2 defs cn' srcs rest acc)
  then show ?case by (auto split: sum.splits option.splits)
qed

lemma get_config_values_acc_entry:
  assumes "get_config_values_acc defs cvss acc = Inr vals" and "distinct (map fst cvss)"
    and "(cn, srcs) \<in> set cvss"
  shows "\<exists>r. get_config_value defs cn srcs = Inr r \<and> map_of vals cn = (case r of None \<Rightarrow> map_of acc cn | Some cv \<Rightarrow> Some cv)"
  using assms
proof (induction defs cvss acc rule: get_config_values_acc.induct)
  case (1 defs acc)
  then show ?case by simp
next
  case (2 defs cn' srcs' rest acc)
  show ?case
  proof (cases "cn' = cn")
    case True
    then have srcs: "srcs' = srcs" using "2.prems"(2,3) by (auto simp: image_iff)
    have notin: "cn \<notin> fst ` set rest" using "2.prems"(2) True by simp
    show ?thesis
    proof (cases "get_config_value defs cn srcs")
      case (Inl e)
      then show ?thesis using "2.prems"(1) True srcs by simp
    next
      case (Inr r)
      then show ?thesis
        using "2.prems"(1) True srcs get_config_values_acc_other[OF _ notin]
        by (cases r) auto
    qed
  next
    case False
    then have "(cn, srcs) \<in> set rest" using "2.prems"(3) by auto
    moreover have "distinct (map fst rest)" using "2.prems"(2) by simp
    ultimately show ?thesis
      using "2.prems"(1) False "2.IH" by (auto split: sum.splits option.splits)
  qed
qed

lemma get_config_values_entry:
  assumes "get_config_values cvss defs = Inr vals" and "distinct (map fst cvss)"
    and "(cn, srcs) \<in> set cvss"
  shows "get_config_value defs cn srcs = Inr (map_of vals cn)"
  using get_config_values_acc_entry[OF assms[unfolded get_config_values_def]]
  by (auto split: option.splits)

lemma merge_loop_env:
  "merge_cumulative_loop cn (map (cvs_env_update g) ss) arrs sets (map_option (cvs_env_update g) prev)
   = merge_cumulative_loop cn ss arrs sets prev"
proof (induction ss arbitrary: arrs sets prev)
  case Nil
  then show ?case by simp
next
  case (Cons s ss)
  show ?case
    using Cons.IH[of _ _ "Some s"]
    by (auto split: option.splits jsval.splits)
qed

lemma get_defined_at_file_env [simp]: "get_defined_at_file (cvs_env_update g s) = get_defined_at_file s"
  by (simp add: get_defined_at_file_def)

lemma get_config_value_env:
  "get_config_value defs cn (map (cvs_env_update g) srcs) = get_config_value defs cn srcs"
proof -
  have m: "merge_cumulative cn (map (cvs_env_update g) srcs) = merge_cumulative cn srcs"
    using merge_loop_env[of cn g srcs "[]" "[]" None] by (simp add: merge_cumulative_def)
  have f: "map_err get_defined_at_file (map (cvs_env_update g) srcs) = map_err get_defined_at_file srcs"
    by (induction srcs) (auto split: sum.splits)
  show ?thesis
    unfolding get_config_value_def m f by (cases srcs) (auto split: option.splits)
qed

lemma get_config_values_env:
  "get_config_values (map (\<lambda>(n, ss). (n, map (cvs_env_update (g n)) ss)) cvss) defs = get_config_values cvss defs"
proof -
  have "get_config_values_acc defs (map (\<lambda>(n, ss). (n, map (cvs_env_update (g n)) ss)) cvss) acc
      = get_config_values_acc defs cvss acc" for acc
    by (induction cvss arbitrary: acc) (auto simp: get_config_value_env split: sum.splits option.splits)
  then show ?thesis by (simp add: get_config_values_def)
qed

lemma get_config_values_first_source:
  assumes "get_config_values cvss defs = Inr vals" and "distinct (map fst cvss)"
    and "(cn, s # rest) \<in> set cvss" and "map_of defs cn = Some d" and "\<not> cd_cumulative d"
    and "cvs_value s = Some v"
  shows "\<exists>da. map_of vals cn = Some \<lparr>cv_value = v, cv_defined_at = da\<rparr>"
proof -
  have e: "get_config_value defs cn (s # rest) = Inr (map_of vals cn)"
    by (rule get_config_values_entry[OF assms(1-3)])
  show ?thesis
  proof (cases "cvs_computed s")
    case True
    then have "map_of vals cn = Some \<lparr>cv_value = v, cv_defined_at = DefinedAtComputed\<rparr>"
      using e assms(4-6) by (simp add: get_config_value_def)
    then show ?thesis by blast
  next
    case False
    then obtain p ep where "get_defined_at_file s = Inr (p, ep)"
      and "map_of vals cn = Some \<lparr>cv_value = v, cv_defined_at = DefinedAtFile p ep\<rparr>"
      using e assms(4-6) by (auto simp: get_config_value_def split: sum.splits prod.splits)
    then show ?thesis by blast
  qed
qed


subsection \<open>Properties of the merger\<close>

text \<open>C7. Cumulative arrays (spec P4): when every source of a cumulative config
  carries a serialisable array, the merged value is the concatenation of the arrays in
  source order (most specific location first).\<close>

theorem merge_cumulative_concatenates_arrays:
  assumes "srcs \<noteq> []" and "list_all cumulative_array_source srcs"
  shows "merge_cumulative cn srcs = Inr (JArr (concat (map (\<lambda>s. container_elems (cvs_value s)) srcs)))"
  using assms merge_loop_arrays[OF assms(2), of cn "[]" None]
  by (simp add: merge_cumulative_def merge_cumulative_arrays_def)


theorem merge_cumulative_concatenates_arrays_witness:
  "merge_cumulative ''passToClient''
     [example_cumulative_source (JArr [JNum 1, JNum 2]), example_cumulative_source (JArr [JNum 3])]
   = Inr (JArr [JNum 1, JNum 2, JNum 3])"
proof -
  have "[example_cumulative_source (JArr [JNum 1, JNum 2]), example_cumulative_source (JArr [JNum 3])] \<noteq> []"
    "list_all cumulative_array_source
       [example_cumulative_source (JArr [JNum 1, JNum 2]), example_cumulative_source (JArr [JNum 3])]"
    by (simp_all add: example_cumulative_source_def cumulative_array_source_def)
  from merge_cumulative_concatenates_arrays [OF this, of "''passToClient''"] show ?thesis
    by (simp add: example_cumulative_source_def container_elems_def)
qed

text \<open>Cumulative sets (spec P4): when every source carries a serialisable set,
  the merged value is a set whose elements are those of all the sources, each once.\<close>

theorem merge_cumulative_unites_sets:
  assumes "srcs \<noteq> []" and "list_all cumulative_set_source srcs"
  shows "\<exists>ys. merge_cumulative cn srcs = Inr (JSet ys) \<and> distinct ys
           \<and> set ys = (\<Union>s\<in>set srcs. set (container_elems (cvs_value s)))"
  using assms merge_loop_sets[OF assms(2), of cn "[]" None]
  by (auto simp: merge_cumulative_def merge_cumulative_sets_def distinct_union_first)


theorem merge_cumulative_unites_sets_witness:
  "merge_cumulative ''passToClient''
     [example_cumulative_source (JSet [JStr ''a'', JStr ''b'']), example_cumulative_source (JSet [JStr ''b'', JStr ''c''])]
   = Inr (JSet [JStr ''a'', JStr ''b'', JStr ''c''])
   \<and> (\<exists>ys. merge_cumulative ''passToClient''
     [example_cumulative_source (JSet [JStr ''a'', JStr ''b'']), example_cumulative_source (JSet [JStr ''b'', JStr ''c''])]
       = Inr (JSet ys) \<and> distinct ys \<and> set ys = {JStr ''a'', JStr ''b'', JStr ''c''})"
proof -
  let ?srcs = "[example_cumulative_source (JSet [JStr ''a'', JStr ''b'']),
                example_cumulative_source (JSet [JStr ''b'', JStr ''c''])]"
  have h: "?srcs \<noteq> []" "list_all cumulative_set_source ?srcs"
    by (simp_all add: example_cumulative_source_def cumulative_set_source_def)
  have ex: "\<exists>ys. merge_cumulative ''passToClient'' ?srcs = Inr (JSet ys) \<and> distinct ys
           \<and> set ys = {JStr ''a'', JStr ''b'', JStr ''c''}"
    using merge_cumulative_unites_sets [OF h, of "''passToClient''"]
    by (auto simp: example_cumulative_source_def container_elems_def)
  have "merge_cumulative ''passToClient'' ?srcs = Inr (JSet [JStr ''a'', JStr ''b'', JStr ''c''])"
    by (simp add: merge_cumulative_def example_cumulative_source_def merge_cumulative_sets_def union_first_def)
  then show ?thesis using ex by blast
qed

text \<open>C8. Mixing arrays and sets is a usage error (spec P4): when the sources carry
  both an array and a set, \<open>mergeCumulative\<close> fails naming both sources.\<close>

theorem merge_cumulative_rejects_mixing:
  assumes "list_all (\<lambda>s. cumulative_array_source s \<or> cumulative_set_source s) srcs"
    and "\<exists>s\<in>set srcs. cumulative_array_source s" and "\<exists>s\<in>set srcs. cumulative_set_source s"
  shows "\<exists>a b. merge_cumulative cn srcs = Inl (ErrCumulativeMix cn a b)"
proof -
  obtain a b where "merge_cumulative_loop cn srcs [] [] None = Inl (ErrCumulativeMix cn a b)"
    using merge_loop_mix[OF assms(1), of "[]" "[]" None cn] assms(2,3) by auto
  then show ?thesis by (auto simp: merge_cumulative_def)
qed


theorem merge_cumulative_rejects_mixing_witness:
  "\<exists>a b. merge_cumulative ''passToClient''
     [example_cumulative_source (JArr [JNum 1]), example_cumulative_source (JSet [JNum 2])]
     = Inl (ErrCumulativeMix ''passToClient'' a b)"
proof -
  let ?srcs = "[example_cumulative_source (JArr [JNum 1]), example_cumulative_source (JSet [JNum 2])]"
  have "list_all (\<lambda>s. cumulative_array_source s \<or> cumulative_set_source s) ?srcs"
    "\<exists>s\<in>set ?srcs. cumulative_array_source s" "\<exists>s\<in>set ?srcs. cumulative_set_source s"
    by (simp_all add: example_cumulative_source_def cumulative_array_source_def cumulative_set_source_def)
  from merge_cumulative_rejects_mixing [OF this] show ?thesis .
qed

text \<open>Winner takes the value: for a non-cumulative config, the final value
  \<open>getConfigValues\<close> computes is the value of its first source, when that source
  carries one.\<close>

theorem get_config_values_winner:
  assumes "get_config_values cvss defs = Inr vals" and "distinct (map fst cvss)"
    and "(cn, s # rest) \<in> set cvss" and "map_of defs cn = Some d" and "\<not> cd_cumulative d"
    and "cvs_value s = Some v"
  shows "\<exists>da. map_of vals cn = Some \<lparr>cv_value = v, cv_defined_at = da\<rparr>"
  using assms by (rule get_config_values_first_source)

theorem get_config_values_winner_witness:
  "\<exists>vals. get_config_values [(''title'', [example_cumulative_source (JStr ''A''), example_cumulative_source (JStr ''B'')])]
            [(''title'', example_cumulative_def\<lparr>cd_cumulative := False\<rparr>)] = Inr vals
     \<and> (\<exists>da. map_of vals ''title'' = Some \<lparr>cv_value = JStr ''A'', cv_defined_at = da\<rparr>)"
proof -
  obtain vals where v: "get_config_values [(''title'', [example_cumulative_source (JStr ''A''), example_cumulative_source (JStr ''B'')])]
            [(''title'', example_cumulative_def\<lparr>cd_cumulative := False\<rparr>)] = Inr vals"
    by (simp add: get_config_values_def get_config_value_def example_cumulative_source_def
        example_cumulative_def_def get_defined_at_file_def)
  have h: "distinct (map fst [(''title'', [example_cumulative_source (JStr ''A''), example_cumulative_source (JStr ''B'')])])"
    "(''title'', example_cumulative_source (JStr ''A'') # [example_cumulative_source (JStr ''B'')])
       \<in> set [(''title'', [example_cumulative_source (JStr ''A''), example_cumulative_source (JStr ''B'')])]"
    "map_of [(''title'', example_cumulative_def\<lparr>cd_cumulative := False\<rparr>)] ''title''
       = Some (example_cumulative_def\<lparr>cd_cumulative := False\<rparr>)"
    "\<not> cd_cumulative (example_cumulative_def\<lparr>cd_cumulative := False\<rparr>)"
    "cvs_value (example_cumulative_source (JStr ''A'')) = Some (JStr ''A'')"
    by (simp_all add: example_cumulative_source_def)
  have "\<exists>da. map_of vals ''title'' = Some \<lparr>cv_value = JStr ''A'', cv_defined_at = da\<rparr>"
    by (rule get_config_values_winner [OF v h])
  then show ?thesis using v by blast
qed

end
