(* ===== verification/Effects.thy ===== *)
theory Effects
  imports Registry Cumulative
begin

text \<open>
  The Effect and Computed Engine and the per-page refinement of \<open>loadVikeConfig\<close>:
  \<open>applyEffectsAll\<close> and \<open>applyEffect\<close> (a \<open>config-only\<close> config's effect may
  reassign the environment of other configs' sources, and nothing else),
  \<open>applyComputed\<close> (computed configs append a lowest-priority source), and the three
  passes final values, effects, computed, each followed by \<open>getConfigValues\<close>.
  Calling a user function (an \<open>effect\<close> or a built-in \<open>_computed\<close>) is the
  collaborator \<open>user_functions\<close>; the experimental-effect warning is logging and is
  not modelled.
\<close>

record page_config =
  pc_page_id :: location_id
  pc_sources :: config_value_sources
  pc_values :: "(config_name \<times> config_value) list"

record user_functions =
  call_effect :: "nat \<Rightarrow> jsval option \<Rightarrow> jsval"
  call_computed :: "nat \<Rightarrow> page_config \<Rightarrow> jsval"

subsection \<open>Effects\<close>

text \<open>\<open>configValueSources[target]?.forEach(s => s.configEnv = env)\<close>.\<close>

definition set_sources_env :: "config_name \<Rightarrow> config_env \<Rightarrow> config_value_sources \<Rightarrow> config_value_sources" where
  "set_sources_env target env srcs =
     map (\<lambda>(n, ss). if n = target then (n, map (\<lambda>s. s\<lparr>cvs_env := env\<rparr>) ss) else (n, ss)) srcs"

text \<open>One target of \<open>meta\<close> in an effect's result: its definition must set exactly
  the key \<open>env\<close>.\<close>

definition apply_effect_target :: "config_name \<times> jsval \<Rightarrow> config_value_sources \<Rightarrow> error + config_value_sources" where
  "apply_effect_target t srcs =
     (let (target, tdef) = t; keys = map fst (object_entries tdef) in
      if ''env'' \<notin> set keys \<or> length keys \<noteq> 1 then Inl ErrEffectUnsupported
      else case js_get tdef ''env'' of
        JStr e \<Rightarrow> (case parse_config_env e of
                    Some env \<Rightarrow> Inr (set_sources_env target env srcs)
                  | None \<Rightarrow> Inl InvariantViolation)
      | _ \<Rightarrow> Inl InvariantViolation)"

fun apply_effect_targets :: "(config_name \<times> jsval) list \<Rightarrow> config_value_sources \<Rightarrow> error + config_value_sources" where
  "apply_effect_targets [] srcs = Inr srcs"
| "apply_effect_targets (t # ts) srcs =
     (case apply_effect_target t srcs of Inl e \<Rightarrow> Inl e | Inr srcs' \<Rightarrow> apply_effect_targets ts srcs')"

text \<open>One entry of the effect's result: only \<open>meta\<close> is supported, and its value must
  pass \<open>assertMetaValue\<close>.\<close>

definition apply_effect_entry :: "string \<times> jsval \<Rightarrow> config_value_sources \<Rightarrow> error + config_value_sources" where
  "apply_effect_entry kv srcs =
     (if fst kv = ''meta'' then
        (case assert_meta_value (snd kv) of
           Inl e \<Rightarrow> Inl e
         | Inr targets \<Rightarrow> apply_effect_targets targets srcs)
      else Inl ErrEffectUnsupported)"

fun apply_effect_entries :: "(string \<times> jsval) list \<Rightarrow> config_value_sources \<Rightarrow> error + config_value_sources" where
  "apply_effect_entries [] srcs = Inr srcs"
| "apply_effect_entries (kv # kvs) srcs =
     (case apply_effect_entry kv srcs of Inl e \<Rightarrow> Inl e | Inr srcs' \<Rightarrow> apply_effect_entries kvs srcs')"

text \<open>\<open>applyEffect\<close>.\<close>

definition apply_effect :: "jsval \<Rightarrow> config_value_sources \<Rightarrow> error + config_value_sources" where
  "apply_effect config_mod srcs = apply_effect_entries (object_entries config_mod) srcs"

text \<open>\<open>applyEffectsAll\<close>: for every definition with an effect, in definition order,
  the effect is called with the value of the config's first source; a falsy result
  does nothing; otherwise the source must be loaded and the result is applied.\<close>

definition apply_effect_of :: "user_functions \<Rightarrow> config_name \<times> config_def \<Rightarrow> page_config \<Rightarrow> error + page_config" where
  "apply_effect_of fns nd pc =
     (let (cn, d) = nd in
      case cd_effect d of
        None \<Rightarrow> Inr pc
      | Some f \<Rightarrow>
          (case map_of (pc_sources pc) cn of
             None \<Rightarrow> Inr pc
           | Some [] \<Rightarrow> Inr pc
           | Some (src # _) \<Rightarrow>
               if cvs_computed src then Inl InvariantViolation
               else
                 (let config_mod = call_effect fns f (cvs_value src) in
                  if \<not> js_truthy config_mod then Inr pc
                  else if cvs_value src = None then Inl InvariantViolation
                  else case apply_effect config_mod (pc_sources pc) of
                         Inl e \<Rightarrow> Inl e
                       | Inr srcs' \<Rightarrow> Inr (pc\<lparr>pc_sources := srcs'\<rparr>))))"

fun apply_effects_all :: "user_functions \<Rightarrow> config_defs \<Rightarrow> page_config \<Rightarrow> error + page_config" where
  "apply_effects_all fns [] pc = Inr pc"
| "apply_effects_all fns (nd # nds) pc =
     (case apply_effect_of fns nd pc of Inl e \<Rightarrow> Inl e | Inr pc' \<Rightarrow> apply_effects_all fns nds pc')"

subsection \<open>Computed configs\<close>

text \<open>\<open>configValueSources[configName] ??= []\<close> then \<open>push\<close>: the source goes last.\<close>

definition append_source :: "config_name \<Rightarrow> config_value_source \<Rightarrow> config_value_sources \<Rightarrow> config_value_sources" where
  "append_source cn s srcs =
     AList.update cn ((case map_of srcs cn of None \<Rightarrow> [] | Some ss \<Rightarrow> ss) @ [s]) srcs"

definition computed_source :: "config_def \<Rightarrow> jsval \<Rightarrow> config_value_source" where
  "computed_source d v =
     \<lparr>cvs_value = Some v, cvs_value_is_file_path = False, cvs_env = cd_env d, cvs_imported = False,
      cvs_computed = True, cvs_defined_at = None\<rparr>"

text \<open>\<open>applyComputed\<close>: each computed function sees the page config as the previous
  ones left it. The record \<open>page_config\<close> holds \<open>pageId\<close>, the sources and the
  values; \<open>isErrorPage\<close> and \<open>routeFilesystem\<close>, which the code also stores in the
  page config, are computed beside it by \<open>determine_route_filesystem\<close>, so a computed
  function of the model cannot read them.\<close>

definition apply_computed_of :: "user_functions \<Rightarrow> config_name \<times> config_def \<Rightarrow> page_config \<Rightarrow> page_config" where
  "apply_computed_of fns nd pc =
     (let (cn, d) = nd in
      case cd_computed d of
        None \<Rightarrow> pc
      | Some f \<Rightarrow>
          (let v = call_computed fns f pc in
           if v = JUndefined then pc
           else pc\<lparr>pc_sources := append_source cn (computed_source d v) (pc_sources pc)\<rparr>))"

definition apply_computed :: "user_functions \<Rightarrow> config_defs \<Rightarrow> page_config \<Rightarrow> page_config" where
  "apply_computed fns defs pc = fold (apply_computed_of fns) defs pc"

subsection \<open>The three passes of a page\<close>

text \<open>From the resolved sources: the final values, then effects and the values
  again, then computed configs and the values once more.\<close>

definition finalize_page_config ::
  "user_functions \<Rightarrow> config_defs \<Rightarrow> location_id \<Rightarrow> config_value_sources \<Rightarrow> error + page_config" where
  "finalize_page_config fns defs page_id srcs =
     (case get_config_values srcs defs of
        Inl e \<Rightarrow> Inl e
      | Inr vals0 \<Rightarrow>
          (case apply_effects_all fns defs \<lparr>pc_page_id = page_id, pc_sources = srcs, pc_values = vals0\<rparr> of
             Inl e \<Rightarrow> Inl e
           | Inr pc1 \<Rightarrow>
               (case get_config_values (pc_sources pc1) defs of
                  Inl e \<Rightarrow> Inl e
                | Inr vals1 \<Rightarrow>
                    (let pc2 = apply_computed fns defs (pc1\<lparr>pc_values := vals1\<rparr>) in
                     case get_config_values (pc_sources pc2) defs of
                       Inl e \<Rightarrow> Inl e
                     | Inr vals2 \<Rightarrow> Inr (pc2\<lparr>pc_values := vals2\<rparr>)))))"

subsection \<open>Environment-only changes\<close>

definition env_map :: "(config_name \<Rightarrow> config_env \<Rightarrow> config_env) \<Rightarrow> config_value_sources \<Rightarrow> config_value_sources" where
  "env_map g srcs = map (\<lambda>(n, ss). (n, map (cvs_env_update (g n)) ss)) srcs"

subsection \<open>Inputs for the witnesses\<close>

text \<open>A config \<open>dataEnv\<close> whose effect moves \<open>data\<close> to the client, and a
  computed config \<open>title\<close> whose function returns \<open>'default'\<close>.\<close>

definition example_functions :: user_functions where
  "example_functions =
     \<lparr>call_effect = (\<lambda>f v. JObj [(''meta'', JObj [(''data'', JObj [(''env'', JStr ''client-only'')])])]),
      call_computed = (\<lambda>f p. JStr ''default'')\<rparr>"

definition example_effect_defs :: config_defs where
  "example_effect_defs =
     [(''dataEnv'', \<lparr>cd_env = ConfigOnly, cd_cumulative = False, cd_effect = Some 0, cd_computed = None,
                    cd_value_is_file_path = False\<rparr>),
      (''data'', \<lparr>cd_env = ServerOnly, cd_cumulative = False, cd_effect = None, cd_computed = None,
                 cd_value_is_file_path = False\<rparr>)]"

definition example_computed_defs :: config_defs where
  "example_computed_defs =
     [(''title'', \<lparr>cd_env = ServerAndClient, cd_cumulative = False, cd_effect = None, cd_computed = Some 1,
                  cd_value_is_file_path = False\<rparr>)]"

definition example_page :: page_config where
  "example_page =
     \<lparr>pc_page_id = [''pages''],
      pc_sources = [(''dataEnv'', [example_cumulative_source (JBool True)]),
                    (''data'', [example_cumulative_source (JStr ''x'')])],
      pc_values = []\<rparr>"

lemmas effects_example_defs =
  example_functions_def example_effect_defs_def example_computed_defs_def example_page_def
  example_cumulative_source_def

subsection \<open>Lemmas\<close>

lemma cvs_env_update_ident [simp]: "cvs_env_update (\<lambda>e. e) s = s" "cvs_env_update id s = s"
  by (cases s; simp)+

lemma map_cvs_env_update_ident [simp]: "map (cvs_env_update (\<lambda>e. e)) ss = ss" "map (cvs_env_update id) ss = ss"
  by (induction ss) simp_all

lemma env_map_comp: "env_map g2 (env_map g1 srcs) = env_map (\<lambda>n. g2 n \<circ> g1 n) srcs"
  by (induction srcs) (auto simp: env_map_def)

lemma env_map_id: "env_map (\<lambda>n e. e) srcs = srcs"
  by (induction srcs) (auto simp: env_map_def)

lemma set_sources_env_env_map: "set_sources_env t env srcs = env_map (\<lambda>n. if n = t then (\<lambda>_. env) else id) srcs"
  by (induction srcs) (auto simp: env_map_def set_sources_env_def)

lemma apply_effect_target_env_map:
  "apply_effect_target t srcs = Inr srcs' \<Longrightarrow> \<exists>g. srcs' = env_map g srcs"
  by (auto simp: apply_effect_target_def Let_def set_sources_env_env_map split: prod.splits if_splits jsval.splits option.splits)

lemma apply_effect_targets_env_map:
  "apply_effect_targets ts srcs = Inr srcs' \<Longrightarrow> \<exists>g. srcs' = env_map g srcs"
proof (induction ts arbitrary: srcs)
  case Nil
  then show ?case by (metis apply_effect_targets.simps(1) env_map_id sum.inject(2))
next
  case (Cons t ts)
  then obtain s1 where t1: "apply_effect_target t srcs = Inr s1" and r: "apply_effect_targets ts s1 = Inr srcs'"
    by (auto split: sum.splits)
  obtain g1 where "s1 = env_map g1 srcs" using apply_effect_target_env_map[OF t1] by blast
  moreover obtain g2 where "srcs' = env_map g2 s1" using Cons.IH[OF r] by blast
  ultimately show ?case by (auto simp: env_map_comp)
qed

lemma apply_effect_entries_env_map:
  "apply_effect_entries kvs srcs = Inr srcs' \<Longrightarrow> \<exists>g. srcs' = env_map g srcs"
proof (induction kvs arbitrary: srcs)
  case Nil
  then show ?case by (metis apply_effect_entries.simps(1) env_map_id sum.inject(2))
next
  case (Cons kv kvs)
  then obtain s1 where e1: "apply_effect_entry kv srcs = Inr s1" and r: "apply_effect_entries kvs s1 = Inr srcs'"
    by (auto split: sum.splits)
  have "\<exists>g. s1 = env_map g srcs"
    using e1 by (auto simp: apply_effect_entry_def split: if_splits sum.splits dest: apply_effect_targets_env_map)
  then obtain g1 where "s1 = env_map g1 srcs" by blast
  moreover obtain g2 where "srcs' = env_map g2 s1" using Cons.IH[OF r] by blast
  ultimately show ?case by (auto simp: env_map_comp)
qed

lemma apply_effect_of_env_map:
  "apply_effect_of fns nd pc = Inr pc' \<Longrightarrow>
   (\<exists>g. pc_sources pc' = env_map g (pc_sources pc)) \<and> pc_page_id pc' = pc_page_id pc \<and> pc_values pc' = pc_values pc"
  unfolding apply_effect_of_def apply_effect_def
  by (auto simp: Let_def env_map_id split: prod.splits option.splits list.splits if_splits sum.splits
           dest: apply_effect_entries_env_map intro: exI[of _ "\<lambda>n e. e"])

lemma apply_effects_all_env_map:
  "apply_effects_all fns nds pc = Inr pc' \<Longrightarrow>
   (\<exists>g. pc_sources pc' = env_map g (pc_sources pc)) \<and> pc_page_id pc' = pc_page_id pc"
proof (induction nds arbitrary: pc)
  case Nil
  then show ?case by (auto intro: exI[of _ "\<lambda>n e. e"] simp: env_map_id)
next
  case (Cons nd nds)
  then obtain pc1 where e1: "apply_effect_of fns nd pc = Inr pc1" and r: "apply_effects_all fns nds pc1 = Inr pc'"
    by (auto split: sum.splits)
  obtain g1 where g1: "pc_sources pc1 = env_map g1 (pc_sources pc)" and "pc_page_id pc1 = pc_page_id pc"
    using apply_effect_of_env_map[OF e1] by blast
  moreover obtain g2 where "pc_sources pc' = env_map g2 (pc_sources pc1)" and "pc_page_id pc' = pc_page_id pc1"
    using Cons.IH[OF r] by blast
  ultimately show ?case by (auto simp: env_map_comp)
qed

lemma get_config_values_env_map: "get_config_values (env_map g srcs) defs = get_config_values srcs defs"
  unfolding env_map_def by (rule get_config_values_env)

lemma map_of_set_sources_env:
  "map_of (set_sources_env t env srcs) n =
     (if n = t then map_option (map (\<lambda>s. s\<lparr>cvs_env := env\<rparr>)) (map_of srcs n) else map_of srcs n)"
  by (induction srcs) (auto simp: set_sources_env_def)

lemma map_fst_env_map [simp]: "map fst (env_map g srcs) = map fst srcs"
  by (induction srcs) (auto simp: env_map_def)

lemma map_of_env_map: "map_of (env_map g srcs) cn = map_option (map (cvs_env_update (g cn))) (map_of srcs cn)"
  by (induction srcs) (auto simp: env_map_def)

lemma map_of_append_source:
  "map_of (append_source n s srcs) cn =
     (if cn = n then Some ((case map_of srcs n of None \<Rightarrow> [] | Some ss \<Rightarrow> ss) @ [s]) else map_of srcs cn)"
  by (simp add: append_source_def update_conv')

lemma apply_computed_of_other:
  "n \<noteq> cn \<Longrightarrow> map_of (pc_sources (apply_computed_of fns (n, d) pc)) cn = map_of (pc_sources pc) cn"
  by (auto simp: apply_computed_of_def Let_def map_of_append_source split: option.splits)

lemma apply_computed_of_keeps_first:
  "map_of (pc_sources pc) cn = Some (s # ss) \<Longrightarrow>
   \<exists>ss'. map_of (pc_sources (apply_computed_of fns nd pc)) cn = Some (s # ss')"
  by (cases nd) (auto simp: apply_computed_of_def Let_def map_of_append_source split: option.splits)

lemma apply_computed_keeps_first:
  "map_of (pc_sources pc) cn = Some (s # ss) \<Longrightarrow>
   \<exists>ss'. map_of (pc_sources (apply_computed fns defs pc)) cn = Some (s # ss')"
proof (induction defs arbitrary: pc ss)
  case Nil
  then show ?case by (simp add: apply_computed_def)
next
  case (Cons nd defs)
  obtain ss1 where "map_of (pc_sources (apply_computed_of fns nd pc)) cn = Some (s # ss1)"
    using apply_computed_of_keeps_first[OF Cons.prems] by blast
  then show ?case using Cons.IH by (simp add: apply_computed_def)
qed

lemma apply_computed_of_distinct:
  "distinct (map fst (pc_sources pc)) \<Longrightarrow> distinct (map fst (pc_sources (apply_computed_of fns nd pc)))"
  by (cases nd) (auto simp: apply_computed_of_def Let_def append_source_def distinct_update split: option.splits)

lemma apply_computed_distinct:
  "distinct (map fst (pc_sources pc)) \<Longrightarrow> distinct (map fst (pc_sources (apply_computed fns defs pc)))"
  by (induction defs arbitrary: pc) (auto simp: apply_computed_def apply_computed_of_distinct)

lemma apply_computed_constant:
  assumes "distinct (map fst defs)" and "map_of defs cn = Some d" and "cd_computed d = Some f"
    and "\<forall>p. call_computed fns f p = v" and "v \<noteq> JUndefined"
  shows "map_of (pc_sources (apply_computed fns defs pc)) cn =
           Some ((case map_of (pc_sources pc) cn of None \<Rightarrow> [] | Some ss \<Rightarrow> ss) @ [computed_source d v])"
  using assms(1,2)
proof (induction defs arbitrary: pc)
  case Nil
  then show ?case by simp
next
  case (Cons nd defs)
  obtain n d' where nd: "nd = (n, d')" by (cases nd)
  show ?case
  proof (cases "n = cn")
    case True
    then have d': "d' = d" using Cons.prems nd by simp
    have "cn \<notin> fst ` set defs" using Cons.prems(1) nd True by simp
    then have rest: "map_of defs cn = None" by (simp add: map_of_eq_None_iff)
    have other: "map_of (pc_sources (fold (apply_computed_of fns) defs pc')) cn = map_of (pc_sources pc') cn"
      if "map_of defs cn = None" for pc' using that
    proof (induction defs arbitrary: pc')
      case Nil
      then show ?case by simp
    next
      case (Cons nd2 defs2)
      then show ?case by (cases nd2) (auto simp: apply_computed_of_other split: if_splits)
    qed
    show ?thesis
      using assms(3-5) nd True d' other[OF rest]
      by (simp add: apply_computed_def apply_computed_of_def map_of_append_source)
  next
    case False
    then have "map_of defs cn = Some d" "distinct (map fst defs)" using Cons.prems nd by auto
    then show ?thesis
      using Cons.IH[of "apply_computed_of fns nd pc"] nd False
      by (simp add: apply_computed_def apply_computed_of_other)
  qed
qed

lemma finalize_page_config_cases:
  assumes "finalize_page_config fns defs pid srcs = Inr pc"
  obtains pc1 g where
    "pc_sources pc1 = env_map g srcs"
    "get_config_values (pc_sources (apply_computed fns defs pc1)) defs = Inr (pc_values pc)"
proof -
  from assms obtain vals0 pc1 vals1 vals2 where
    e: "apply_effects_all fns defs \<lparr>pc_page_id = pid, pc_sources = srcs, pc_values = vals0\<rparr> = Inr pc1"
    and v2: "get_config_values (pc_sources (apply_computed fns defs (pc1\<lparr>pc_values := vals1\<rparr>))) defs = Inr vals2"
    and pc: "pc = (apply_computed fns defs (pc1\<lparr>pc_values := vals1\<rparr>))\<lparr>pc_values := vals2\<rparr>"
    by (auto simp: finalize_page_config_def Let_def split: sum.splits)
  obtain g where "pc_sources pc1 = env_map g srcs"
    using apply_effects_all_env_map[OF e] by auto
  then show ?thesis using that[of "pc1\<lparr>pc_values := vals1\<rparr>" g] v2 pc by simp
qed

subsection \<open>Properties of effects and computed configs\<close>

text \<open>C29. Effects never change values (spec P7): whatever the effects of a page's
  definitions do, the final values computed after \<open>applyEffectsAll\<close> are those
  computed before it, definitions included.\<close>

theorem effects_preserve_values:
  assumes "apply_effects_all fns defs pc = Inr pc'"
  shows "get_config_values (pc_sources pc') defs = get_config_values (pc_sources pc) defs"
  using apply_effects_all_env_map[OF assms] get_config_values_env_map by metis


theorem effects_preserve_values_witness:
  "\<exists>pc'. apply_effects_all example_functions example_effect_defs example_page = Inr pc'
     \<and> get_config_values (pc_sources pc') example_effect_defs
       = get_config_values (pc_sources example_page) example_effect_defs"
proof -
  obtain pc' where e: "apply_effects_all example_functions example_effect_defs example_page = Inr pc'"
    by (simp add: effects_example_defs apply_effect_of_def apply_effect_def apply_effect_entry_def
        assert_meta_value_def assert_meta_entry_def js_has_key_def js_get_def apply_effect_target_def
        parse_config_env_def)
  show ?thesis using e effects_preserve_values [OF e] by blast
qed

lemma apply_effect_single_target:
  assumes "parse_config_env e = Some env"
  shows "apply_effect (JObj [(''meta'', JObj [(t, JObj [(''env'', JStr e)])])]) srcs
         = Inr (set_sources_env t env srcs)"
  using assms
  by (simp add: apply_effect_def apply_effect_entry_def assert_meta_value_def assert_meta_entry_def
      js_has_key_def js_get_def apply_effect_target_def)

text \<open>C28. An effect reassigns environments (spec P7): an effect returning
  \<open>{ meta: { target: { env } } }\<close> with a valid environment succeeds, keeps the
  config names of the sources, gives every source of the target config the new
  environment (all its other fields unchanged), and leaves the sources of every
  other config as they were.\<close>

theorem effect_reassigns_environment:
  assumes "parse_config_env e = Some env"
  shows "\<exists>srcs'. apply_effect (JObj [(''meta'', JObj [(t, JObj [(''env'', JStr e)])])]) srcs = Inr srcs'
     \<and> map fst srcs' = map fst srcs
     \<and> map_of srcs' t = map_option (map (\<lambda>s. s\<lparr>cvs_env := env\<rparr>)) (map_of srcs t)
     \<and> (\<forall>n. n \<noteq> t \<longrightarrow> map_of srcs' n = map_of srcs n)"
proof (intro exI conjI)
  show "apply_effect (JObj [(''meta'', JObj [(t, JObj [(''env'', JStr e)])])]) srcs
        = Inr (set_sources_env t env srcs)"
    using apply_effect_single_target[OF assms] .
  show "map fst (set_sources_env t env srcs) = map fst srcs"
    by (simp add: set_sources_env_env_map)
qed (simp_all add: map_of_set_sources_env)

theorem effect_reassigns_environment_witness:
  "\<exists>srcs'. apply_effect (JObj [(''meta'', JObj [(''data'', JObj [(''env'', JStr ''client-only'')])])])
       (pc_sources example_page) = Inr srcs'
     \<and> map fst srcs' = map fst (pc_sources example_page)
     \<and> map_of srcs' ''data'' = map_option (map (\<lambda>s. s\<lparr>cvs_env := ClientOnly\<rparr>)) (map_of (pc_sources example_page) ''data'')
     \<and> map_of srcs' ''title'' = map_of (pc_sources example_page) ''title''"
proof -
  have p: "parse_config_env ''client-only'' = Some ClientOnly" by (simp add: parse_config_env_def)
  show ?thesis using effect_reassigns_environment [OF p, of "''data''" "pc_sources example_page"] by auto
qed

text \<open>C30. Computed values are defaults (spec P8): when a non-cumulative config has an
  explicit first source with a value, the page's final value is that value, after
  effects and computed configs have run.\<close>

theorem computed_never_overrides_explicit:
  assumes fin: "finalize_page_config fns defs pid srcs = Inr pc"
    and dist: "distinct (map fst srcs)" and src: "map_of srcs cn = Some (s # ss)"
    and def: "map_of defs cn = Some d" "\<not> cd_cumulative d" and val: "cvs_value s = Some v"
  shows "\<exists>da. map_of (pc_values pc) cn = Some \<lparr>cv_value = v, cv_defined_at = da\<rparr>"
proof -
  obtain pc1 g where s1: "pc_sources pc1 = env_map g srcs"
    and v2: "get_config_values (pc_sources (apply_computed fns defs pc1)) defs = Inr (pc_values pc)"
    using finalize_page_config_cases[OF fin] by metis
  have "map_of (pc_sources pc1) cn = Some (cvs_env_update (g cn) s # map (cvs_env_update (g cn)) ss)"
    using s1 src by (simp add: map_of_env_map)
  then obtain ss' where m2: "map_of (pc_sources (apply_computed fns defs pc1)) cn
      = Some (cvs_env_update (g cn) s # ss')"
    using apply_computed_keeps_first by blast
  have d2: "distinct (map fst (pc_sources (apply_computed fns defs pc1)))"
    using dist s1 by (intro apply_computed_distinct) simp
  show ?thesis
    using get_config_values_first_source[OF v2 d2 map_of_SomeD[OF m2] def] val by simp
qed


theorem computed_never_overrides_explicit_witness:
  "\<exists>pc. finalize_page_config example_functions example_computed_defs [''pages'']
          [(''title'', [example_cumulative_source (JStr ''A'')])] = Inr pc
     \<and> (\<exists>da. map_of (pc_values pc) ''title'' = Some \<lparr>cv_value = JStr ''A'', cv_defined_at = da\<rparr>)"
proof -
  obtain pc where fin: "finalize_page_config example_functions example_computed_defs [''pages'']
          [(''title'', [example_cumulative_source (JStr ''A'')])] = Inr pc"
    by (simp add: effects_example_defs finalize_page_config_def get_config_values_def
        get_config_value_def get_defined_at_file_def apply_computed_def apply_computed_of_def
        append_source_def computed_source_def apply_effect_of_def)
  have h: "distinct (map fst [(''title'', [example_cumulative_source (JStr ''A'')])])"
    "map_of [(''title'', [example_cumulative_source (JStr ''A'')])] ''title''
       = Some (example_cumulative_source (JStr ''A'') # [])"
    "map_of example_computed_defs ''title'' = Some (the (map_of example_computed_defs ''title''))"
    "\<not> cd_cumulative (the (map_of example_computed_defs ''title''))"
    "cvs_value (example_cumulative_source (JStr ''A'')) = Some (JStr ''A'')"
    by (simp_all add: effects_example_defs)
  show ?thesis using fin computed_never_overrides_explicit [OF fin h] by blast
qed

text \<open>Computed values fill in (spec P8): when no file defines a non-cumulative
  computed config and its function returns a value, that value is final and marked
  computed.\<close>

theorem computed_value_when_undefined:
  assumes fin: "finalize_page_config fns defs pid srcs = Inr pc"
    and dist: "distinct (map fst defs)" and none: "map_of srcs cn = None"
    and def: "map_of defs cn = Some d" "\<not> cd_cumulative d" "cd_computed d = Some f"
    and fn: "\<forall>p. call_computed fns f p = v" "v \<noteq> JUndefined"
    and dsrc: "distinct (map fst srcs)"
  shows "map_of (pc_values pc) cn = Some \<lparr>cv_value = v, cv_defined_at = DefinedAtComputed\<rparr>"
proof -
  obtain pc1 g where s1: "pc_sources pc1 = env_map g srcs"
    and v2: "get_config_values (pc_sources (apply_computed fns defs pc1)) defs = Inr (pc_values pc)"
    using finalize_page_config_cases[OF fin] by metis
  have "map_of (pc_sources pc1) cn = None" using s1 none by (simp add: map_of_env_map)
  then have m2: "map_of (pc_sources (apply_computed fns defs pc1)) cn = Some [computed_source d v]"
    using apply_computed_constant[OF dist def(1,3) fn] by simp
  have d2: "distinct (map fst (pc_sources (apply_computed fns defs pc1)))"
    using dsrc s1 by (intro apply_computed_distinct) simp
  have "get_config_value defs cn [computed_source d v] = Inr (map_of (pc_values pc) cn)"
    using get_config_values_entry[OF v2 d2 map_of_SomeD[OF m2]] .
  then show ?thesis using def by (simp add: get_config_value_def computed_source_def)
qed

theorem computed_value_when_undefined_witness:
  "\<exists>pc. finalize_page_config example_functions example_computed_defs [''pages''] [] = Inr pc
     \<and> map_of (pc_values pc) ''title'' = Some \<lparr>cv_value = JStr ''default'', cv_defined_at = DefinedAtComputed\<rparr>"
proof -
  obtain pc where fin: "finalize_page_config example_functions example_computed_defs [''pages''] [] = Inr pc"
    by (simp add: effects_example_defs finalize_page_config_def get_config_values_def
        get_config_value_def apply_computed_def apply_computed_of_def append_source_def computed_source_def
        apply_effect_of_def)
  let ?d = "the (map_of example_computed_defs ''title'')"
  have h: "distinct (map fst example_computed_defs)" "map_of ([] :: config_value_sources) ''title'' = None"
    "map_of example_computed_defs ''title'' = Some ?d" "\<not> cd_cumulative ?d" "cd_computed ?d = Some 1"
    "\<forall>p. call_computed example_functions 1 p = JStr ''default''" "JStr ''default'' \<noteq> JUndefined"
    "distinct (map fst ([] :: config_value_sources))"
    by (simp_all add: effects_example_defs)
  show ?thesis using fin computed_value_when_undefined [OF fin h] by blast
qed

end
