(* ===== verification/Extends.thy ===== *)
theory Extends
  imports Resolution Registry
begin

text \<open>
  The Extends Resolver of \<open>getVikeConfig.ts\<close>: \<open>loadConfigFile\<close>,
  \<open>assertNoInfiniteLoop\<close>, \<open>loadExtendsConfigs\<close>, \<open>getExtendsImportData\<close>,
  \<open>determineFilePathRelativeToUserDir\<close>, and the config-file branch of
  \<open>loadInterfaceFiles\<close> with \<open>getInterfaceFileFromConfigFile\<close>. Executing a file
  (\<open>transpileAndExecuteFile\<close>) is the collaborator \<open>exec\<close> from absolute paths to
  exports. The recursion of \<open>loadConfigFile\<close> ends on a finite file system, not by
  its structure, so it takes fuel and \<open>None\<close> means the fuel ran out;
  \<open>load_config_file_terminates\<close> shows which fuel is enough. \<open>Promise.all\<close> is
  modelled as loading the extends in list order: the code pushes each result when its
  load completes, so the list order is the one where loads complete in order.
\<close>

text \<open>\<open>ConfigFile\<close>: the exports of the file, its path, and the absolute paths
  of the files it extends.\<close>

record config_file =
  cf_exports :: jsval
  cf_path :: file_path
  cf_extends_paths :: "string list"

text \<open>\<open>assertExportsOfConfigFile\<close> (outside the sources, modelled from the spec):
  the default export must be an object; it is returned.\<close>

definition assert_exports_of_config_file :: "jsval \<Rightarrow> error + jsval" where
  "assert_exports_of_config_file exports =
     (let dflt = js_get exports ''default'' in
      case dflt of JObj _ \<Rightarrow> Inr dflt | _ \<Rightarrow> Inl ErrConfigFileExports)"

fun js_string :: "jsval \<Rightarrow> string option" where
  "js_string (JStr s) = Some s"
| "js_string _ = None"

text \<open>\<open>getExtendsImportData\<close>: no \<open>extends\<close>, a string, or an array of strings,
  each of which must parse as an import.\<close>

definition get_extends_import_data :: "resolver \<Rightarrow> jsval \<Rightarrow> error + import_data list" where
  "get_extends_import_data r exports =
     (case assert_exports_of_config_file exports of
        Inl e \<Rightarrow> Inl e
      | Inr dflt \<Rightarrow>
          (let ext_list =
             (if \<not> js_has_key ''extends'' dflt then Inr []
              else case js_get dflt ''extends'' of
                JStr s \<Rightarrow> Inr [s]
              | JArr xs \<Rightarrow> (if list_all (\<lambda>x. js_string x \<noteq> None) xs
                             then Inr (map (\<lambda>x. the (js_string x)) xs) else Inl ErrExtendsInvalid)
              | _ \<Rightarrow> Inl ErrExtendsInvalid)
           in case ext_list of
                Inl e \<Rightarrow> Inl e
              | Inr l \<Rightarrow> map_err (\<lambda>s. case parse_import_data r s of
                                           None \<Rightarrow> Inl ErrExtendsInvalid | Some d \<Rightarrow> Inr d) l))"

text \<open>\<open>determineFilePathRelativeToUserDir\<close>.\<close>

definition determine_file_path_relative_to_user_dir :: "string \<Rightarrow> string \<Rightarrow> string option" where
  "determine_file_path_relative_to_user_dir absp root =
     (if \<not> starts_with absp root then None
      else let rel = drop (length root) absp in
           Some (if starts_with rel ''/'' then rel else CHR ''/'' # rel))"

text \<open>One entry of \<open>extendsConfigFiles\<close>: \<open>resolveImportPath\<close>, then
  \<open>assertImportPath\<close> (an unresolved import is a usage error);
  \<open>assertExtendsImportPath\<close> only warns.\<close>

definition extends_file_path :: "resolver \<Rightarrow> string \<Rightarrow> file_path \<Rightarrow> import_data \<Rightarrow> error + file_path" where
  "extends_file_path r root importer idata =
     (case resolve_import_path r idata importer of
        None \<Rightarrow> Inl (ErrImportUnresolved (imp_path idata))
      | Some a \<Rightarrow> Inr \<lparr>fp_absolute = Some a, fp_relative = determine_file_path_relative_to_user_dir a root,
                      fp_import_abs = Some (imp_path idata)\<rparr>)"

text \<open>The first half of \<open>loadExtendsConfigs\<close>: the file paths of the extends.\<close>

definition load_extends_paths :: "resolver \<Rightarrow> string \<Rightarrow> jsval \<Rightarrow> file_path \<Rightarrow> error + file_path list" where
  "load_extends_paths r root exports fp =
     (case get_extends_import_data r exports of
        Inl e \<Rightarrow> Inl e
      | Inr ids \<Rightarrow> map_err (extends_file_path r root fp) ids)"

text \<open>\<open>assertNoInfiniteLoop\<close>: the loop is the stack from the first occurrence
  of the path, followed by the path.\<close>

definition assert_no_infinite_loop :: "string list \<Rightarrow> string \<Rightarrow> error + unit" where
  "assert_no_infinite_loop visited p =
     (if p \<notin> set visited then Inr ()
      else Inl (ErrInfiniteExtends (dropWhile (\<lambda>x. x \<noteq> p) visited @ [p])))"

text \<open>\<open>loadConfigFile\<close> with the second half of \<open>loadExtendsConfigs\<close>: each
  extends is loaded with the stack extended by this file, and contributes its config
  file followed by its own \<open>extendsConfigs\<close>.\<close>

fun load_config_file ::
  "nat \<Rightarrow> resolver \<Rightarrow> (string \<Rightarrow> jsval) \<Rightarrow> string \<Rightarrow> string list \<Rightarrow> file_path
   \<Rightarrow> (error + (config_file \<times> config_file list)) option" where
  "load_config_file 0 r exec root visited fp = None"
| "load_config_file (Suc n) r exec root visited fp =
     (let p = the (fp_absolute fp) in
      case assert_no_infinite_loop visited p of
        Inl e \<Rightarrow> Some (Inl e)
      | Inr _ \<Rightarrow>
          (let ex = exec p in
           case load_extends_paths r root ex fp of
             Inl e \<Rightarrow> Some (Inl e)
           | Inr efps \<Rightarrow>
               (case map_opt_err (load_config_file n r exec root (visited @ [p])) efps of
                  None \<Rightarrow> None
                | Some (Inl e) \<Rightarrow> Some (Inl e)
                | Some (Inr rs) \<Rightarrow>
                    Some (Inr (\<lparr>cf_exports = ex, cf_path = fp,
                                cf_extends_paths = map (\<lambda>f. the (fp_absolute f)) efps\<rparr>,
                               concat (map (\<lambda>(c, cs). c # cs) rs))))))"

text \<open>\<open>getInterfaceFileFromConfigFile\<close>: the entries of the default export become
  the config map (a later key overwrites an earlier one, as assignment does).\<close>

definition get_interface_file_from_config_file :: "config_file \<Rightarrow> bool \<Rightarrow> error + interface_file" where
  "get_interface_file_from_config_file cf is_ext =
     (case assert_exports_of_config_file (cf_exports cf) of
        Inl e \<Rightarrow> Inl e
      | Inr dflt \<Rightarrow>
          Inr \<lparr>if_path = cf_path cf,
               if_config_map = fold (\<lambda>(k, v) m. AList.update k (Some v) m) (object_entries dflt) [],
               if_kind = ConfigFileKind (cf_extends_paths cf) is_ext\<rparr>)"

text \<open>The config-file branch of \<open>loadInterfaceFiles\<close>: the interface files one
  \<open>+config.js\<close> puts at its location, itself first and then every config file its
  extends reach, marked as extensions.\<close>

definition load_config_interface_files ::
  "nat \<Rightarrow> resolver \<Rightarrow> (string \<Rightarrow> jsval) \<Rightarrow> string \<Rightarrow> file_path \<Rightarrow> (error + interface_file list) option" where
  "load_config_interface_files fuel r exec root fp =
     (case load_config_file fuel r exec root [] fp of
        None \<Rightarrow> None
      | Some (Inl e) \<Rightarrow> Some (Inl e)
      | Some (Inr (cf, exts)) \<Rightarrow>
          Some (map_err (\<lambda>(c, b). get_interface_file_from_config_file c b)
                  ((cf, False) # map (\<lambda>c. (c, True)) exts)))"

text \<open>Extends edges between absolute paths: the targets \<open>loadExtendsConfigs\<close>
  resolves for the file at a path, and walks along them.\<close>

definition abs_file_path :: "string \<Rightarrow> file_path" where
  "abs_file_path p = \<lparr>fp_absolute = Some p, fp_relative = None, fp_import_abs = None\<rparr>"

definition extends_targets :: "resolver \<Rightarrow> string \<Rightarrow> (string \<Rightarrow> jsval) \<Rightarrow> string \<Rightarrow> string list" where
  "extends_targets r root exec p =
     (case load_extends_paths r root (exec p) (abs_file_path p) of
        Inl _ \<Rightarrow> [] | Inr efps \<Rightarrow> map (\<lambda>f. the (fp_absolute f)) efps)"

definition extends_rel :: "resolver \<Rightarrow> string \<Rightarrow> (string \<Rightarrow> jsval) \<Rightarrow> (string \<times> string) set" where
  "extends_rel r root exec = {(p, q). q \<in> set (extends_targets r root exec p)}"

fun is_walk :: "(string \<Rightarrow> string list) \<Rightarrow> string list \<Rightarrow> bool" where
  "is_walk E (a # b # rest) \<longleftrightarrow> b \<in> set (E a) \<and> is_walk E (b # rest)"
| "is_walk E _ \<longleftrightarrow> True"

text \<open>The order of \<open>extendsConfigs\<close>: every config file that extends others is
  directly followed by the config file of its first extends.\<close>

fun extends_preorder :: "config_file list \<Rightarrow> bool" where
  "extends_preorder (c # d # rest) \<longleftrightarrow>
     (cf_extends_paths c \<noteq> [] \<longrightarrow> the (fp_absolute (cf_path d)) = hd (cf_extends_paths c))
     \<and> extends_preorder (d # rest)"
| "extends_preorder [c] \<longleftrightarrow> cf_extends_paths c = []"
| "extends_preorder [] \<longleftrightarrow> True"

subsection \<open>Inputs for the witnesses\<close>

text \<open>Config files under \<open>/app\<close> whose default export only sets \<open>extends\<close>, for three
  extends graphs: a cycle \<open>a > b > a\<close>, a chain \<open>a > b > c\<close>, and a diamond where
  \<open>a\<close> extends \<open>b\<close> and \<open>c\<close>, which both extend \<open>d\<close>.\<close>

definition example_extends_resolver :: resolver where
  "example_extends_resolver =
     \<lparr>parse_import_data = (\<lambda>s. Some \<lparr>imp_path = s, imp_export_name = ''default''\<rparr>),
      require_resolve = (\<lambda>s cwd. Some (''/app'' @ tl s @ ''/+config.js'')),
      posix_dirname = (\<lambda>p. p)\<rparr>"

definition graph_exec :: "(string \<Rightarrow> string list) \<Rightarrow> string \<Rightarrow> jsval" where
  "graph_exec g p = JObj [(''default'', JObj [(''extends'', JArr (map JStr (g p)))])]"

definition example_cycle :: "string \<Rightarrow> string list" where
  "example_cycle p = (if p = ''/app/a/+config.js'' then [''./b''] else if p = ''/app/b/+config.js'' then [''./a''] else [])"

definition example_chain :: "string \<Rightarrow> string list" where
  "example_chain p = (if p = ''/app/a/+config.js'' then [''./b''] else if p = ''/app/b/+config.js'' then [''./c''] else [])"

definition example_diamond :: "string \<Rightarrow> string list" where
  "example_diamond p =
     (if p = ''/app/a/+config.js'' then [''./b'', ''./c'']
      else if p = ''/app/b/+config.js'' \<or> p = ''/app/c/+config.js'' then [''./d''] else [])"

lemmas extends_example_defs = example_extends_resolver_def graph_exec_def abs_file_path_def
  load_extends_paths_def get_extends_import_data_def assert_exports_of_config_file_def
  extends_file_path_def resolve_import_path_def determine_file_path_relative_to_user_dir_def
  assert_no_infinite_loop_def js_get_def js_has_key_def starts_with_def

subsection \<open>Lemmas\<close>

lemma extends_file_path_abs:
  "extends_file_path r root fp = extends_file_path r root (abs_file_path (the (fp_absolute fp)))"
  by (rule ext) (simp add: extends_file_path_def resolve_import_path_def abs_file_path_def)

lemma load_extends_paths_abs:
  "load_extends_paths r root ex fp = load_extends_paths r root ex (abs_file_path (the (fp_absolute fp)))"
  unfolding load_extends_paths_def by (metis extends_file_path_abs)

lemma load_extends_paths_targets:
  "load_extends_paths r root (exec (the (fp_absolute fp))) fp = Inr efps \<Longrightarrow>
     map (\<lambda>f. the (fp_absolute f)) efps = extends_targets r root exec (the (fp_absolute fp))"
  by (simp add: extends_targets_def load_extends_paths_abs[of r root _ fp])

lemma load_extends_paths_no_loop_error:
  "load_extends_paths r root ex fp \<noteq> Inl (ErrInfiniteExtends l)"
proof -
  have "map_err (\<lambda>s. case parse_import_data r s of None \<Rightarrow> Inl ErrExtendsInvalid | Some d \<Rightarrow> Inr d) xs
          \<noteq> Inl (ErrInfiniteExtends l)" for xs
    by (induction xs) (auto split: option.splits sum.splits)
  moreover have "map_err (extends_file_path r root fp) ids \<noteq> Inl (ErrInfiniteExtends l)" for ids
    by (induction ids) (auto simp: extends_file_path_def split: option.splits sum.splits)
  ultimately show ?thesis
    by (auto simp: load_extends_paths_def get_extends_import_data_def assert_exports_of_config_file_def Let_def
             split: sum.splits jsval.splits if_splits option.splits)
qed

lemma load_config_file_terminates_aux:
  assumes "finite U" "distinct visited" "set visited \<subseteq> U" "the (fp_absolute fp) \<in> U"
    and "card U < n + length visited"
    and closed: "\<And>p. p \<in> U \<Longrightarrow> set (extends_targets r root exec p) \<subseteq> U"
  shows "load_config_file n r exec root visited fp \<noteq> None"
  using assms(1-5)
proof (induction n arbitrary: visited fp)
  case 0
  then have "length visited \<le> card U" by (metis card_mono distinct_card)
  then show ?case using "0.prems"(5) by simp
next
  case (Suc n)
  let ?p = "the (fp_absolute fp)"
  show ?case
  proof (cases "?p \<in> set visited")
    case True
    then show ?thesis by (simp add: assert_no_infinite_loop_def Let_def)
  next
    case False
    show ?thesis
    proof (cases "load_extends_paths r root (exec ?p) fp")
      case (Inr efps)
      have "map_opt_err (load_config_file n r exec root (visited @ [?p])) efps \<noteq> None"
      proof (rule map_opt_err_not_None)
        fix f assume f: "f \<in> set efps"
        have "the (fp_absolute f) \<in> set (extends_targets r root exec ?p)"
          using load_extends_paths_targets[of r root exec fp, OF Inr, symmetric] f by simp
        then have "the (fp_absolute f) \<in> U" using closed Suc.prems(4) by blast
        then show "load_config_file n r exec root (visited @ [?p]) f \<noteq> None"
          using Suc.prems False by (intro Suc.IH) auto
      qed
      then show ?thesis using False Inr
        by (auto simp: assert_no_infinite_loop_def Let_def split: option.splits sum.splits)
    qed (simp add: assert_no_infinite_loop_def False)
  qed
qed

lemma is_walk_snoc: "is_walk E (xs @ [a, b]) \<longleftrightarrow> is_walk E (xs @ [a]) \<and> b \<in> set (E a)"
proof (induction xs)
  case (Cons x xs)
  then show ?case by (cases xs) auto
qed simp

lemma is_walk_suffix: "is_walk E (xs @ ys) \<Longrightarrow> is_walk E ys"
proof (induction xs)
  case (Cons x xs)
  then show ?case by (cases "xs @ ys") auto
qed simp

lemma loop_error_is_cycle:
  assumes "p \<in> set visited" and "is_walk E (visited @ [p])"
  shows "2 \<le> length (dropWhile (\<lambda>x. x \<noteq> p) visited @ [p])
    \<and> hd (dropWhile (\<lambda>x. x \<noteq> p) visited @ [p]) = last (dropWhile (\<lambda>x. x \<noteq> p) visited @ [p])
    \<and> is_walk E (dropWhile (\<lambda>x. x \<noteq> p) visited @ [p])"
proof -
  let ?d = "dropWhile (\<lambda>x. x \<noteq> p) visited"
  have ne: "?d \<noteq> []" using assms(1) by (simp add: dropWhile_eq_Nil_conv)
  then have "hd (?d @ [p]) = p" using hd_dropWhile[OF ne] by simp
  moreover have "2 \<le> length (?d @ [p])" using ne by (simp add: Suc_leI)
  moreover have "is_walk E (?d @ [p])"
    using assms(2) is_walk_suffix[of E "takeWhile (\<lambda>x. x \<noteq> p) visited" "?d @ [p]"]
    by (simp only: append_assoc[symmetric] takeWhile_dropWhile_id)
  ultimately show ?thesis by simp
qed

lemma load_config_file_cycle_aux:
  assumes "load_config_file n r exec root visited fp = Some (Inl (ErrInfiniteExtends l))"
    and "is_walk (extends_targets r root exec) (visited @ [the (fp_absolute fp)])"
  shows "2 \<le> length l \<and> hd l = last l \<and> is_walk (extends_targets r root exec) l"
  using assms
proof (induction n arbitrary: visited fp)
  case (Suc n)
  let ?p = "the (fp_absolute fp)" and ?E = "extends_targets r root exec"
  show ?case
  proof (cases "?p \<in> set visited")
    case True
    then have "l = dropWhile (\<lambda>x. x \<noteq> ?p) visited @ [?p]"
      using Suc.prems(1) by (simp add: assert_no_infinite_loop_def Let_def)
    then show ?thesis using loop_error_is_cycle[OF True Suc.prems(2)] by simp
  next
    case False
    then obtain efps where efps: "load_extends_paths r root (exec ?p) fp = Inr efps"
      and m: "map_opt_err (load_config_file n r exec root (visited @ [?p])) efps
                = Some (Inl (ErrInfiniteExtends l))"
      using Suc.prems(1) load_extends_paths_no_loop_error[of r root "exec ?p" fp l]
      by (auto simp: assert_no_infinite_loop_def Let_def split: sum.splits option.splits)
    obtain f where f: "f \<in> set efps"
      and rf: "load_config_file n r exec root (visited @ [?p]) f = Some (Inl (ErrInfiniteExtends l))"
      using map_opt_err_Inl[OF m] by blast
    have "the (fp_absolute f) \<in> set (?E ?p)"
      using load_extends_paths_targets[of r root exec fp, OF efps, symmetric] f by simp
    then have "is_walk ?E ((visited @ [?p]) @ [the (fp_absolute f)])"
      using Suc.prems(2) is_walk_snoc[of ?E visited] by simp
    then show ?thesis using Suc.IH[OF rf] by simp
  qed
qed simp

lemma load_config_file_reach_aux:
  assumes "load_config_file n r exec root visited fp = Some (Inr (cf, exts))"
  shows "set (map (\<lambda>c. the (fp_absolute (cf_path c))) exts)
           = {q. (the (fp_absolute fp), q) \<in> (extends_rel r root exec)\<^sup>+}
         \<and> cf_path cf = fp \<and> cf_extends_paths cf = extends_targets r root exec (the (fp_absolute fp))"
  using assms
proof (induction n arbitrary: visited fp cf exts)
  case (Suc n)
  let ?p = "the (fp_absolute fp)" and ?R = "extends_rel r root exec"
  let ?abs = "\<lambda>c. the (fp_absolute (cf_path c))"
  obtain efps rs where efps: "load_extends_paths r root (exec ?p) fp = Inr efps"
    and m: "map_opt_err (load_config_file n r exec root (visited @ [?p])) efps = Some (Inr rs)"
    and cf: "cf = \<lparr>cf_exports = exec ?p, cf_path = fp, cf_extends_paths = map (\<lambda>f. the (fp_absolute f)) efps\<rparr>"
    and exts: "exts = concat (map (\<lambda>(c, cs). c # cs) rs)"
    using Suc.prems by (auto simp: assert_no_infinite_loop_def Let_def split: if_splits sum.splits option.splits)
  have tg: "map (\<lambda>f. the (fp_absolute f)) efps = extends_targets r root exec ?p"
    using load_extends_paths_targets[of r root exec fp, OF efps] .
  have all: "list_all2 (\<lambda>f y. load_config_file n r exec root (visited @ [?p]) f = Some (Inr y)) efps rs"
    using map_opt_err_Inr[OF m] .
  have "(\<Union>y\<in>set rs. insert (?abs (fst y)) (set (map ?abs (snd y))))
      = (\<Union>f\<in>set efps. insert (the (fp_absolute f)) {q. (the (fp_absolute f), q) \<in> ?R\<^sup>+})"
  proof (rule list_all2_UN[OF all])
    fix f y assume "load_config_file n r exec root (visited @ [?p]) f = Some (Inr y)"
    then show "insert (?abs (fst y)) (set (map ?abs (snd y)))
             = insert (the (fp_absolute f)) {q. (the (fp_absolute f), q) \<in> ?R\<^sup>+}"
      using Suc.IH[of _ f "fst y" "snd y"] by simp
  qed
  also have "\<dots> = {q. (?p, q) \<in> ?R\<^sup>+}"
    unfolding trancl_step_set[of ?p ?R]
    by (simp add: extends_rel_def tg[symmetric] image_iff) blast
  finally have "(\<Union>y\<in>set rs. insert (?abs (fst y)) (set (map ?abs (snd y)))) = {q. (?p, q) \<in> ?R\<^sup>+}" .
  moreover have "set (map ?abs (concat (map (\<lambda>(c, cs). c # cs) rs)))
      = (\<Union>y\<in>set rs. insert (?abs (fst y)) (set (map ?abs (snd y))))"
    by (induction rs) (auto simp: split_beta)
  ultimately show ?case using exts cf tg by simp
qed simp

lemma load_config_file_Inr_cases:
  assumes "load_config_file n r exec root visited fp = Some (Inr (cf, exts))"
  obtains m efps rs where "n = Suc m" "the (fp_absolute fp) \<notin> set visited"
    "load_extends_paths r root (exec (the (fp_absolute fp))) fp = Inr efps"
    "list_all2 (\<lambda>f y. load_config_file m r exec root (visited @ [the (fp_absolute fp)]) f = Some (Inr y)) efps rs"
    "cf_extends_paths cf = map (\<lambda>f. the (fp_absolute f)) efps"
    "exts = concat (map (\<lambda>(c, cs). c # cs) rs)"
proof (cases n)
  case (Suc m)
  let ?p = "the (fp_absolute fp)"
  obtain efps rs where efps: "load_extends_paths r root (exec ?p) fp = Inr efps"
    and m: "map_opt_err (load_config_file m r exec root (visited @ [?p])) efps = Some (Inr rs)"
    and cf: "cf_extends_paths cf = map (\<lambda>f. the (fp_absolute f)) efps"
    and exts: "exts = concat (map (\<lambda>(c, cs). c # cs) rs)"
    and nv: "?p \<notin> set visited"
    using assms Suc by (auto simp: assert_no_infinite_loop_def Let_def split: if_splits sum.splits option.splits)
  show ?thesis using that[OF Suc nv efps map_opt_err_Inr[OF m] cf exts] .
qed (use assms in simp)

lemma load_config_file_result_path:
  "load_config_file n r exec root visited fp = Some (Inr y) \<Longrightarrow> cf_path (fst y) = fp"
  using load_config_file_reach_aux[of n r exec root visited fp "fst y" "snd y"] by simp

lemma extends_preorder_append:
  "extends_preorder xs \<Longrightarrow> extends_preorder ys \<Longrightarrow> extends_preorder (xs @ ys)"
proof (induction xs rule: extends_preorder.induct)
  case (2 c)
  then show ?case by (cases ys) auto
qed auto

lemma extends_preorder_blocks:
  "list_all2 (\<lambda>f y. extends_preorder (fst y # snd y)) efps rs
   \<Longrightarrow> extends_preorder (concat (map (\<lambda>(c, cs). c # cs) rs))"
proof (induction rule: list_all2_induct)
  case (Cons f efps y rs)
  then show ?case using extends_preorder_append[of "fst y # snd y"] by (simp add: split_beta)
qed simp

lemma load_config_file_preorder_aux:
  "load_config_file n r exec root visited fp = Some (Inr (cf, exts)) \<Longrightarrow> extends_preorder (cf # exts)"
proof (induction n arbitrary: visited fp cf exts)
  case (Suc n)
  obtain efps rs where
    all: "list_all2 (\<lambda>f y. load_config_file n r exec root (visited @ [the (fp_absolute fp)]) f = Some (Inr y)) efps rs"
    and cf: "cf_extends_paths cf = map (\<lambda>f. the (fp_absolute f)) efps"
    and exts: "exts = concat (map (\<lambda>(c, cs). c # cs) rs)"
    by (rule load_config_file_Inr_cases[OF Suc.prems]) auto
  have blocks: "list_all2 (\<lambda>f y. extends_preorder (fst y # snd y)) efps rs"
    using all by (rule list_all2_mono) (use Suc.IH in auto)
  show ?case
  proof (cases efps)
    case Nil
    then show ?thesis using all cf exts by simp
  next
    case (Cons f fs)
    then obtain y ys where rs: "rs = y # ys"
      and y: "load_config_file n r exec root (visited @ [the (fp_absolute fp)]) f = Some (Inr y)"
      using all by (auto simp: list_all2_Cons1)
    have "extends_preorder exts" using extends_preorder_blocks[OF blocks] exts by simp
    then show ?thesis
      using exts rs cf Cons load_config_file_result_path[OF y] by (simp add: split_beta)
  qed
qed simp

lemma is_walk_join: "is_walk E (xs @ [q]) \<Longrightarrow> is_walk E (q # ys) \<Longrightarrow> is_walk E (xs @ q # ys)"
proof (induction xs)
  case (Cons x xs)
  then show ?case by (cases xs) auto
qed simp

lemma extends_rtrancl_walk:
  "(a, b) \<in> (extends_rel r root exec)\<^sup>* \<Longrightarrow>
     \<exists>w. is_walk (extends_targets r root exec) (a # w) \<and> last (a # w) = b"
proof (induction rule: rtrancl_induct)
  case base
  show ?case by (rule exI[of _ "[]"]) simp
next
  case (step b c)
  then obtain w where w: "is_walk (extends_targets r root exec) (a # w)" "last (a # w) = b" by blast
  have "a # w = butlast (a # w) @ [last (a # w)]" by (rule append_butlast_last_id[symmetric]) simp
  then obtain xs where xs: "a # w = xs @ [b]" using w(2) by simp
  have "is_walk (extends_targets r root exec) (xs @ [b, c])"
    using w(1) step(2) is_walk_snoc[of _ xs b c] xs by (simp add: extends_rel_def)
  moreover have eq: "a # (w @ [c]) = xs @ [b, c]" using arg_cong[OF xs, of "\<lambda>l. l @ [c]"] by simp
  ultimately have "is_walk (extends_targets r root exec) (a # (w @ [c]))" by (simp only: eq)
  then show ?case by (intro exI[of _ "w @ [c]"]) simp
qed

lemma load_config_file_walks_aux:
  "load_config_file n r exec root visited fp = Some (Inr (cf, exts)) \<Longrightarrow>
   is_walk (extends_targets r root exec) (the (fp_absolute fp) # w) \<Longrightarrow>
   distinct (the (fp_absolute fp) # w) \<and> set (the (fp_absolute fp) # w) \<inter> set visited = {}"
proof (induction n arbitrary: visited fp cf exts w)
  case (Suc n)
  let ?p = "the (fp_absolute fp)"
  obtain efps rs where nv: "?p \<notin> set visited"
    and efps: "load_extends_paths r root (exec ?p) fp = Inr efps"
    and all: "list_all2 (\<lambda>f y. load_config_file n r exec root (visited @ [?p]) f = Some (Inr y)) efps rs"
    by (rule load_config_file_Inr_cases[OF Suc.prems(1)]) auto
  show ?case
  proof (cases w)
    case (Cons q w')
    have "q \<in> set (extends_targets r root exec ?p)" using Suc.prems(2) Cons by simp
    moreover have "map (\<lambda>f. the (fp_absolute f)) efps = extends_targets r root exec ?p"
      using load_extends_paths_targets[of r root exec fp, OF efps] .
    ultimately have "q \<in> (\<lambda>f. the (fp_absolute f)) ` set efps" by (simp only: set_map[symmetric])
    then obtain f where f: "f \<in> set efps" "the (fp_absolute f) = q" by blast
    then obtain i where i: "i < length efps" "efps ! i = f" by (auto simp: in_set_conv_nth)
    then obtain y where y: "load_config_file n r exec root (visited @ [?p]) f = Some (Inr y)"
      using list_all2_nthD[OF all i(1)] by blast
    have "is_walk (extends_targets r root exec) (the (fp_absolute f) # w')" using Suc.prems(2) Cons f(2) by simp
    then have "distinct (q # w') \<and> set (q # w') \<inter> set (visited @ [?p]) = {}"
      using Suc.IH[of "visited @ [?p]" f "fst y" "snd y" w'] y f(2) by simp
    then show ?thesis using Cons nv by auto
  qed (simp add: nv)
qed simp

lemma count_concat_blocks:
  "list_all2 (\<lambda>t b. P t \<longrightarrow> d \<in> set b) ts bs \<Longrightarrow> length (filter P ts) \<le> count (mset (concat bs)) d"
proof (induction rule: list_all2_induct)
  case (Cons t ts b bs)
  show ?case
  proof (cases "P t")
    case True
    have "1 \<le> count (mset b) d" using Cons(1) True by (simp add: Suc_le_eq)
    moreover have "length (filter P (t # ts)) = Suc (length (filter P ts))" using True by simp
    moreover have "count (mset (concat (b # bs))) d = count (mset b) d + count (mset (concat bs)) d" by simp
    ultimately show ?thesis using Cons(3) by linarith
  qed (use Cons(3) in simp)
qed simp

lemma load_config_file_block:
  assumes "load_config_file n r exec root visited f = Some (Inr y)"
  shows "set (map (\<lambda>c. the (fp_absolute (cf_path c))) (fst y # snd y))
       = {q. (the (fp_absolute f), q) \<in> (extends_rel r root exec)\<^sup>*}"
  using load_config_file_reach_aux[of n r exec root visited f "fst y" "snd y"] assms
  by (auto simp: rtrancl_eq_or_trancl)

lemma get_interface_file_from_config_file_kind:
  "get_interface_file_from_config_file c b = Inr f \<Longrightarrow> is_config_file f \<and> is_config_extend f = b"
  by (auto simp: get_interface_file_from_config_file_def split: sum.splits)

lemma relative_path_agreement:
  assumes "relative_under root absp = Some vp" "\<not> starts_with vp ''/''" and that: "starts_with absp root"
  shows "determine_file_path_relative_to_user_dir absp root = Some (CHR ''/'' # vp)"
proof -
  define rest where "rest = drop (length root) absp"
  have d: "determine_file_path_relative_to_user_dir absp root
      = Some (if starts_with rest ''/'' then rest else CHR ''/'' # rest)"
    using that by (simp add: determine_file_path_relative_to_user_dir_def rest_def)
  have r: "relative_under root absp = (if rest = [] then Some []
      else if root \<noteq> [] \<and> last root = CHR ''/'' then Some rest
      else if hd rest = CHR ''/'' then Some (tl rest) else None)"
    by (simp add: relative_under_def rest_def Let_def)
  show ?thesis
  proof (cases rest)
    case Nil
    then show ?thesis using assms(1) d r by (simp add: starts_with_def)
  next
    case (Cons c cs)
    then show ?thesis using assms(1,2) d r by (auto simp: starts_with_def split: if_splits)
  qed
qed

subsection \<open>Properties of the extends resolver\<close>

text \<open>C11. Termination: when every extends target of a file in a finite set of
  files \<open>U\<close> lies in \<open>U\<close>, \<open>loadConfigFile\<close> on a file of \<open>U\<close> returns (a result or a
  usage error) within \<open>card U + 1\<close> nested calls: the visited stack grows by a new
  file at each level.\<close>

theorem load_config_file_terminates:
  assumes "finite U" "the (fp_absolute fp) \<in> U"
    and "\<forall>p\<in>U. set (extends_targets r root exec p) \<subseteq> U"
  shows "load_config_file (Suc (card U)) r exec root [] fp \<noteq> None"
  using assms by (intro load_config_file_terminates_aux) auto

theorem load_config_file_terminates_witness:
  "load_config_file (Suc (card {''/app/a/+config.js'', ''/app/b/+config.js''})) example_extends_resolver
     (graph_exec example_cycle) ''/app'' [] (abs_file_path ''/app/a/+config.js'') \<noteq> None"
proof (rule load_config_file_terminates)
  show "\<forall>p\<in>{''/app/a/+config.js'', ''/app/b/+config.js''}.
          set (extends_targets example_extends_resolver ''/app'' (graph_exec example_cycle) p)
            \<subseteq> {''/app/a/+config.js'', ''/app/b/+config.js''}"
    by (simp add: extends_targets_def extends_example_defs example_cycle_def)
qed (simp_all add: abs_file_path_def)

text \<open>C9. Cycle detection (spec P5): on a finite closed set of config files,
  \<open>loadConfigFile\<close> fails whenever an extends cycle is reachable from the file it
  loads; by \<open>load_config_file_walks_aux\<close>, a successful load has every extends walk
  from the file free of repetitions.\<close>

theorem extends_cycle_detected:
  assumes "finite U" "the (fp_absolute fp) \<in> U"
    and "\<forall>p\<in>U. set (extends_targets r root exec p) \<subseteq> U"
    and "(the (fp_absolute fp), q) \<in> (extends_rel r root exec)\<^sup>*" "(q, q) \<in> (extends_rel r root exec)\<^sup>+"
  shows "\<exists>e. load_config_file (Suc (card U)) r exec root [] fp = Some (Inl e)"
proof -
  let ?E = "extends_targets r root exec" and ?p = "the (fp_absolute fp)"
  obtain w1 where w1: "is_walk ?E (?p # w1)" "last (?p # w1) = q" using extends_rtrancl_walk[OF assms(4)] by blast
  obtain x where x: "(q, x) \<in> extends_rel r root exec" "(x, q) \<in> (extends_rel r root exec)\<^sup>*"
    using tranclD[OF assms(5)] by blast
  obtain w2 where w2: "is_walk ?E (x # w2)" "last (x # w2) = q" using extends_rtrancl_walk[OF x(2)] by blast
  have "?p # w1 = butlast (?p # w1) @ [last (?p # w1)]" by (rule append_butlast_last_id[symmetric]) simp
  then obtain xs where pw: "?p # w1 = xs @ [q]" using w1(2) by simp
  have "is_walk ?E (xs @ [q])" using w1(1) by (simp only: pw)
  moreover have "is_walk ?E (q # x # w2)" using w2(1) x(1) by (simp add: extends_rel_def)
  ultimately have "is_walk ?E (xs @ q # x # w2)" by (rule is_walk_join)
  moreover have "xs @ q # x # w2 = ?p # (w1 @ x # w2)" using arg_cong[OF pw, of "\<lambda>l. l @ x # w2"] by simp
  ultimately have walk: "is_walk ?E (?p # (w1 @ x # w2))" by simp
  have "q \<in> set (x # w2)" using w2(2) last_in_set[of "x # w2"] by simp
  then have "\<not> distinct (xs @ q # x # w2)" by auto
  then have nd: "\<not> distinct (?p # (w1 @ x # w2))" using \<open>xs @ q # x # w2 = ?p # (w1 @ x # w2)\<close> by simp
  have "load_config_file (Suc (card U)) r exec root [] fp \<noteq> None"
    using assms(1-3) by (intro load_config_file_terminates_aux) auto
  then obtain res where res: "load_config_file (Suc (card U)) r exec root [] fp = Some res" by blast
  show ?thesis
  proof (cases res)
    case (Inr y)
    then have "load_config_file (Suc (card U)) r exec root [] fp = Some (Inr (fst y, snd y))" using res by simp
    from load_config_file_walks_aux[OF this walk] nd show ?thesis by simp
  qed (use res in simp)
qed

theorem extends_cycle_detected_witness:
  "\<exists>e. load_config_file (Suc (card {''/app/a/+config.js'', ''/app/b/+config.js''})) example_extends_resolver
     (graph_exec example_cycle) ''/app'' [] (abs_file_path ''/app/a/+config.js'') = Some (Inl e)"
proof (rule extends_cycle_detected)
  let ?R = "extends_rel example_extends_resolver ''/app'' (graph_exec example_cycle)"
  have "(''/app/a/+config.js'', ''/app/b/+config.js'') \<in> ?R" "(''/app/b/+config.js'', ''/app/a/+config.js'') \<in> ?R"
    by (simp_all add: extends_rel_def extends_targets_def extends_example_defs example_cycle_def)
  then show "(''/app/a/+config.js'', ''/app/a/+config.js'') \<in> ?R\<^sup>+" by (meson trancl.simps)
  show "\<forall>p\<in>{''/app/a/+config.js'', ''/app/b/+config.js''}.
          set (extends_targets example_extends_resolver ''/app'' (graph_exec example_cycle) p)
            \<subseteq> {''/app/a/+config.js'', ''/app/b/+config.js''}"
    by (simp add: extends_targets_def extends_example_defs example_cycle_def)
qed (simp_all add: abs_file_path_def)

text \<open>C10. A loop error names a real cycle: whenever \<open>loadConfigFile\<close> fails with
  the infinite-loop error, the named path starts and ends with the same file and each
  file in it extends the next.\<close>

theorem extends_cycle_error_is_cycle:
  assumes "load_config_file n r exec root [] fp = Some (Inl (ErrInfiniteExtends l))"
  shows "2 \<le> length l \<and> hd l = last l \<and> is_walk (extends_targets r root exec) l"
  using load_config_file_cycle_aux[OF assms] by simp

theorem extends_cycle_error_is_cycle_witness:
  "2 \<le> length [''/app/a/+config.js'', ''/app/b/+config.js'', ''/app/a/+config.js'']
   \<and> hd [''/app/a/+config.js'', ''/app/b/+config.js'', ''/app/a/+config.js'']
     = last [''/app/a/+config.js'', ''/app/b/+config.js'', ''/app/a/+config.js'']
   \<and> is_walk (extends_targets example_extends_resolver ''/app'' (graph_exec example_cycle))
       [''/app/a/+config.js'', ''/app/b/+config.js'', ''/app/a/+config.js'']"
proof (rule extends_cycle_error_is_cycle)
  show "load_config_file 3 example_extends_resolver (graph_exec example_cycle) ''/app'' []
     (abs_file_path ''/app/a/+config.js'')
   = Some (Inl (ErrInfiniteExtends [''/app/a/+config.js'', ''/app/b/+config.js'', ''/app/a/+config.js'']))"
    by (simp add: extends_example_defs example_cycle_def numeral_3_eq_3 Let_def)
qed

text \<open>C12. Completeness of extends: a successful \<open>loadConfigFile\<close> returns as its
  \<open>extendsConfigs\<close> exactly the config files reachable from the file through one or
  more extends.\<close>

theorem load_config_file_reach:
  assumes "load_config_file n r exec root [] fp = Some (Inr (cf, exts))"
  shows "set (map (\<lambda>c. the (fp_absolute (cf_path c))) exts)
           = {q. (the (fp_absolute fp), q) \<in> (extends_rel r root exec)\<^sup>+}"
  using load_config_file_reach_aux[OF assms] by simp

theorem load_config_file_reach_witness:
  "\<exists>cf exts. load_config_file 3 example_extends_resolver (graph_exec example_chain) ''/app'' []
       (abs_file_path ''/app/a/+config.js'') = Some (Inr (cf, exts))
     \<and> set (map (\<lambda>c. the (fp_absolute (cf_path c))) exts)
       = {q. (''/app/a/+config.js'', q) \<in> (extends_rel example_extends_resolver ''/app'' (graph_exec example_chain))\<^sup>+}"
proof -
  obtain cf exts where ok: "load_config_file 3 example_extends_resolver (graph_exec example_chain) ''/app'' []
       (abs_file_path ''/app/a/+config.js'') = Some (Inr (cf, exts))"
    by (simp add: extends_example_defs example_chain_def numeral_3_eq_3)
  show ?thesis using ok load_config_file_reach[OF ok] by (auto simp: abs_file_path_def)
qed

text \<open>C34. Kinds of the loaded interface files: a \<open>+config.js\<close> contributes itself
  as a direct config file, first, and every file reached through extends as an
  extension config file.\<close>

theorem load_config_interface_files_kinds:
  assumes "load_config_interface_files fuel r exec root fp = Some (Inr ifs)"
  shows "ifs \<noteq> [] \<and> is_config_file (hd ifs) \<and> \<not> is_config_extend (hd ifs)
         \<and> (\<forall>f\<in>set (tl ifs). is_config_file f \<and> is_config_extend f)"
proof -
  obtain cf exts where m: "map_err (\<lambda>(c, b). get_interface_file_from_config_file c b)
      ((cf, False) # map (\<lambda>c. (c, True)) exts) = Inr ifs"
    using assms by (auto simp: load_config_interface_files_def split: option.splits sum.splits)
  then obtain f fs where ifs: "ifs = f # fs" and hd: "get_interface_file_from_config_file cf False = Inr f"
    and tl: "map_err (\<lambda>(c, b). get_interface_file_from_config_file c b) (map (\<lambda>c. (c, True)) exts) = Inr fs"
    using map_err_Cons_Inr[OF m] by auto
  have "is_config_file g \<and> is_config_extend g" if "g \<in> set fs" for g
    using map_err_Inr_result[OF tl that] get_interface_file_from_config_file_kind by auto
  then show ?thesis using ifs get_interface_file_from_config_file_kind[OF hd] by simp
qed

theorem load_config_interface_files_kinds_witness:
  "\<exists>ifs. load_config_interface_files 3 example_extends_resolver (graph_exec example_chain) ''/app''
       (abs_file_path ''/app/a/+config.js'') = Some (Inr ifs)
     \<and> ifs \<noteq> [] \<and> is_config_file (hd ifs) \<and> \<not> is_config_extend (hd ifs)
     \<and> (\<forall>f\<in>set (tl ifs). is_config_file f \<and> is_config_extend f)"
proof -
  obtain ifs where ok: "load_config_interface_files 3 example_extends_resolver (graph_exec example_chain) ''/app''
       (abs_file_path ''/app/a/+config.js'') = Some (Inr ifs)"
    by (simp add: load_config_interface_files_def get_interface_file_from_config_file_def
        extends_example_defs example_chain_def numeral_3_eq_3)
  show ?thesis using ok load_config_interface_files_kinds[OF ok] by blast
qed

text \<open>C38. The extended file comes before its nested extends: in the result of a
  successful \<open>loadConfigFile\<close>, the file itself and each of its \<open>extendsConfigs\<close>
  that extends other files is directly followed by the config file of its first
  extends (a depth-first pre-order), while spec 4.2 says the extended file is
  appended after its own nested extends.\<close>

theorem extends_file_before_nested:
  assumes "load_config_file n r exec root [] fp = Some (Inr (cf, exts))"
  shows "extends_preorder (cf # exts)"
  using load_config_file_preorder_aux[OF assms] .

theorem extends_file_before_nested_witness:
  "\<exists>cf exts. load_config_file 3 example_extends_resolver (graph_exec example_diamond) ''/app'' []
       (abs_file_path ''/app/a/+config.js'') = Some (Inr (cf, exts)) \<and> extends_preorder (cf # exts)"
proof -
  obtain cf exts where ok: "load_config_file 3 example_extends_resolver (graph_exec example_diamond) ''/app'' []
       (abs_file_path ''/app/a/+config.js'') = Some (Inr (cf, exts))"
    by (simp add: extends_example_defs example_diamond_def numeral_3_eq_3)
  show ?thesis using ok extends_file_before_nested[OF ok] by blast
qed

text \<open>C39. Extends are not deduplicated: in the result of a successful
  \<open>loadConfigFile\<close>, a file \<open>d\<close> occurs in \<open>extendsConfigs\<close> at least once for each
  direct extends from which \<open>d\<close> is reachable, while spec section 2 says the list of
  inherited config files is deduplicated.\<close>

theorem extends_not_deduplicated:
  assumes "load_config_file n r exec root [] fp = Some (Inr (cf, exts))"
  shows "length (filter (\<lambda>t. (t, d) \<in> (extends_rel r root exec)\<^sup>*) (cf_extends_paths cf))
     \<le> count (mset (map (\<lambda>c. the (fp_absolute (cf_path c))) exts)) d"
proof -
  obtain m efps rs where
    all: "list_all2 (\<lambda>f y. load_config_file m r exec root ([] @ [the (fp_absolute fp)]) f = Some (Inr y)) efps rs"
    and cf: "cf_extends_paths cf = map (\<lambda>f. the (fp_absolute f)) efps"
    and exts: "exts = concat (map (\<lambda>(c, cs). c # cs) rs)"
    by (rule load_config_file_Inr_cases[OF assms]) auto
  let ?abs = "\<lambda>c. the (fp_absolute (cf_path c))"
  have "list_all2 (\<lambda>t b. (t, d) \<in> (extends_rel r root exec)\<^sup>* \<longrightarrow> d \<in> set b)
      (map (\<lambda>f. the (fp_absolute f)) efps) (map (\<lambda>(c, cs). map ?abs (c # cs)) rs)"
    unfolding list_all2_map1 list_all2_map2 using all
    by (rule list_all2_mono) (use load_config_file_block in \<open>fastforce simp: split_beta\<close>)
  moreover have "map ?abs exts = concat (map (\<lambda>(c, cs). map ?abs (c # cs)) rs)"
    using exts by (simp add: map_concat case_prod_unfold comp_def)
  ultimately show ?thesis using count_concat_blocks cf by metis
qed
theorem extends_not_deduplicated_witness:
  "\<exists>cf exts. load_config_file 3 example_extends_resolver (graph_exec example_diamond) ''/app'' []
       (abs_file_path ''/app/a/+config.js'') = Some (Inr (cf, exts))
     \<and> 2 \<le> count (mset (map (\<lambda>c. the (fp_absolute (cf_path c))) exts)) ''/app/d/+config.js''"
proof -
  let ?R = "extends_rel example_extends_resolver ''/app'' (graph_exec example_diamond)"
  obtain cf exts where ok: "load_config_file 3 example_extends_resolver (graph_exec example_diamond) ''/app'' []
       (abs_file_path ''/app/a/+config.js'') = Some (Inr (cf, exts))"
    by (simp add: extends_example_defs example_diamond_def numeral_3_eq_3)
  have tg: "cf_extends_paths cf = [''/app/b/+config.js'', ''/app/c/+config.js'']"
    using ok by (simp add: extends_example_defs example_diamond_def numeral_3_eq_3) (elim conjE, hypsubst, simp)
  have "(''/app/b/+config.js'', ''/app/d/+config.js'') \<in> ?R" "(''/app/c/+config.js'', ''/app/d/+config.js'') \<in> ?R"
    by (simp_all add: extends_rel_def extends_targets_def extends_example_defs example_diamond_def)
  then have "length (filter (\<lambda>t. (t, ''/app/d/+config.js'') \<in> ?R\<^sup>*) (cf_extends_paths cf)) = 2"
    using tg by (simp add: r_into_rtrancl)
  then show ?thesis using ok extends_not_deduplicated[OF ok, of "''/app/d/+config.js''"] by auto
qed

text \<open>C13. Equivalence of the two root-relative path computations: wherever
  \<open>getVitePathFromAbsolutePath\<close> (used for imports) accepts a file under the user root
  directory, \<open>determineFilePathRelativeToUserDir\<close> (used for extended config files)
  computes the same root-relative path.\<close>

theorem relative_paths_agree:
  assumes "starts_with absp root" "Resolution.get_vite_path_from_absolute_path absp root = Inr v"
  shows "determine_file_path_relative_to_user_dir absp root = Some v"
  using assms relative_path_agreement[of root absp]
  by (auto simp: get_vite_path_from_absolute_path_def split: option.splits if_splits)

theorem relative_paths_agree_witness:
  "determine_file_path_relative_to_user_dir ''/app/pages/+config.js'' ''/app'' = Some ''/pages/+config.js''"
  using relative_paths_agree[of "''/app/pages/+config.js''" "''/app''" "''/pages/+config.js''"]
  by (simp add: starts_with_def get_vite_path_from_absolute_path_def relative_under_def)

lemma relative_path_beside_root:
  "determine_file_path_relative_to_user_dir ''/app2/+config.js'' ''/app'' = Some ''/2/+config.js''
   \<and> Resolution.get_vite_path_from_absolute_path ''/app2/+config.js'' ''/app'' = Inl InvariantViolation"
  by (simp add: determine_file_path_relative_to_user_dir_def starts_with_def
      get_vite_path_from_absolute_path_def relative_under_def)

end
