(* ===== verification/Validation.thy ===== *)
theory Validation
  imports Resolution Locations Registry Cumulative
begin

text \<open>
  Validation and Diagnostics of \<open>getVikeConfig.ts\<close>: \<open>isGlobalConfig\<close>,
  \<open>assertConfigExists\<close> and \<open>handleUnknownConfig\<close>, the placement check and the
  values of \<open>getGlobalConfigs\<close>, the unknown-config pass at the end of
  \<open>loadVikeConfig\<close>, \<open>interfacefileIsAlreaydLoaded\<close> and \<open>isDefiningPage\<close>. The
  built-in global definitions (\<open>configDefinitionsBuiltInGlobal\<close>) are a parameter,
  and so is \<open>getMostSimilar\<close> (a utility outside the sources), which proposes a
  known name close to an unknown one.
\<close>

text \<open>\<open>getFilePathToShowToUser\<close> (outside the sources): the path relative to the user
  root, else the import path.\<close>

definition get_file_path_to_show_to_user :: "file_path \<Rightarrow> string" where
  "get_file_path_to_show_to_user fp =
     (case fp_relative fp of Some p \<Rightarrow> p | None \<Rightarrow> (case fp_import_abs fp of Some p \<Rightarrow> p | None \<Rightarrow> []))"

text \<open>Node's \<open>path.posix.dirname\<close> on file paths.\<close>

definition path_dirname :: "string \<Rightarrow> string" where
  "path_dirname s =
     (let d = rev (tl (dropWhile (\<lambda>c. c \<noteq> CHR ''/'') (rev s))) in
      if CHR ''/'' \<notin> set s then ''.'' else if d = [] then ''/'' else d)"

text \<open>\<open>isGlobalConfig\<close>: \<open>prerender\<close> is never global.\<close>

definition is_global_config :: "config_name list \<Rightarrow> config_name \<Rightarrow> bool" where
  "is_global_config gnames cn \<longleftrightarrow> cn \<noteq> ''prerender'' \<and> cn \<in> set gnames"

text \<open>\<open>handleUnknownConfig\<close>: the error, with a suggestion (\<open>Page\<close> for \<open>page\<close>,
  else the most similar known name); the two assertions are invariant violations.\<close>

definition handle_unknown_config ::
  "(config_name \<Rightarrow> config_name list \<Rightarrow> config_name option) \<Rightarrow> config_name \<Rightarrow> config_name list \<Rightarrow> string \<Rightarrow> error" where
  "handle_unknown_config most_similar cn names file =
     (let similar = (if cn = ''page'' then Some ''Page'' else most_similar cn names) in
      if similar \<noteq> None \<or> cn = ''page'' then
        (case similar of
           None \<Rightarrow> InvariantViolation
         | Some s \<Rightarrow> if s = cn then InvariantViolation else ErrUnknownConfig file cn (Some s))
      else ErrUnknownConfig file cn None)"

text \<open>\<open>assertConfigExists\<close>: the relevant and the global names are known.\<close>

definition assert_config_exists ::
  "config_name list \<Rightarrow> (config_name \<Rightarrow> config_name list \<Rightarrow> config_name option) \<Rightarrow> config_name
   \<Rightarrow> config_name list \<Rightarrow> string \<Rightarrow> error + unit" where
  "assert_config_exists gnames most_similar cn relevant file =
     (let names = relevant @ gnames in
      if cn \<in> set names then Inr () else Inl (handle_unknown_config most_similar cn names file))"

text \<open>\<open>interfaceFilesGlobal\<close>: the locations that are ancestors of every location.\<close>

definition global_locations ::
  "(location_id \<times> interface_file list) list \<Rightarrow> (location_id \<times> interface_file list) list" where
  "global_locations by_loc = filter (\<lambda>e. is_global_location (fst e) (map fst by_loc)) by_loc"

text \<open>\<open>globalPaths\<close>: the directories of the global interface files, without
  duplicates, in order of first occurrence.\<close>

definition global_paths :: "(location_id \<times> interface_file list) list \<Rightarrow> string list" where
  "global_paths by_loc =
     union_first (map path_dirname
       (concat (map (\<lambda>e. List.map_filter (\<lambda>f. fp_relative (if_path f)) (snd e)) (global_locations by_loc))))"

text \<open>The validation block of \<open>getGlobalConfigs\<close>: a global config set at a
  non-global location is a usage error naming the global directories.\<close>

definition check_global_placement ::
  "config_name list \<Rightarrow> (location_id \<times> interface_file list) list \<Rightarrow> error + unit" where
  "check_global_placement gnames by_loc =
     (let locs = map fst by_loc; paths = global_paths by_loc in
      for_each_err (\<lambda>e. for_each_err (\<lambda>f. for_each_err (\<lambda>cn.
          if \<not> is_global_location (fst e) locs \<and> is_global_config gnames cn
          then Inl (ErrGlobalConfig (get_file_path_to_show_to_user (if_path f)) cn paths) else Inr ())
        (map fst (if_config_map f))) (snd e)) by_loc)"

text \<open>\<open>typeof v === \'boolean\'\<close>.\<close>

fun is_bool :: "jsval \<Rightarrow> bool" where
  "is_bool (JBool _) = True"
| "is_bool _ = False"

type_synonym global_result = "config_value_sources \<times> (config_name \<times> jsval) list"

text \<open>One built-in global config in \<open>getGlobalConfigs\<close>, from its first source:
  \<open>onBeforeRoute\<close> and \<open>onPrerenderStart\<close> go to \<open>pageConfigGlobal\<close> (imported,
  so without value), a boolean \<open>prerender\<close> is skipped, any other value goes to
  \<open>globalVikeConfig\<close>.\<close>

definition global_config_record ::
  "config_name \<Rightarrow> global_result \<Rightarrow> config_value_source list option \<Rightarrow> error + global_result" where
  "global_config_record cn acc srcs =
     (case srcs of
        None \<Rightarrow> Inr acc
      | Some [] \<Rightarrow> Inr acc
      | Some (s # _) \<Rightarrow>
          if cn = ''onBeforeRoute'' \<or> cn = ''onPrerenderStart'' then
            (if cvs_value s \<noteq> None then Inl InvariantViolation
             else Inr (AList.update cn [s] (fst acc), snd acc))
          else (case cvs_value s of
                  None \<Rightarrow> Inl InvariantViolation
                | Some v \<Rightarrow>
                    if cn = ''prerender'' \<and> is_bool v then Inr acc
                    else if cvs_computed s then Inl InvariantViolation
                    else if (case cvs_defined_at s of None \<Rightarrow> True
                             | Some dai \<Rightarrow> get_defined_at_file_path_to_show_to_user dai = None)
                    then Inl InvariantViolation
                    else Inr (fst acc, AList.update cn v (snd acc))))"

text \<open>Resolving a global config over the global locations, then recording it.\<close>

definition global_config_of ::
  "resolver \<Rightarrow> string \<Rightarrow> (location_id \<times> interface_file list) list \<Rightarrow> config_name \<times> config_def
   \<Rightarrow> global_result \<Rightarrow> files_env \<Rightarrow> error + (global_result \<times> files_env)" where
  "global_config_of r root globals nd acc fe =
     bind_st (resolve_config_value_sources r root (fst nd) (snd nd) globals fe) (\<lambda>(srcs, ws) fe'.
       case global_config_record (fst nd) acc srcs of Inl e \<Rightarrow> Inl e | Inr acc' \<Rightarrow> Inr (acc', fe'))"

text \<open>The loop over \<open>configDefinitionsBuiltInGlobal\<close>, threading \<open>filesEnv\<close>.\<close>

fun global_configs_loop ::
  "resolver \<Rightarrow> string \<Rightarrow> (location_id \<times> interface_file list) list \<Rightarrow> config_defs
   \<Rightarrow> global_result \<Rightarrow> files_env \<Rightarrow> error + (global_result \<times> files_env)" where
  "global_configs_loop r root globals [] acc fe = Inr (acc, fe)"
| "global_configs_loop r root globals (nd # nds) acc fe =
     bind_st (global_config_of r root globals nd acc fe) (\<lambda>acc' fe'. global_configs_loop r root globals nds acc' fe')"

text \<open>\<open>getGlobalConfigs\<close>.\<close>

definition get_global_configs ::
  "resolver \<Rightarrow> string \<Rightarrow> config_defs \<Rightarrow> (location_id \<times> interface_file list) list
   \<Rightarrow> files_env \<Rightarrow> error + (global_result \<times> files_env)" where
  "get_global_configs r root gdefs by_loc fe =
     (case check_global_placement (map fst gdefs) by_loc of
        Inl e \<Rightarrow> Inl e
      | Inr _ \<Rightarrow> global_configs_loop r root (global_locations by_loc) gdefs ([], []) fe)"

text \<open>The unknown-config pass of \<open>loadVikeConfig\<close>: every config name of every
  interface file must be known at its location.\<close>

definition assert_known_configs ::
  "config_defs \<Rightarrow> config_defs \<Rightarrow> (config_name \<Rightarrow> config_name list \<Rightarrow> config_name option)
   \<Rightarrow> (location_id \<times> interface_file list) list \<Rightarrow> error + unit" where
  "assert_known_configs builtins gdefs most_similar by_loc =
     for_each_err (\<lambda>e.
       case get_config_definitions builtins (get_interface_files_relevant by_loc (fst e)) of
         Inl err \<Rightarrow> Inl err
       | Inr defs \<Rightarrow>
           for_each_err (\<lambda>f. for_each_err (\<lambda>cn.
               assert_config_exists (map fst gdefs) most_similar cn (map fst defs)
                 (get_file_path_to_show_to_user (if_path f)))
             (map fst (if_config_map f))) (snd e)) by_loc"

text \<open>\<open>interfacefileIsAlreaydLoaded\<close>: some entry carries its value; then all must.\<close>

definition interfacefile_is_already_loaded :: "interface_file \<Rightarrow> error + bool" where
  "interfacefile_is_already_loaded f =
     (let vals = map snd (if_config_map f) in
      if list_ex (\<lambda>c. c \<noteq> None) vals
      then (if list_all (\<lambda>c. c \<noteq> None) vals then Inr True else Inl InvariantViolation)
      else Inr False)"

text \<open>What a global result may hold: imported \<open>onBeforeRoute\<close> and
  \<open>onPrerenderStart\<close> sources, and values of the other global configs, never a
  boolean \<open>prerender\<close>.\<close>

definition global_result_ok :: "config_name list \<Rightarrow> global_result \<Rightarrow> bool" where
  "global_result_ok names res \<longleftrightarrow>
     list_all (\<lambda>(cn, ss). cn \<in> set names \<and> cn \<in> set [''onBeforeRoute'', ''onPrerenderStart'']
                        \<and> length ss = 1 \<and> cvs_value (hd ss) = None) (fst res)
     \<and> list_all (\<lambda>(cn, v). cn \<in> set names \<and> cn \<notin> set [''onBeforeRoute'', ''onPrerenderStart'']
                        \<and> \<not> (cn = ''prerender'' \<and> is_bool v)) (snd res)"

text \<open>\<open>isDefiningPageConfig\<close> and \<open>isDefiningPage\<close>.\<close>

definition is_defining_page_config :: "config_name \<Rightarrow> bool" where
  "is_defining_page_config cn \<longleftrightarrow> cn \<in> set [''Page'', ''route'']"

definition is_defining_page :: "interface_file list \<Rightarrow> bool" where
  "is_defining_page fs \<longleftrightarrow> list_ex (\<lambda>f. list_ex is_defining_page_config (map fst (if_config_map f))) fs"

text \<open>Inputs for the witnesses: a \<open>+config.js\<close> at \<open>/pages\<close> setting the global
  configs \<open>trailingSlash\<close> and \<open>prerender\<close> (a boolean) and the page config
  \<open>title\<close>, and a page \<open>/pages/about\<close> whose \<open>+config.js\<close> sets the global config
  \<open>trailingSlash\<close> where it is not allowed.\<close>

definition example_plain_def :: config_def where
  "example_plain_def = \<lparr>cd_env = ConfigOnly, cd_cumulative = False, cd_effect = None, cd_computed = None,
                         cd_value_is_file_path = False\<rparr>"

definition example_global_defs :: config_defs where
  "example_global_defs = [(''trailingSlash'', example_plain_def), (''prerender'', example_plain_def)]"

definition example_config_at :: "string \<Rightarrow> (config_name \<times> jsval option) list \<Rightarrow> interface_file" where
  "example_config_at dir m =
     \<lparr>if_path = \<lparr>fp_absolute = Some (''/r'' @ dir @ ''/+config.js''), fp_relative = Some (dir @ ''/+config.js''),
                 fp_import_abs = None\<rparr>,
      if_config_map = m, if_kind = ConfigFileKind [] False\<rparr>"

definition example_global_locs :: "(location_id \<times> interface_file list) list" where
  "example_global_locs =
     [([''pages''], [example_config_at ''/pages''
        [(''trailingSlash'', Some (JBool True)), (''prerender'', Some (JBool False)), (''title'', Some (JStr ''T''))]]),
      ([''pages'', ''about''], [example_config_at ''/pages/about'' [(''title'', Some (JStr ''About''))]])]"

definition example_misplaced_locs :: "(location_id \<times> interface_file list) list" where
  "example_misplaced_locs =
     [([''pages''], [example_config_at ''/pages'' [(''title'', Some (JStr ''T''))]]),
      ([''pages'', ''about''], [example_config_at ''/pages/about'' [(''trailingSlash'', Some (JBool True))]])]"

lemmas validation_example_defs = example_plain_def_def example_global_defs_def example_config_at_def
  example_global_locs_def example_misplaced_locs_def

subsection \<open>Lemmas\<close>

lemma check_global_placement_Inr:
  "check_global_placement gn by_loc = Inr () \<longleftrightarrow>
     (\<forall>e\<in>set by_loc. \<forall>f\<in>set (snd e). \<forall>cn\<in>set (map fst (if_config_map f)).
        is_global_config gn cn \<longrightarrow> is_global_location (fst e) (map fst by_loc))"
  by (auto simp: check_global_placement_def for_each_err_Inr split: if_splits)

lemma check_global_placement_Inl:
  "check_global_placement gn by_loc = Inl e \<Longrightarrow> \<exists>fname cn. e = ErrGlobalConfig fname cn (global_paths by_loc)"
  unfolding check_global_placement_def Let_def
  by (fastforce split: if_splits dest!: for_each_err_Inl)

lemma global_paths_mem:
  assumes "(lg, gfs) \<in> set by_loc" "is_global_location lg (map fst by_loc)" "g \<in> set gfs"
    and "fp_relative (if_path g) = Some p"
  shows "path_dirname p \<in> set (global_paths by_loc)"
proof -
  have "(lg, gfs) \<in> set (global_locations by_loc)" using assms(1,2) by (simp add: global_locations_def)
  then show ?thesis using assms(3,4)
    by (force simp: global_paths_def set_union_first List.map_filter_def)
qed

lemma global_config_record_cases:
  assumes "global_config_record cn acc srcs = Inr acc'"
  shows "acc' = acc
    \<or> (cn \<in> set [''onBeforeRoute'', ''onPrerenderStart''] \<and> (\<exists>s. cvs_value s = None \<and> acc' = (AList.update cn [s] (fst acc), snd acc)))
    \<or> (cn \<notin> set [''onBeforeRoute'', ''onPrerenderStart''] \<and> (\<exists>v. \<not> (cn = ''prerender'' \<and> is_bool v) \<and> acc' = (fst acc, AList.update cn v (snd acc))))"
proof (cases srcs)
  case (Some ss)
  show ?thesis
  proof (cases ss)
    case (Cons s rest)
    then show ?thesis using assms Some
      by (cases "cvs_value s") (auto simp: global_config_record_def split: if_splits)
  qed (use assms Some in \<open>simp add: global_config_record_def\<close>)
qed (use assms in \<open>simp add: global_config_record_def\<close>)

lemma global_config_of_Inr:
  assumes "global_config_of r root globals nd acc fe = Inr (acc', fe')"
  shows "\<exists>srcs. global_config_record (fst nd) acc srcs = Inr acc'"
proof -
  obtain srcs fe1 where
    "(case global_config_record (fst nd) acc srcs of Inl e \<Rightarrow> Inl e | Inr a \<Rightarrow> Inr (a, fe1)) = Inr (acc', fe')"
    using assms by (auto simp: global_config_of_def bind_st_eq_Inr)
  then show ?thesis by (auto split: sum.splits)
qed

lemma global_configs_loop_ok:
  "global_configs_loop r root globals nds acc fe = Inr (res, fe') \<Longrightarrow> set (map fst nds) \<subseteq> set names
     \<Longrightarrow> global_result_ok names acc \<Longrightarrow> global_result_ok names res"
proof (induction nds arbitrary: acc fe)
  case (Cons nd nds)
  obtain cn d where nd: "nd = (cn, d)" by fastforce
  obtain acc1 fe1 where s1: "global_config_of r root globals (cn, d) acc fe = Inr (acc1, fe1)"
    and s2: "global_configs_loop r root globals nds acc1 fe1 = Inr (res, fe')"
    using Cons.prems(1) nd by (auto simp: bind_st_eq_Inr)
  have cn: "cn \<in> set names" using Cons.prems(2) nd by simp
  obtain srcs where c: "global_config_record cn acc srcs = Inr acc1"
    using global_config_of_Inr[OF s1] by auto
  have "global_result_ok names acc1"
    using global_config_record_cases[OF c]
  proof (elim disjE conjE exE)
    fix s assume "cn \<in> set [''onBeforeRoute'', ''onPrerenderStart'']" "cvs_value s = None"
      and "acc1 = (AList.update cn [s] (fst acc), snd acc)"
    then show ?thesis using Cons.prems(3) cn by (simp add: global_result_ok_def list_all_update)
  next
    fix v assume "cn \<notin> set [''onBeforeRoute'', ''onPrerenderStart'']" "\<not> (cn = ''prerender'' \<and> is_bool v)"
      and "acc1 = (fst acc, AList.update cn v (snd acc))"
    then show ?thesis using Cons.prems(3) cn by (simp add: global_result_ok_def list_all_update)
  qed (use Cons.prems(3) in simp)
  then show ?case using Cons.IH[OF s2] Cons.prems(2) by simp
qed simp

lemma assert_config_exists_Inr:
  "assert_config_exists gn ms cn rel fname = Inr () \<longleftrightarrow> cn \<in> set rel \<or> cn \<in> set gn"
  by (simp add: assert_config_exists_def)

subsection \<open>Properties of the validation\<close>

text \<open>C14. Global configs only at global locations (spec P9): after the check of
  \<open>getGlobalConfigs\<close> passes, every interface file that sets a global config lies at
  a global location.\<close>

theorem check_global_placement_sound:
  assumes "check_global_placement gn by_loc = Inr ()" and "(l, fs) \<in> set by_loc" and "f \<in> set fs"
    and "cn \<in> set (map fst (if_config_map f))" and "is_global_config gn cn"
  shows "is_global_location l (map fst by_loc)"
  using assms by (force simp: check_global_placement_Inr)

theorem check_global_placement_sound_witness:
  "is_global_location [''pages''] (map fst example_global_locs)"
proof (rule check_global_placement_sound)
  show "check_global_placement (map fst example_global_defs) example_global_locs = Inr ()"
    by (simp add: check_global_placement_def validation_example_defs is_global_config_def
        is_global_location_def is_inherited_def)
  show "([''pages''], [example_config_at ''/pages''
        [(''trailingSlash'', Some (JBool True)), (''prerender'', Some (JBool False)), (''title'', Some (JStr ''T''))]])
        \<in> set example_global_locs" by (simp add: example_global_locs_def)
  show "''trailingSlash'' \<in> set (map fst (if_config_map (example_config_at ''/pages''
        [(''trailingSlash'', Some (JBool True)), (''prerender'', Some (JBool False)), (''title'', Some (JStr ''T''))])))"
    by (simp add: example_config_at_def)
  show "is_global_config (map fst example_global_defs) ''trailingSlash''"
    by (simp add: is_global_config_def example_global_defs_def)
qed simp

text \<open>A misplaced global config is an error naming where it belongs (spec
  P9): when a file at a non-global location sets a global config, the check fails with
  the global-config error, whose list names the directory of every global interface
  file.\<close>

theorem check_global_placement_names_global_dirs:
  assumes "(l, fs) \<in> set by_loc" and "f \<in> set fs" and "cn \<in> set (map fst (if_config_map f))"
    and "is_global_config gn cn" and "\<not> is_global_location l (map fst by_loc)"
  shows "\<exists>fname cn' paths. check_global_placement gn by_loc = Inl (ErrGlobalConfig fname cn' paths)
           \<and> (\<forall>lg gfs g p. (lg, gfs) \<in> set by_loc \<and> is_global_location lg (map fst by_loc) \<and> g \<in> set gfs
                \<and> fp_relative (if_path g) = Some p \<longrightarrow> path_dirname p \<in> set paths)"
proof -
  obtain e where "check_global_placement gn by_loc = Inl e"
    using assms check_global_placement_Inr[of gn by_loc] by (cases "check_global_placement gn by_loc") force+
  moreover obtain fname cn' where "e = ErrGlobalConfig fname cn' (global_paths by_loc)"
    using check_global_placement_Inl[OF calculation] by blast
  ultimately show ?thesis using global_paths_mem by blast
qed

theorem check_global_placement_names_global_dirs_witness:
  "\<exists>fname cn' paths.
     check_global_placement (map fst example_global_defs) example_misplaced_locs = Inl (ErrGlobalConfig fname cn' paths)
     \<and> (\<forall>lg gfs g p. (lg, gfs) \<in> set example_misplaced_locs \<and> is_global_location lg (map fst example_misplaced_locs)
          \<and> g \<in> set gfs \<and> fp_relative (if_path g) = Some p \<longrightarrow> path_dirname p \<in> set paths)"
proof (rule check_global_placement_names_global_dirs)
  show "([''pages'', ''about''], [example_config_at ''/pages/about'' [(''trailingSlash'', Some (JBool True))]])
        \<in> set example_misplaced_locs" by (simp add: example_misplaced_locs_def)
  show "''trailingSlash'' \<in> set (map fst (if_config_map
          (example_config_at ''/pages/about'' [(''trailingSlash'', Some (JBool True))])))"
    by (simp add: example_config_at_def)
  show "is_global_config (map fst example_global_defs) ''trailingSlash''"
    by (simp add: is_global_config_def example_global_defs_def)
  show "\<not> is_global_location [''pages'', ''about''] (map fst example_misplaced_locs)"
    by (simp add: example_misplaced_locs_def is_global_location_def is_inherited_def)
qed simp

text \<open>Unknown \<open>page\<close> suggests \<open>Page\<close> (spec P6): when \<open>page\<close> is not a
  known config, \<open>assertConfigExists\<close> fails with the unknown-config error suggesting
  \<open>Page\<close>, whatever the similarity search proposes.\<close>

theorem unknown_page_suggests_Page:
  assumes "''page'' \<notin> set rel" and "''page'' \<notin> set gn"
  shows "assert_config_exists gn ms ''page'' rel fname = Inl (ErrUnknownConfig fname ''page'' (Some ''Page''))"
  using assms by (simp add: assert_config_exists_def handle_unknown_config_def)

theorem unknown_page_suggests_Page_witness:
  "assert_config_exists (map fst example_global_defs) (\<lambda>cn names. None) ''page'' [''Page'', ''title'']
     ''/pages/+page.js'' = Inl (ErrUnknownConfig ''/pages/+page.js'' ''page'' (Some ''Page''))"
  by (rule unknown_page_suggests_Page) (simp_all add: example_global_defs_def)

text \<open>C32. The global result is well formed: after \<open>getGlobalConfigs\<close>,
  \<open>pageConfigGlobal\<close> holds one imported source for \<open>onBeforeRoute\<close> or
  \<open>onPrerenderStart\<close> only, and \<open>globalVikeConfig\<close> holds values of the other
  built-in global configs, never a boolean \<open>prerender\<close>.\<close>

theorem get_global_configs_result_ok:
  assumes "get_global_configs r root gdefs by_loc fe = Inr (res, fe')"
  shows "global_result_ok (map fst gdefs) res"
proof -
  have "global_configs_loop r root (global_locations by_loc) gdefs ([], []) fe = Inr (res, fe')"
    using assms by (simp add: get_global_configs_def split: sum.splits)
  then show ?thesis by (rule global_configs_loop_ok) (simp_all add: global_result_ok_def)
qed

theorem get_global_configs_result_ok_witness:
  "\<exists>res fe'. get_global_configs example_resolver ''/r'' example_global_defs example_global_locs Map.empty
       = Inr (res, fe') \<and> global_result_ok (map fst example_global_defs) res"
proof -
  obtain res fe' where ok:
    "get_global_configs example_resolver ''/r'' example_global_defs example_global_locs Map.empty = Inr (res, fe')"
    by (simp add: get_global_configs_def check_global_placement_def global_locations_def
        validation_example_defs is_global_config_def is_global_location_def is_inherited_def
        global_config_of_def global_config_record_def get_defined_at_file_path_to_show_to_user_def
        example_resolver_def resolution_defs assert_file_env_def)
  show ?thesis using ok get_global_configs_result_ok[OF ok] by blast
qed

text \<open>C33. Every config set is declared: after the unknown-config pass of
  \<open>loadVikeConfig\<close>, each config name of each interface file is built in, global, or
  declared in the \<open>meta\<close> of a file at a location the file's location inherits from.\<close>

theorem known_configs_declared:
  assumes "assert_known_configs builtins gdefs ms by_loc = Inr ()" and "(l, fs) \<in> set by_loc"
    and "f \<in> set fs" and "cn \<in> set (map fst (if_config_map f))"
  shows "cn \<in> fst ` set builtins \<or> cn \<in> fst ` set gdefs
    \<or> (\<exists>(l', fs') \<in> set by_loc. is_inherited l' l \<and> (\<exists>g\<in>set fs'. cn \<in> set (meta_names g)))"
proof -
  let ?rel = "get_interface_files_relevant by_loc l"
  have h: "(case get_config_definitions builtins ?rel of
              Inl err \<Rightarrow> Inl err
            | Inr defs \<Rightarrow> for_each_err (\<lambda>f. for_each_err (\<lambda>cn.
                 assert_config_exists (map fst gdefs) ms cn (map fst defs)
                   (get_file_path_to_show_to_user (if_path f))) (map fst (if_config_map f))) fs) = Inr ()"
    using bspec[OF assms(1)[unfolded assert_known_configs_def for_each_err_Inr] assms(2)] by (auto split: sum.splits)
  then obtain defs where defs: "get_config_definitions builtins ?rel = Inr defs"
    by (cases "get_config_definitions builtins ?rel") auto
  with h have "assert_config_exists (map fst gdefs) ms cn (map fst defs)
                 (get_file_path_to_show_to_user (if_path f)) = Inr ()"
    using assms(3,4) by (force simp: for_each_err_Inr)
  then have known: "cn \<in> fst ` set defs \<or> cn \<in> fst ` set gdefs"
    by (simp add: assert_config_exists_Inr)
  have names: "fst ` set defs = fst ` set builtins \<union> set (concat (map meta_names (concat (map snd ?rel))))"
    using apply_meta_of_files_keys defs unfolding get_config_definitions_def by blast
  show ?thesis
  proof (cases "cn \<in> fst ` set builtins \<or> cn \<in> fst ` set gdefs")
    case False
    then have "cn \<in> set (concat (map meta_names (concat (map snd ?rel))))" using known names by blast
    then obtain e g where e: "e \<in> set ?rel" and g: "g \<in> set (snd e)" "cn \<in> set (meta_names g)"
      by auto
    from e have "e \<in> set by_loc" "is_inherited (fst e) l" by simp_all
    then show ?thesis using g by (intro disjI2 bexI[of _ e]) (auto simp: split_beta)
  qed blast
qed

theorem known_configs_declared_witness:
  "''title'' \<in> fst ` set [(''title'', example_plain_def)] \<or> ''title'' \<in> fst ` set example_global_defs
    \<or> (\<exists>(l', fs') \<in> set example_global_locs. is_inherited l' [''pages'', ''about'']
         \<and> (\<exists>g\<in>set fs'. ''title'' \<in> set (meta_names g)))"
proof (rule known_configs_declared)
  show "assert_known_configs [(''title'', example_plain_def)] example_global_defs (\<lambda>cn names. None)
          example_global_locs = Inr ()"
    by (simp add: assert_known_configs_def validation_example_defs get_interface_files_relevant_def
        inheritance_key_def is_inherited_def get_config_definitions_def apply_meta_of_file_def
        assert_config_exists_def)
  show "([''pages'', ''about''], [example_config_at ''/pages/about'' [(''title'', Some (JStr ''About''))]])
        \<in> set example_global_locs" by (simp add: example_global_locs_def)
  show "''title'' \<in> set (map fst (if_config_map (example_config_at ''/pages/about'' [(''title'', Some (JStr ''About''))])))"
    by (simp add: example_config_at_def)
qed simp

end
