(* ===== verification/Reload.thy ===== *)
theory Reload
  imports Prelude
begin

text \<open>
  The reload lifecycle of \<open>getVikeConfig.ts\<close> in the dev server: the module state
  (\<open>vikeConfigPromise\<close>, \<open>devServerIsCorrupt\<close>, \<open>wasConfigInvalid\<close> and the
  flag \<open>isConfigInvalid\<close> of \<open>isConfigInvalid.ts\<close>), \<open>reloadVikeConfig\<close>,
  \<open>handleReloadSideEffects\<close>, \<open>getVikeConfig\<close> and the way
  \<open>loadVikeConfig_withErrorHandling\<close> settles. A pass (one call of
  \<open>loadVikeConfig_withErrorHandling\<close>) is numbered by the order it started; what it
  computes is abstracted to whether it succeeds. The asynchrony is an event datatype:
  starting a pass, a pass settling, and a suspended \<open>handleReloadSideEffects\<close>
  resuming after its \<open>await\<close>; any interleaving of the events is a run. The
  logging calls are entries of a log; the Vite restart is the entry \<open>LogRestart\<close>.
\<close>

text \<open>How a pass settled (\<open>hasError\<close>).\<close>

datatype pass_status = Running | Succeeded | Failed

text \<open>One call of \<open>loadVikeConfig_withErrorHandling(..., isDev, ..., tolerateInvalidConfig)\<close>.\<close>

record pass =
  ps_dev :: bool
  ps_tolerate :: bool
  ps_status :: pass_status

text \<open>\<open>logConfigError\<close>, \<open>logConfigErrorRecover\<close> and the dev-server restart.\<close>

datatype log_entry = LogConfigError nat | LogRecover | LogRestart

text \<open>The module state; \<open>rs_handlers\<close> holds, for each suspended
  \<open>handleReloadSideEffects\<close>, the pass its \<open>vikeConfigPromisePrevious\<close> holds.\<close>

record reload_state =
  rs_promise :: "nat option"
  rs_passes :: "pass list"
  rs_invalid :: bool
  rs_was_invalid :: "bool option"
  rs_corrupt :: bool
  rs_handlers :: "nat list"
  rs_log :: "log_entry list"

text \<open>The state when the module is loaded.\<close>

definition init_reload :: reload_state where
  "init_reload = \<lparr>rs_promise = None, rs_passes = [], rs_invalid = False, rs_was_invalid = None,
                   rs_corrupt = False, rs_handlers = [], rs_log = []\<rparr>"

text \<open>The events of a run.\<close>

datatype reload_event = Reload | GetConfig bool bool | Complete nat bool | Resume nat

text \<open>\<open>vikeConfigPromise = loadVikeConfig_withErrorHandling(...)\<close>.\<close>

definition start_pass :: "bool \<Rightarrow> bool \<Rightarrow> reload_state \<Rightarrow> reload_state" where
  "start_pass dev tol s =
     s\<lparr>rs_promise := Some (length (rs_passes s)),
       rs_passes := rs_passes s @ [\<lparr>ps_dev = dev, ps_tolerate = tol, ps_status = Running\<rparr>]\<rparr>"

text \<open>\<open>reloadVikeConfig\<close> with the synchronous part of
  \<open>handleReloadSideEffects\<close> up to its \<open>await\<close> (the pass-scoped tables it clears are
  inside the abstracted passes).\<close>

definition reload_vike_config :: "reload_state \<Rightarrow> reload_state" where
  "reload_vike_config s =
     (let s1 = start_pass True True s in
      s1\<lparr>rs_was_invalid := Some (rs_invalid s1), rs_handlers := rs_handlers s1 @ [the (rs_promise s1)]\<rparr>)"

text \<open>\<open>getVikeConfig\<close>: the pass is memoised.\<close>

definition get_vike_config :: "bool \<Rightarrow> bool \<Rightarrow> reload_state \<Rightarrow> reload_state" where
  "get_vike_config dev tol s = (if rs_promise s = None then start_pass dev tol s else s)"

text \<open>A pass settles: \<open>isConfigInvalid_set\<close>, and on a dev error the log entry
  and, without \<open>tolerateInvalidConfig\<close>, \<open>devServerIsCorrupt = true\<close>.\<close>

definition complete_pass :: "nat \<Rightarrow> bool \<Rightarrow> reload_state \<Rightarrow> reload_state option" where
  "complete_pass n ok s =
     (if n < length (rs_passes s) \<and> ps_status (rs_passes s ! n) = Running then
        (let p = rs_passes s ! n;
             s1 = s\<lparr>rs_passes := (rs_passes s)[n := p\<lparr>ps_status := if ok then Succeeded else Failed\<rparr>]\<rparr> in
         if ok then Some (s1\<lparr>rs_invalid := False\<rparr>)
         else if \<not> ps_dev p then Some (s1\<lparr>rs_invalid := True\<rparr>)
         else Some (s1\<lparr>rs_invalid := True, rs_log := rs_log s1 @ [LogConfigError n],
                       rs_corrupt := (rs_corrupt s1 \<or> \<not> ps_tolerate p)\<rparr>))
      else None)"

text \<open>\<open>handleReloadSideEffects\<close> after its \<open>await\<close>: nothing when a later reload
  replaced the promise; else, when the config is valid, the recovery message and the
  restart of a corrupt dev server.\<close>

definition resume_handler :: "nat \<Rightarrow> reload_state \<Rightarrow> reload_state option" where
  "resume_handler n s =
     (if n \<in> set (rs_handlers s) \<and> n < length (rs_passes s) \<and> ps_status (rs_passes s ! n) \<noteq> Running then
        (let s1 = s\<lparr>rs_handlers := remove1 n (rs_handlers s)\<rparr> in
         if rs_promise s1 \<noteq> Some n then Some s1
         else if rs_invalid s1 then Some s1
         else
           (let s2 = (if rs_was_invalid s1 = Some True
                      then s1\<lparr>rs_was_invalid := Some False, rs_log := rs_log s1 @ [LogRecover]\<rparr> else s1)
            in Some (if rs_corrupt s2 then s2\<lparr>rs_corrupt := False, rs_log := rs_log s2 @ [LogRestart]\<rparr> else s2)))
      else None)"

text \<open>One event.\<close>

fun reload_step :: "reload_state \<Rightarrow> reload_event \<Rightarrow> reload_state option" where
  "reload_step s Reload = Some (reload_vike_config s)"
| "reload_step s (GetConfig dev tol) = Some (get_vike_config dev tol s)"
| "reload_step s (Complete n ok) = complete_pass n ok s"
| "reload_step s (Resume n) = resume_handler n s"

text \<open>A run of events.\<close>

fun reload_run :: "reload_state \<Rightarrow> reload_event list \<Rightarrow> reload_state option" where
  "reload_run s [] = Some s"
| "reload_run s (e # es) = (case reload_step s e of None \<Rightarrow> None | Some s' \<Rightarrow> reload_run s' es)"

text \<open>The reachable states.\<close>

inductive reload_reachable :: "reload_state \<Rightarrow> bool" where
  init: "reload_reachable init_reload"
| step: "reload_reachable s \<Longrightarrow> reload_step s e = Some s' \<Longrightarrow> reload_reachable s'"

text \<open>The invariant: the promise holds the last pass started, every suspended
  handler waits on a tolerant dev pass, and the dev server is corrupt only after a
  non-tolerant dev pass failed.\<close>

definition reload_inv :: "reload_state \<Rightarrow> bool" where
  "reload_inv s \<longleftrightarrow>
     (case rs_promise s of None \<Rightarrow> rs_passes s = [] | Some n \<Rightarrow> Suc n = length (rs_passes s))
     \<and> list_all (\<lambda>n. n < length (rs_passes s) \<and> ps_dev (rs_passes s ! n) \<and> ps_tolerate (rs_passes s ! n))
          (rs_handlers s)
     \<and> (rs_corrupt s \<longrightarrow> (\<exists>p\<in>set (rs_passes s). ps_dev p \<and> \<not> ps_tolerate p \<and> ps_status p = Failed))"

lemma reload_inv_init: "reload_inv init_reload"
  by (simp add: reload_inv_def init_reload_def)

subsection \<open>Lemmas\<close>

lemma start_pass_inv: "reload_inv s \<Longrightarrow> reload_inv (start_pass dev tol s)"
  unfolding reload_inv_def start_pass_def list_all_iff
  by (force simp: nth_append split: option.splits)

lemma reload_vike_config_inv: "reload_inv s \<Longrightarrow> reload_inv (reload_vike_config s)"
  using start_pass_inv[of s True True]
  by (simp add: reload_vike_config_def reload_inv_def start_pass_def Let_def nth_append)

lemma get_vike_config_inv: "reload_inv s \<Longrightarrow> reload_inv (get_vike_config dev tol s)"
  by (simp add: get_vike_config_def start_pass_inv)

lemma complete_pass_inv:
  assumes "complete_pass n ok s = Some s'" and "reload_inv s"
  shows "reload_inv s'"
proof -
  let ?p = "rs_passes s ! n"
  let ?q = "?p\<lparr>ps_status := if ok then Succeeded else Failed\<rparr>"
  have n: "n < length (rs_passes s)" and run: "ps_status ?p = Running"
    using assms(1) by (simp_all add: complete_pass_def split: if_splits)
  have passes: "rs_passes s' = (rs_passes s)[n := ?q]"
    using assms(1) by (auto simp: complete_pass_def Let_def split: if_splits)
  have other: "rs_promise s' = rs_promise s" "rs_handlers s' = rs_handlers s"
    using assms(1) by (auto simp: complete_pass_def Let_def split: if_splits)
  have same: "ps_dev (rs_passes s' ! i) = ps_dev (rs_passes s ! i)"
    "ps_tolerate (rs_passes s' ! i) = ps_tolerate (rs_passes s ! i)" for i
    using passes by (cases "i = n"; simp add: n)+
  have corrupt: "rs_corrupt s' \<Longrightarrow> rs_corrupt s \<or> (ps_dev ?p \<and> \<not> ps_tolerate ?p \<and> \<not> ok)"
    using assms(1) by (auto simp: complete_pass_def Let_def split: if_splits)
  have "rs_corrupt s' \<Longrightarrow> \<exists>p\<in>set (rs_passes s'). ps_dev p \<and> \<not> ps_tolerate p \<and> ps_status p = Failed"
  proof -
    assume c: "rs_corrupt s'"
    show ?thesis
    proof (cases "rs_corrupt s")
      case True
      then obtain i where i: "i < length (rs_passes s)" "ps_dev (rs_passes s ! i)" "\<not> ps_tolerate (rs_passes s ! i)"
          "ps_status (rs_passes s ! i) = Failed"
        using assms(2) by (auto simp: reload_inv_def in_set_conv_nth)
      then have "ps_status (rs_passes s' ! i) = Failed"
        using passes run by (cases "i = n") auto
      then show ?thesis using i same[of i] passes by (metis length_list_update nth_mem)
    next
      case False
      then have "ps_dev ?p" "\<not> ps_tolerate ?p" "\<not> ok" using corrupt c by auto
      then show ?thesis using passes n by (intro bexI[of _ ?q]) (auto simp: set_update_memI)
    qed
  qed
  then show ?thesis using assms(2) n other same passes
    by (auto simp: reload_inv_def list_all_iff split: option.splits)
qed

lemma resume_handler_inv:
  assumes "resume_handler n s = Some s'" and "reload_inv s"
  shows "reload_inv s'"
proof -
  have "rs_passes s' = rs_passes s" "rs_promise s' = rs_promise s"
    "set (rs_handlers s') \<subseteq> set (rs_handlers s)" "rs_corrupt s' \<Longrightarrow> rs_corrupt s"
    using assms(1) set_remove1_subset[of n "rs_handlers s"]
    by (auto simp: resume_handler_def Let_def split: if_splits)
  then show ?thesis using assms(2) by (auto simp: reload_inv_def list_all_iff split: option.splits)
qed

lemma reload_step_inv: "reload_step s e = Some s' \<Longrightarrow> reload_inv s \<Longrightarrow> reload_inv s'"
  by (cases e) (auto simp: reload_vike_config_inv get_vike_config_inv complete_pass_inv resume_handler_inv)

lemma resume_handler_effects:
  assumes "resume_handler n s = Some s'" and "rs_log s' \<noteq> rs_log s \<or> rs_corrupt s' \<noteq> rs_corrupt s"
  shows "rs_promise s = Some n"
  using assms by (auto simp: resume_handler_def Let_def split: if_splits)

lemma reload_inv_reachable: "reload_reachable s \<Longrightarrow> reload_inv s"
proof (induction rule: reload_reachable.induct)
  case init
  show ?case by (rule reload_inv_init)
next
  case (step s e s')
  then show ?case by (blast intro: reload_step_inv)
qed

lemma reload_run_reachable:
  "reload_reachable s \<Longrightarrow> reload_run s es = Some s' \<Longrightarrow> reload_reachable s'"
proof (induction es arbitrary: s)
  case (Cons e es)
  then obtain s1 where "reload_step s e = Some s1" "reload_run s1 es = Some s'"
    by (auto split: option.splits)
  then show ?case using Cons by (blast intro: reload_reachable.step)
qed simp

lemmas reload_step_defs = init_reload_def reload_vike_config_def start_pass_def get_vike_config_def
  complete_pass_def resume_handler_def Let_def

subsection \<open>Properties of the reload lifecycle\<close>

text \<open>C15. The reload invariant: in every reachable state the memoised promise
  holds the last pass started, every suspended side-effect handler waits on a
  tolerant dev pass, and the dev server is marked corrupt only after a non-tolerant
  dev pass failed.\<close>

theorem reachable_reload_inv: "reload_reachable s \<Longrightarrow> reload_inv s"
  by (rule reload_inv_reachable)

theorem reachable_reload_inv_witness:
  "reload_inv (the (reload_run init_reload [GetConfig True False, Complete 0 False, Reload]))"
proof -
  obtain s where r: "reload_run init_reload [GetConfig True False, Complete 0 False, Reload] = Some s"
    by (simp add: reload_step_defs)
  show ?thesis using reachable_reload_inv[OF reload_run_reachable[OF reload_reachable.init r]] r by simp
qed

text \<open>C16. Recovery (spec section 7): from any state, a reload whose pass succeeds
  and whose handler then resumes leaves the config valid and the dev server not
  corrupt, logs the recovery exactly when the config was invalid, and restarts the
  dev server exactly when it was corrupt.\<close>

theorem reload_recovers:
  "\<exists>s'. reload_run s [Reload, Complete (length (rs_passes s)) True, Resume (length (rs_passes s))] = Some s'
     \<and> \<not> rs_invalid s' \<and> \<not> rs_corrupt s'
     \<and> rs_log s' = rs_log s @ (if rs_invalid s then [LogRecover] else []) @ (if rs_corrupt s then [LogRestart] else [])"
  by (simp add: reload_vike_config_def start_pass_def complete_pass_def resume_handler_def Let_def nth_append)

text \<open>C17. Only the latest pass has side effects (spec section 5): in a reachable
  state, a resuming \<open>handleReloadSideEffects\<close> that logs or clears the corrupt flag
  belongs to the last pass started.\<close>

theorem handler_effects_only_for_latest:
  assumes "reload_reachable s" and "resume_handler n s = Some s'"
    and "rs_log s' \<noteq> rs_log s \<or> rs_corrupt s' \<noteq> rs_corrupt s"
  shows "Suc n = length (rs_passes s)"
  using reload_inv_reachable[OF assms(1)] resume_handler_effects[OF assms(2,3)]
  by (simp add: reload_inv_def)

theorem handler_effects_only_for_latest_witness:
  "Suc 1 = length (rs_passes (the (reload_run init_reload [GetConfig True False, Complete 0 False, Reload, Complete 1 True])))"
proof -
  obtain s where r: "reload_run init_reload [GetConfig True False, Complete 0 False, Reload, Complete 1 True] = Some s"
    by (simp add: reload_step_defs)
  have "\<exists>s'. resume_handler 1 s = Some s' \<and> rs_log s' \<noteq> rs_log s"
    using r by (auto simp: reload_step_defs)
  then obtain s' where h: "resume_handler 1 s = Some s'" and e: "rs_log s' \<noteq> rs_log s" by blast
  show ?thesis
    using handler_effects_only_for_latest[OF reload_run_reachable[OF reload_reachable.init r] h] e r by simp
qed

text \<open>C40. A superseded pass still publishes its validity: in any reachable
  state whose memoised promise holds pass \<open>m\<close>, already succeeded, an earlier pass
  \<open>i\<close> still running can fail, and its failure sets \<open>isConfigInvalid\<close> while the
  current pass stays succeeded; spec section 5 says a superseded result is discarded
  rather than published.\<close>

theorem stale_failure_marks_config_invalid:
  assumes "reload_reachable s" "rs_promise s = Some m" "i < m"
    and "ps_status (rs_passes s ! i) = Running" "ps_status (rs_passes s ! m) = Succeeded"
  shows "\<exists>s'. reload_step s (Complete i False) = Some s'
     \<and> rs_promise s' = Some m \<and> ps_status (rs_passes s' ! m) = Succeeded \<and> rs_invalid s'"
proof -
  have "Suc m = length (rs_passes s)"
    using reload_inv_reachable[OF assms(1)] assms(2) by (simp add: reload_inv_def)
  then have "i < length (rs_passes s)" "m \<noteq> i" using assms(3) by simp_all
  then show ?thesis using assms(2,4,5) by (simp add: complete_pass_def Let_def)
qed

theorem stale_failure_marks_config_invalid_witness:
  "\<exists>s'. reload_step (the (reload_run init_reload [Reload, Reload, Complete 1 True, Resume 1])) (Complete 0 False) = Some s'
     \<and> rs_promise s' = Some 1 \<and> ps_status (rs_passes s' ! 1) = Succeeded \<and> rs_invalid s'"
proof -
  obtain s where r: "reload_run init_reload [Reload, Reload, Complete 1 True, Resume 1] = Some s"
    by (simp add: reload_step_defs)
  have st: "rs_promise s = Some 1" "ps_status (rs_passes s ! 0) = Running" "ps_status (rs_passes s ! 1) = Succeeded"
    using r by (auto simp: reload_step_defs)
  show ?thesis
    using stale_failure_marks_config_invalid[OF reload_run_reachable[OF reload_reachable.init r] st(1) _ st(2,3)] r
    by simp
qed

end
