(* ===== verification/Analyze.thy ===== *)
theory Analyze
  imports Prelude
begin

text \<open>
  \<open>analyzePage\<close> of \<open>src/vike/node/runtime/renderPage/analyzePage.ts\<close>: for a page
  with a page config (the V1 design), the client dependencies and client entries the
  renderer injects. The functions it calls live outside the sources and are
  collaborators in \<open>analyze_env\<close>: \<open>analyzeClientSide\<close> (is the page client-side
  renderable, does it use client routing), \<open>getVirtualFileIdPageConfigValuesAll\<close>,
  \<open>getVikeClientEntry\<close>, \<open>getClientEntryFilePath\<close>, the global context's
  \<open>isProduction\<close>, and \<open>analyzePageClientSide\<close> for a page without page config.
  Page files and page configs are opaque type parameters.
\<close>

text \<open>\<open>ClientDependency\<close> and \<open>AnalysisResult\<close>.\<close>

record client_dependency =
  dep_id :: string
  dep_only_assets :: bool
  dep_eagerly_imported :: bool

record 'pf analysis_result =
  ar_is_html_only :: bool
  ar_is_client_routing :: bool
  ar_client_entries :: "string list"
  ar_client_dependencies :: "client_dependency list"
  ar_page_files_client_side :: "'pf list"
  ar_page_files_server_side :: "'pf list"

text \<open>The collaborators of \<open>analyzePage\<close>.\<close>

record ('pc, 'pf) analyze_env =
  ae_analyze_client_side :: "'pc \<Rightarrow> 'pf list \<Rightarrow> string \<Rightarrow> bool \<times> bool"
  ae_page_id :: "'pc \<Rightarrow> string"
  ae_values_all_id :: "string \<Rightarrow> bool \<Rightarrow> string"
  ae_vike_client_entry :: "bool \<Rightarrow> string"
  ae_client_entry_user :: "'pc \<Rightarrow> string option"
  ae_is_production :: bool
  ae_analyze_page_client_side :: "'pf list \<Rightarrow> string \<Rightarrow> 'pf analysis_result"

text \<open>A dependency pushed by \<open>analyzePage\<close> (never eagerly imported).\<close>

definition dependency :: "string \<Rightarrow> bool \<Rightarrow> client_dependency" where
  "dependency i only_assets = \<lparr>dep_id = i, dep_only_assets = only_assets, dep_eagerly_imported = False\<rparr>"

text \<open>\<open>clientEntries\<close>: the Vike client entry when the page renders on the client,
  then the user's client entry when it is a non-empty string.\<close>

definition client_entries_of :: "('pc, 'pf) analyze_env \<Rightarrow> 'pc \<Rightarrow> bool \<Rightarrow> bool \<Rightarrow> string list" where
  "client_entries_of env pc csr cr =
     (if csr then [ae_vike_client_entry env cr] else [])
     @ (case ae_client_entry_user env pc of Some e \<Rightarrow> if e \<noteq> [] then [e] else [] | None \<Rightarrow> [])"

text \<open>\<open>analyzePage\<close>.\<close>

definition analyze_page ::
  "('pc, 'pf) analyze_env \<Rightarrow> 'pf list \<Rightarrow> 'pc option \<Rightarrow> string \<Rightarrow> 'pf analysis_result" where
  "analyze_page env pfs pc_opt page_id =
     (case pc_opt of
        None \<Rightarrow> ae_analyze_page_client_side env pfs page_id
      | Some pc \<Rightarrow>
          (let (csr, cr) = ae_analyze_client_side env pc pfs page_id;
               deps0 = [dependency (ae_values_all_id env (ae_page_id env pc) True) False]
                       @ (if \<not> ae_is_production env
                          then [dependency (ae_values_all_id env (ae_page_id env pc) False) True] else []);
               entries = client_entries_of env pc csr cr
           in \<lparr>ar_is_html_only = \<not> csr, ar_is_client_routing = cr, ar_client_entries = entries,
               ar_client_dependencies = deps0 @ map (\<lambda>e. dependency e False) entries,
               ar_page_files_client_side = [], ar_page_files_server_side = []\<rparr>))"

text \<open>Input for the witnesses: a client-routed page with a user client entry.\<close>

definition example_analyze_env :: "(unit, unit) analyze_env" where
  "example_analyze_env =
     \<lparr>ae_analyze_client_side = (\<lambda>pc pfs pid. (True, True)), ae_page_id = (\<lambda>pc. ''/pages/index''),
      ae_values_all_id = (\<lambda>pid client. ''virtual:vike:pageConfigValuesAll:''
                          @ (if client then ''client:'' else ''server:'') @ pid),
      ae_vike_client_entry = (\<lambda>cr. if cr then ''@@vike/client/client-routing-runtime/entry.js''
                                   else ''@@vike/client/server-routing-runtime/entry.js''),
      ae_client_entry_user = (\<lambda>pc. Some ''/pages/+client.js''), ae_is_production = False,
      ae_analyze_page_client_side = (\<lambda>pfs pid. \<lparr>ar_is_html_only = True, ar_is_client_routing = False,
         ar_client_entries = [], ar_client_dependencies = [], ar_page_files_client_side = [],
         ar_page_files_server_side = []\<rparr>)\<rparr>"

subsection \<open>Lemmas\<close>

lemma analyze_page_Some:
  "analyze_page env pfs (Some pc) page_id =
     (let (csr, cr) = ae_analyze_client_side env pc pfs page_id; entries = client_entries_of env pc csr cr in
      \<lparr>ar_is_html_only = \<not> csr, ar_is_client_routing = cr, ar_client_entries = entries,
       ar_client_dependencies = [dependency (ae_values_all_id env (ae_page_id env pc) True) False]
         @ (if \<not> ae_is_production env then [dependency (ae_values_all_id env (ae_page_id env pc) False) True] else [])
         @ map (\<lambda>e. dependency e False) entries,
       ar_page_files_client_side = [], ar_page_files_server_side = []\<rparr>)"
  by (simp add: analyze_page_def split_beta Let_def)

lemma client_entries_of_length: "length (client_entries_of env pc csr cr) \<le> 2"
  by (simp add: client_entries_of_def split: option.splits)

subsection \<open>Properties of the page analysis\<close>

text \<open>C18. Number of client dependencies: for a page with a page config,
  \<open>analyzePage\<close> returns the client values module, the asset-only server values module
  outside production, and one dependency per client entry; so between one and four
  dependencies, at most two of them client entries.\<close>

theorem analyze_page_dependency_count:
  assumes "analyze_page env pfs (Some pc) page_id = r"
  shows "length (ar_client_dependencies r) = 1 + (if ae_is_production env then 0 else 1) + length (ar_client_entries r)
         \<and> 1 \<le> length (ar_client_dependencies r) \<and> length (ar_client_dependencies r) \<le> 4"
  using assms client_entries_of_length[of env pc "fst (ae_analyze_client_side env pc pfs page_id)"
      "snd (ae_analyze_client_side env pc pfs page_id)"]
  by (auto simp: analyze_page_Some split_beta Let_def)

theorem analyze_page_dependency_count_witness:
  "length (ar_client_dependencies (analyze_page example_analyze_env [] (Some ()) ''/pages/index'')) = 4"
  using analyze_page_dependency_count[OF refl, of example_analyze_env "[]" "()" "''/pages/index''"]
  by (simp add: example_analyze_env_def analyze_page_Some client_entries_of_def)

text \<open>Dependencies in production and client entries: in production no client
  dependency is asset-only; every client entry is also a (non-asset, non-eager)
  dependency; and when the page is not HTML-only, the Vike client entry for its routing
  mode comes first among the client entries.\<close>

theorem analyze_page_production_entries:
  assumes "analyze_page env pfs (Some pc) page_id = r"
  shows "(ae_is_production env \<longrightarrow> (\<forall>d\<in>set (ar_client_dependencies r). \<not> dep_only_assets d))
     \<and> (\<forall>e\<in>set (ar_client_entries r). dependency e False \<in> set (ar_client_dependencies r))
     \<and> (\<not> ar_is_html_only r \<longrightarrow> ar_client_entries r \<noteq> []
          \<and> hd (ar_client_entries r) = ae_vike_client_entry env (ar_is_client_routing r))"
  using assms by (auto simp: analyze_page_Some split_beta Let_def dependency_def client_entries_of_def)

theorem analyze_page_production_entries_witness:
  "filter dep_only_assets (ar_client_dependencies (analyze_page (example_analyze_env\<lparr>ae_is_production := True\<rparr>) []
       (Some ()) ''/pages/index'')) = []"
  using analyze_page_production_entries[OF refl, of "example_analyze_env\<lparr>ae_is_production := True\<rparr>" "[]" "()"
      "''/pages/index''"]
  by (simp add: example_analyze_env_def filter_empty_conv)

end
