(* ===== verification/Naming.thy ===== *)
theory Naming
  imports Validation
begin

text \<open>
  File naming and filesystem routes of \<open>getVikeConfig.ts\<close>: \<open>getConfigName\<close>
  with \<open>assertNoUnexpectedPlusSign\<close> and \<open>isVikeConfigFile\<close> (which \<open>+\<close> files
  configure what), and \<open>determineRouteFilesystem\<close> with
  \<open>getFilesystemRoutingRootEffect\<close> and \<open>determineIsErrorPage\<close> (the route a
  location gets from its directory, and the \<open>filesystemRoutingRoot\<close> config that
  rewrites it). The JavaScript string and path builtins are written out;
  \<open>isTmpFile\<close> and the helpers of \<open>filesystemRouting.ts\<close> are collaborators.
\<close>

subsection \<open>String and path builtins\<close>

text \<open>\<open>s.split(c)\<close> for a one-character separator: the pieces between the
  separators, empty ones included.\<close>

fun split_on :: "char \<Rightarrow> string \<Rightarrow> string list" where
  "split_on c [] = [[]]"
| "split_on c (x # xs) = (let r = split_on c xs in if x = c then [] # r else (x # hd r) # tl r)"

text \<open>\<open>ws.join(sep)\<close>.\<close>

fun join_with :: "string \<Rightarrow> string list \<Rightarrow> string" where
  "join_with sep [] = []"
| "join_with sep [w] = w"
| "join_with sep (w # ws) = w @ sep @ join_with sep ws"

text \<open>Node's \<open>path.posix.basename\<close> on file paths: the part after the last slash.\<close>

definition path_basename :: "string \<Rightarrow> string" where
  "path_basename s = rev (takeWhile (\<lambda>c. c \<noteq> CHR ''/'') (rev s))"

subsection \<open>Config names of \<open>+\<close> files\<close>

text \<open>\<open>assertNoUnexpectedPlusSign\<close>: no directory of the path contains \<open>+\<close> (the
  error names the path up to the first such directory), and the file name contains
  \<open>+\<close> at most as its first character.\<close>

definition assert_no_unexpected_plus_sign :: "string \<Rightarrow> string \<Rightarrow> error + unit" where
  "assert_no_unexpected_plus_sign fp fname =
     (let dirs = split_on CHR ''/'' (path_dirname fp) in
      case for_each_err (\<lambda>i. if CHR ''+'' \<in> set (dirs ! i)
                               then Inl (ErrPlusInDirectory (join_with ''/'' (take (Suc i) dirs))) else Inr ())
             [0..<length dirs] of
        Inl e \<Rightarrow> Inl e
      | Inr _ \<Rightarrow> if CHR ''+'' \<in> set (drop 1 fname) then Inl (ErrPlusInFileName fp) else Inr ())"

text \<open>\<open>getConfigName\<close>: \<open>null\<close> for a temporary file and for a file whose name
  does not start with \<open>+\<close>; else the name up to the first dot, without the \<open>+\<close>.\<close>

definition get_config_name :: "(string \<Rightarrow> bool) \<Rightarrow> string \<Rightarrow> error + config_name option" where
  "get_config_name is_tmp fp =
     (if is_tmp fp then Inr None
      else let fname = path_basename fp in
        (case assert_no_unexpected_plus_sign fp fname of
           Inl e \<Rightarrow> Inl e
         | Inr _ \<Rightarrow>
             (let base = hd (split_on CHR ''.'' fname) in
              if starts_with base ''+'' then Inr (Some (drop 1 base)) else Inr None)))"

text \<open>\<open>isVikeConfigFile\<close>: \<open>!!getConfigName(filePath)\<close>; the empty name is falsy.\<close>

definition is_vike_config_file :: "(string \<Rightarrow> bool) \<Rightarrow> string \<Rightarrow> error + bool" where
  "is_vike_config_file is_tmp fp =
     (case get_config_name is_tmp fp of
        Inl e \<Rightarrow> Inl e
      | Inr cn \<Rightarrow> Inr (case cn of Some n \<Rightarrow> n \<noteq> [] | None \<Rightarrow> False))"

subsection \<open>Filesystem routes\<close>

text \<open>The helpers of \<open>filesystemRouting.ts\<close> the route computation calls:
  \<open>getFilesystemRouteString\<close> and \<open>getFilesystemRouteDefinedBy\<close> of a location id,
  \<open>getLocationId\<close> of a file path, and \<open>applyFilesystemRoutingRootEffect\<close>.\<close>

record routing_env =
  re_route_string :: "string \<Rightarrow> string"
  re_defined_by :: "string \<Rightarrow> string"
  re_location_id :: "string \<Rightarrow> string"
  re_apply_root_effect :: "string \<Rightarrow> string \<times> string \<Rightarrow> string"

text \<open>\<open>getConfigSourceDefinedAtString\<close> of a source, kept as its parts: the config
  name, the file path shown to the user and the export path.\<close>

type_synonym config_defined_at = "config_name \<times> string option \<times> string list"

text \<open>The result of \<open>determineRouteFilesystem\<close>: an error page, or
  \<open>routeFilesystem\<close> with its route string and its \<open>definedBy\<close>, the location's
  own and, when the routing root rewrote the route, where the routing root is
  defined (the \<open>(with ...)\<close> suffix).\<close>

datatype route_filesystem = ErrorPage | RouteFilesystem string string "config_defined_at option"

text \<open>\<open>determineIsErrorPage\<close>: a path segment is \<open>_error\<close>.\<close>

definition determine_is_error_page :: "string \<Rightarrow> bool" where
  "determine_is_error_page rs \<longleftrightarrow> ''_error'' \<in> set (split_on CHR ''/'' rs)"

text \<open>\<open>getFilesystemRoutingRootEffect\<close>: the source is an eagerly loaded,
  non-computed \<open>config-only\<close> value; it must be a string with a leading slash
  (usage errors); the effect rewrites the route of the location the source is
  defined at (\<open>before\<close>) into the value (\<open>after\<close>).\<close>

definition get_filesystem_routing_root_effect ::
  "routing_env \<Rightarrow> config_name \<Rightarrow> config_value_source \<Rightarrow> error + ((string \<times> string) \<times> config_defined_at)" where
  "get_filesystem_routing_root_effect re cn src =
     (if cvs_env src \<noteq> ConfigOnly then Inl InvariantViolation
      else case cvs_value src of
        None \<Rightarrow> Inl InvariantViolation
      | Some v \<Rightarrow>
          if cvs_computed src then Inl InvariantViolation
          else case cvs_defined_at src of
            None \<Rightarrow> Inl InvariantViolation
          | Some dai \<Rightarrow>
              (let at = get_defined_at_file_path_to_show_to_user dai in
               case v of
                 JStr s \<Rightarrow>
                   if \<not> starts_with s ''/'' then Inl (ErrRoutingRootNoSlash cn at s)
                   else (case fp_relative (dai_path dai) of
                           None \<Rightarrow> Inl InvariantViolation
                         | Some rel \<Rightarrow> Inr ((re_route_string re (re_location_id re rel), s), (cn, at, dai_export_path dai)))
               | _ \<Rightarrow> Inl (ErrRoutingRootNotString cn at)))"

text \<open>The end of \<open>determineRouteFilesystem\<close>: the route must start with a slash.\<close>

definition route_filesystem_of :: "string \<Rightarrow> string \<Rightarrow> config_defined_at option \<Rightarrow> error + route_filesystem" where
  "route_filesystem_of rs db at =
     (if starts_with rs ''/'' then Inr (RouteFilesystem rs db at) else Inl InvariantViolation)"

text \<open>\<open>determineRouteFilesystem\<close>: an error page has no filesystem route; else the
  first source of \<open>filesystemRoutingRoot\<close>, if any, rewrites the location's route.\<close>

definition determine_route_filesystem ::
  "routing_env \<Rightarrow> string \<Rightarrow> config_value_sources \<Rightarrow> error + route_filesystem" where
  "determine_route_filesystem re lid srcs =
     (let cn = ''filesystemRoutingRoot'';
          root = (case map_of srcs cn of Some (src # _) \<Rightarrow> Some src | _ \<Rightarrow> None);
          rs = re_route_string re lid
      in if determine_is_error_page rs then Inr ErrorPage
         else
           (let db = re_defined_by re lid in
            case root of
              None \<Rightarrow> route_filesystem_of rs db None
            | Some src \<Rightarrow>
                (case get_filesystem_routing_root_effect re cn src of
                   Inl e \<Rightarrow> Inl e
                 | Inr ((before, after), at) \<Rightarrow>
                     if starts_with rs before
                     then route_filesystem_of (re_apply_root_effect re rs (before, after)) db (Some at)
                     else Inl InvariantViolation)))"

text \<open>Input for the witnesses: routes are location ids, a location is the
  directory of its \<open>+config.js\<close>, and the routing root replaces the route prefix.\<close>

definition example_routing_env :: routing_env where
  "example_routing_env = \<lparr>re_route_string = (\<lambda>lid. lid), re_defined_by = (\<lambda>lid. lid),
     re_location_id = path_dirname, re_apply_root_effect = (\<lambda>rs (before, after). after @ drop (length before) rs)\<rparr>"

definition example_routing_root_srcs :: config_value_sources where
  "example_routing_root_srcs =
     [(''filesystemRoutingRoot'', [\<lparr>cvs_value = Some (JStr ''/mkt''), cvs_value_is_file_path = False,
        cvs_env = ConfigOnly, cvs_imported = False, cvs_computed = False,
        cvs_defined_at = Some \<lparr>dai_path = \<lparr>fp_absolute = Some ''/app/pages/marketing/+config.js'',
            fp_relative = Some ''/pages/marketing/+config.js'', fp_import_abs = None\<rparr>,
          dai_export_path = [''default'']\<rparr>\<rparr>])]"

subsection \<open>Lemmas\<close>

lemma split_on_not_Nil [simp]: "split_on c s \<noteq> []"
  by (induction s) (auto simp: Let_def)

lemma hd_split_on: "hd (split_on c s) = takeWhile (\<lambda>x. x \<noteq> c) s"
  by (induction s) (auto simp: Let_def)

lemma join_split_on: "join_with [c] (split_on c s) = s"
proof (induction s)
  case (Cons x xs)
  then show ?case
    by (cases "split_on c xs"; cases "tl (split_on c xs)") (auto simp: Let_def)
qed simp

lemma mem_split_on: "x \<noteq> c \<Longrightarrow> (\<exists>w\<in>set (split_on c s). x \<in> set w) \<longleftrightarrow> x \<in> set s"
proof (induction s)
  case (Cons y ys)
  obtain w ws where r: "split_on c ys = w # ws" by (cases "split_on c ys") auto
  show ?case using Cons r by (auto simp: Let_def)
qed simp

lemma path_basename_append: "CHR ''/'' \<notin> set t \<Longrightarrow> path_basename (d @ CHR ''/'' # t) = t"
  by (simp add: path_basename_def takeWhile_append)

lemma path_dirname_append:
  "CHR ''/'' \<notin> set t \<Longrightarrow> path_dirname (d @ CHR ''/'' # t) = (if d = [] then ''/'' else d)"
  by (simp add: path_dirname_def dropWhile_append Let_def)

lemma assert_no_unexpected_plus_sign_Inr:
  "assert_no_unexpected_plus_sign fp fname = Inr u \<longleftrightarrow>
     CHR ''+'' \<notin> set (path_dirname fp) \<and> CHR ''+'' \<notin> set (drop 1 fname)"
proof -
  let ?dirs = "split_on CHR ''/'' (path_dirname fp)"
  have "(\<forall>i\<in>set [0..<length ?dirs]. CHR ''+'' \<notin> set (?dirs ! i)) \<longleftrightarrow> \<not> (\<exists>w\<in>set ?dirs. CHR ''+'' \<in> set w)"
    using all_set_conv_all_nth[of ?dirs "\<lambda>w. CHR ''+'' \<notin> set w"]
    by (simp add: Ball_def atLeastLessThan_iff)
  also have "\<dots> \<longleftrightarrow> CHR ''+'' \<notin> set (path_dirname fp)" using mem_split_on[of "CHR ''+''" "CHR ''/''"] by simp
  finally have dirs: "(\<forall>i\<in>set [0..<length ?dirs]. CHR ''+'' \<notin> set (?dirs ! i)) \<longleftrightarrow> CHR ''+'' \<notin> set (path_dirname fp)" .
  have "for_each_err (\<lambda>i. if CHR ''+'' \<in> set (?dirs ! i)
           then Inl (ErrPlusInDirectory (join_with ''/'' (take (Suc i) ?dirs))) else Inr ()) [0..<length ?dirs] = Inr ()
        \<longleftrightarrow> CHR ''+'' \<notin> set (path_dirname fp)"
    unfolding for_each_err_Inr using dirs by (simp split: if_splits)
  then show ?thesis
    by (auto simp: assert_no_unexpected_plus_sign_def Let_def split: sum.splits)
qed

lemma get_filesystem_routing_root_effect_Inr:
  "get_filesystem_routing_root_effect re cn src = Inr ((before, after), at) \<Longrightarrow>
     starts_with after ''/'' \<and> fst at = cn \<and> cvs_value src = Some (JStr after)"
  by (auto simp: get_filesystem_routing_root_effect_def Let_def
      split: if_splits option.splits jsval.splits)

lemma route_filesystem_of_Inr:
  "route_filesystem_of rs db at = Inr r \<longleftrightarrow> starts_with rs ''/'' \<and> r = RouteFilesystem rs db at"
  by (auto simp: route_filesystem_of_def)

subsection \<open>Properties of file naming and routes\<close>

text \<open>C24. Round trip of config names: a file \<open>d/+cn.ext\<close> whose directory has no
  \<open>+\<close>, whose config name has no dot, slash or \<open>+\<close> and whose extension has no slash
  or \<open>+\<close>, is not temporary, gets back the config name \<open>cn\<close> from \<open>getConfigName\<close>.\<close>

theorem get_config_name_roundtrip:
  assumes "\<not> is_tmp (d @ ''/+'' @ cn @ ''.'' @ ext)" "CHR ''+'' \<notin> set d"
    and "CHR ''.'' \<notin> set cn" "CHR ''/'' \<notin> set cn" "CHR ''+'' \<notin> set cn"
    and "CHR ''/'' \<notin> set ext" "CHR ''+'' \<notin> set ext"
  shows "get_config_name is_tmp (d @ ''/+'' @ cn @ ''.'' @ ext) = Inr (Some cn)"
proof -
  let ?fp = "d @ ''/+'' @ cn @ ''.'' @ ext"
  have fp: "?fp = d @ CHR ''/'' # (CHR ''+'' # cn @ CHR ''.'' # ext)" by simp
  have bn: "path_basename ?fp = CHR ''+'' # cn @ CHR ''.'' # ext"
    unfolding fp using assms by (intro path_basename_append) auto
  have dn: "CHR ''+'' \<notin> set (path_dirname ?fp)"
    unfolding fp using assms by (subst path_dirname_append) auto
  have ok: "assert_no_unexpected_plus_sign ?fp (path_basename ?fp) = Inr ()"
    using assert_no_unexpected_plus_sign_Inr[of ?fp "path_basename ?fp"] dn bn assms by simp
  have "hd (split_on CHR ''.'' (path_basename ?fp)) = CHR ''+'' # cn"
    unfolding bn hd_split_on using assms by (simp add: takeWhile_append)
  then show ?thesis using assms(1) ok by (simp add: get_config_name_def starts_with_def)
qed

theorem get_config_name_roundtrip_witness:
  "get_config_name (\<lambda>p. False) ''/pages/about/+Page.tsx'' = Inr (Some ''Page'')"
  using get_config_name_roundtrip[of "\<lambda>p. False" "''/pages/about''" "''Page''" "''tsx''"] by simp

text \<open>C25. The reserved character: \<open>getConfigName\<close> of a file that is not temporary
  fails exactly when a directory of its path contains \<open>+\<close> or its file name contains
  \<open>+\<close> after the first character.\<close>

theorem get_config_name_fails:
  "\<not> is_tmp fp \<Longrightarrow> (\<exists>e. get_config_name is_tmp fp = Inl e) \<longleftrightarrow>
     CHR ''+'' \<in> set (path_dirname fp) \<or> CHR ''+'' \<in> set (drop 1 (path_basename fp))"
  using assert_no_unexpected_plus_sign_Inr[of fp "path_basename fp"]
  by (auto simp: get_config_name_def Let_def split: sum.splits)

theorem get_config_name_fails_witness:
  "\<exists>e. get_config_name (\<lambda>p. False) ''/pages/+admin/+Page.js'' = Inl e"
  using get_config_name_fails[of "\<lambda>p. False" "''/pages/+admin/+Page.js''"]
  by (simp add: path_dirname_def)

text \<open>C26. Error pages have no filesystem route: when the route of a location has a
  segment \<open>_error\<close>, \<open>determineRouteFilesystem\<close> returns the error page whatever the
  \<open>filesystemRoutingRoot\<close> sources are, an invalid one included.\<close>

theorem error_page_has_no_route:
  "determine_is_error_page (re_route_string re lid) \<Longrightarrow> determine_route_filesystem re lid srcs = Inr ErrorPage"
  by (simp add: determine_route_filesystem_def Let_def)

theorem error_page_has_no_route_witness:
  "determine_route_filesystem example_routing_env ''/pages/_error''
     [(''filesystemRoutingRoot'', [\<lparr>cvs_value = Some (JNum 1), cvs_value_is_file_path = False, cvs_env = ConfigOnly,
        cvs_imported = False, cvs_computed = False, cvs_defined_at = None\<rparr>])] = Inr ErrorPage"
  by (rule error_page_has_no_route) (simp add: example_routing_env_def determine_is_error_page_def)

text \<open>C27. Filesystem routes are well formed: a route \<open>determineRouteFilesystem\<close>
  returns starts with a slash, belongs to a location that is not an error page,
  carries the location's \<open>definedBy\<close>, and names the \<open>filesystemRoutingRoot\<close>
  definition exactly when the location has a source for it, whose value is then a
  string with a leading slash.\<close>

theorem route_filesystem_sound:
  assumes "determine_route_filesystem re lid srcs = Inr (RouteFilesystem r db at)"
  shows "starts_with r ''/'' \<and> \<not> determine_is_error_page (re_route_string re lid) \<and> db = re_defined_by re lid
     \<and> (case at of None \<Rightarrow> (case map_of srcs ''filesystemRoutingRoot'' of Some (_ # _) \<Rightarrow> False | _ \<Rightarrow> True)
        | Some a \<Rightarrow> fst a = ''filesystemRoutingRoot''
                    \<and> (\<exists>src rest v. map_of srcs ''filesystemRoutingRoot'' = Some (src # rest)
                         \<and> cvs_value src = Some (JStr v) \<and> starts_with v ''/''))"
  using assms
  by (auto simp: determine_route_filesystem_def Let_def route_filesystem_of_Inr
      dest!: get_filesystem_routing_root_effect_Inr split: if_splits option.splits list.splits sum.splits prod.splits)

theorem route_filesystem_sound_witness:
  "determine_route_filesystem example_routing_env ''/pages/marketing/about'' example_routing_root_srcs
     = Inr (RouteFilesystem ''/mkt/about'' ''/pages/marketing/about''
             (Some (''filesystemRoutingRoot'', Some ''/pages/marketing/+config.js'', [''default''])))
   \<and> starts_with ''/mkt/about'' ''/''"
proof -
  have h: "determine_route_filesystem example_routing_env ''/pages/marketing/about'' example_routing_root_srcs
     = Inr (RouteFilesystem ''/mkt/about'' ''/pages/marketing/about''
             (Some (''filesystemRoutingRoot'', Some ''/pages/marketing/+config.js'', [''default''])))"
    by (simp add: determine_route_filesystem_def example_routing_env_def example_routing_root_srcs_def
        determine_is_error_page_def get_filesystem_routing_root_effect_def path_dirname_def
        get_defined_at_file_path_to_show_to_user_def route_filesystem_of_def starts_with_def)
  show ?thesis using route_filesystem_sound[OF h] h by simp
qed

end
