(* ===== verification/Loading.thy ===== *)
theory Loading
  imports Extends Naming Effects
begin

text \<open>
  Loading the interface files and the per-page pipeline of \<open>loadVikeConfig\<close> in
  \<open>getVikeConfig.ts\<close>: \<open>loadInterfaceFiles\<close> (the \<open>+\<close> files split into config and
  value files, config files loaded with their extends, value files of built-in
  \<open>config-only\<close> configs loaded eagerly, all grouped by location id),
  \<open>loadValueFile\<close>, \<open>getConfigDefinition\<close> and \<open>getInterfaceFileList\<close>, and the
  page loop of \<open>loadVikeConfig\<close>. The table \<open>interfaceFilesByLocationId\<close> is an
  association list in insertion order; the loading of a value file mutates the
  interface file it belongs to, so the table is threaded as explicit state.
  \<open>findPlusFiles\<close> (a glob) gives the input list, \<open>getLocationId\<close> is the
  collaborator \<open>loc_of\<close>, and \<open>Promise.all\<close> runs its callbacks in list order.
\<close>

type_synonym by_location = "(location_id \<times> interface_file list) list"

subsection \<open>Interface files\<close>

text \<open>\<open>UserFilePath\<close> as \<open>findPlusFiles\<close> returns it.\<close>

record plus_file =
  pf_absolute :: string
  pf_relative :: string

text \<open>The \<open>forEach\<close> of \<open>loadInterfaceFiles\<close> that sorts the \<open>+\<close> files into
  config files (\<open>+config.js\<close>) and value files.\<close>

fun partition_plus_files :: "(string \<Rightarrow> bool) \<Rightarrow> plus_file list \<Rightarrow> error + plus_file list \<times> plus_file list" where
  "partition_plus_files is_tmp [] = Inr ([], [])"
| "partition_plus_files is_tmp (f # fs) =
     (case get_config_name is_tmp (pf_relative f) of
        Inl e \<Rightarrow> Inl e
      | Inr cn \<Rightarrow>
          (case partition_plus_files is_tmp fs of
             Inl e \<Rightarrow> Inl e
           | Inr (cs, vs) \<Rightarrow> if cn = Some ''config'' then Inr (f # cs, vs) else Inr (cs, f # vs)))"

text \<open>\<open>interfaceFilesByLocationId[locationId] ??= []\<close> followed by \<open>push\<close>.\<close>

definition push_interface_files :: "location_id \<Rightarrow> interface_file list \<Rightarrow> by_location \<Rightarrow> by_location" where
  "push_interface_files l fs m = AList.update l ((case map_of m l of None \<Rightarrow> [] | Some xs \<Rightarrow> xs) @ fs) m"

text \<open>The \<open>FilePath\<close> of a \<open>+\<close> file: not an import.\<close>

definition plus_file_path :: "plus_file \<Rightarrow> file_path" where
  "plus_file_path f = \<lparr>fp_absolute = Some (pf_absolute f), fp_relative = Some (pf_relative f), fp_import_abs = None\<rparr>"

text \<open>The \<open>InterfaceValueFile\<close> of a value file: its config map holds its own
  config name, without a value yet.\<close>

definition value_interface_file :: "plus_file \<Rightarrow> config_name \<Rightarrow> interface_file" where
  "value_interface_file f cn = \<lparr>if_path = plus_file_path f, if_config_map = [(cn, None)], if_kind = ValueFileKind cn\<rparr>"

text \<open>\<open>getConfigDefinitionOptional\<close>.\<close>

definition get_config_definition_optional :: "config_defs \<Rightarrow> config_name \<Rightarrow> config_def option" where
  "get_config_definition_optional defs cn = map_of defs cn"

text \<open>\<open>getConfigDefinition\<close>: the name must be known (\<open>assertConfigExists\<close>).\<close>

definition get_config_definition ::
  "config_name list \<Rightarrow> (config_name \<Rightarrow> config_name list \<Rightarrow> config_name option) \<Rightarrow> config_defs \<Rightarrow> config_name
   \<Rightarrow> string \<Rightarrow> error + config_def" where
  "get_config_definition gnames most_similar defs cn file =
     (case assert_config_exists gnames most_similar cn (map fst defs) file of
        Inl e \<Rightarrow> Inl e
      | Inr _ \<Rightarrow> (case map_of defs cn of None \<Rightarrow> Inl InvariantViolation | Some d \<Rightarrow> Inr d))"

text \<open>\<open>assertExportsOfValueFile\<close> (outside the sources, after spec section 2: a
  value file exports an object that gives its own config exactly once, as the
  default export or as the export named after it).\<close>

definition assert_exports_of_value_file :: "jsval \<Rightarrow> string \<Rightarrow> config_name \<Rightarrow> error + (string \<times> jsval) list" where
  "assert_exports_of_value_file ex file cn =
     (case ex of
        JObj es \<Rightarrow>
          if (''default'' \<in> set (map fst es)) = (cn \<in> set (map fst es)) then Inl (ErrValueFileExports file cn)
          else Inr es
      | _ \<Rightarrow> Inl (ErrValueFileExports file cn))"

text \<open>\<open>loadValueFile\<close>: execute the file; the default export is the value of the
  file's own config, every other export the value of the config it names.\<close>

definition value_file_key :: "config_name \<Rightarrow> string \<Rightarrow> config_name" where
  "value_file_key cn n = (if n = ''default'' then cn else n)"

definition value_file_entry :: "config_name \<Rightarrow> string \<times> jsval \<Rightarrow> (config_name \<times> jsval option) list
   \<Rightarrow> (config_name \<times> jsval option) list" where
  "value_file_entry cn e m = AList.update (value_file_key cn (fst e)) (Some (snd e)) m"

definition load_value_file :: "(string \<Rightarrow> jsval) \<Rightarrow> interface_file \<Rightarrow> config_name \<Rightarrow> error + interface_file" where
  "load_value_file exec f cn =
     (case assert_exports_of_value_file (exec (the (fp_absolute (if_path f))))
             (get_file_path_to_show_to_user (if_path f)) cn of
        Inl e \<Rightarrow> Inl e
      | Inr es \<Rightarrow> Inr (f\<lparr>if_config_map := fold (value_file_entry cn) es (if_config_map f)\<rparr>))"

text \<open>One config file of \<open>loadInterfaceFiles\<close>: the file and its extends, pushed
  at the file's location.\<close>

definition load_config_plus_file ::
  "nat \<Rightarrow> resolver \<Rightarrow> (string \<Rightarrow> jsval) \<Rightarrow> string \<Rightarrow> (string \<Rightarrow> location_id) \<Rightarrow> plus_file \<Rightarrow> by_location
   \<Rightarrow> (error + by_location) option" where
  "load_config_plus_file fuel r exec root loc_of f m =
     (case load_config_interface_files fuel r exec root (plus_file_path f) of
        None \<Rightarrow> None
      | Some (Inl e) \<Rightarrow> Some (Inl e)
      | Some (Inr ifs) \<Rightarrow> Some (Inr (push_interface_files (loc_of (pf_relative f)) ifs m)))"

text \<open>One value file of \<open>loadInterfaceFiles\<close>: loaded now when its built-in
  definition is \<open>config-only\<close>, then pushed at its location.\<close>

definition load_value_plus_file ::
  "(string \<Rightarrow> bool) \<Rightarrow> (string \<Rightarrow> jsval) \<Rightarrow> config_defs \<Rightarrow> (string \<Rightarrow> location_id) \<Rightarrow> plus_file
   \<Rightarrow> by_location \<Rightarrow> error + by_location" where
  "load_value_plus_file is_tmp exec builtins loc_of f m =
     (case get_config_name is_tmp (pf_relative f) of
        Inl e \<Rightarrow> Inl e
      | Inr None \<Rightarrow> Inl InvariantViolation
      | Inr (Some cn) \<Rightarrow>
          (let vf = value_interface_file f cn in
           case (case get_config_definition_optional builtins cn of
                   Some d \<Rightarrow> if cd_env d = ConfigOnly then load_value_file exec vf cn else Inr vf
                 | None \<Rightarrow> Inr vf) of
             Inl e \<Rightarrow> Inl e
           | Inr vf' \<Rightarrow> Inr (push_interface_files (loc_of (pf_relative f)) [vf'] m)))"

text \<open>\<open>loadInterfaceFiles\<close>: config files first, then value files.\<close>

definition load_interface_files ::
  "nat \<Rightarrow> resolver \<Rightarrow> (string \<Rightarrow> jsval) \<Rightarrow> (string \<Rightarrow> bool) \<Rightarrow> (string \<Rightarrow> location_id) \<Rightarrow> config_defs
   \<Rightarrow> string \<Rightarrow> plus_file list \<Rightarrow> (error + by_location) option" where
  "load_interface_files fuel r exec is_tmp loc_of builtins root pfs =
     (case partition_plus_files is_tmp pfs of
        Inl e \<Rightarrow> Some (Inl e)
      | Inr (cs, vs) \<Rightarrow>
          (case fold_opt_err (load_config_plus_file fuel r exec root loc_of) cs [] of
             None \<Rightarrow> None
           | Some (Inl e) \<Rightarrow> Some (Inl e)
           | Some (Inr m) \<Rightarrow> Some (fold_err (load_value_plus_file is_tmp exec builtins loc_of) vs m)))"

text \<open>\<open>getInterfaceFileList\<close>.\<close>

definition get_interface_file_list :: "by_location \<Rightarrow> interface_file list" where
  "get_interface_file_list m = concat (map snd m)"

text \<open>Well-formed tables: location ids are keys at most once, and the config map
  of a value file has distinct keys, among them its own config, and is either as
  \<open>loadInterfaceFiles\<close> creates it (no value yet) or fully loaded.\<close>

definition value_file_wf :: "interface_file \<Rightarrow> bool" where
  "value_file_wf f \<longleftrightarrow>
     (case if_kind f of
        ConfigFileKind _ _ \<Rightarrow> True
      | ValueFileKind cn \<Rightarrow>
          distinct (map fst (if_config_map f)) \<and> cn \<in> set (map fst (if_config_map f))
          \<and> (if_config_map f = [(cn, None)] \<or> list_all (\<lambda>e. snd e \<noteq> None) (if_config_map f)))"

definition by_location_wf :: "by_location \<Rightarrow> bool" where
  "by_location_wf m \<longleftrightarrow> distinct (map fst m) \<and> list_all (\<lambda>e. list_all value_file_wf (snd e)) m"

text \<open>A value file of \<open>+\<close> file \<open>f\<close> as \<open>loadInterfaceFiles\<close> leaves it, and such a
  file at location \<open>l\<close> of a table.\<close>

definition value_file_loaded_as :: "config_defs \<Rightarrow> plus_file \<Rightarrow> config_name \<Rightarrow> interface_file \<Rightarrow> bool" where
  "value_file_loaded_as builtins f cn vf \<longleftrightarrow>
     if_path vf = plus_file_path f \<and> if_kind vf = ValueFileKind cn
     \<and> (if \<exists>d. map_of builtins cn = Some d \<and> cd_env d = ConfigOnly
        then interfacefile_is_already_loaded vf = Inr True else if_config_map vf = [(cn, None)])"

definition value_file_placed ::
  "config_defs \<Rightarrow> location_id \<Rightarrow> plus_file \<Rightarrow> config_name \<Rightarrow> by_location \<Rightarrow> bool" where
  "value_file_placed builtins l f cn m \<longleftrightarrow>
     (\<exists>fs. map_of m l = Some fs \<and> (\<exists>vf\<in>set fs. value_file_loaded_as builtins f cn vf))"

subsection \<open>The page loop of \<open>loadVikeConfig\<close>\<close>

text \<open>The collaborators of \<open>loadVikeConfig\<close>.\<close>

record load_env =
  le_resolver :: resolver
  le_root :: string
  le_exec :: "string \<Rightarrow> jsval"
  le_is_tmp :: "string \<Rightarrow> bool"
  le_loc_of :: "string \<Rightarrow> location_id"
  le_builtins :: config_defs
  le_global_defs :: config_defs
  le_most_similar :: "config_name \<Rightarrow> config_name list \<Rightarrow> config_name option"
  le_routing :: routing_env
  le_functions :: user_functions

text \<open>The string form \<open>/a/b\<close> of a location id.\<close>

definition location_string :: "location_id \<Rightarrow> string" where
  "location_string l = concat (map (\<lambda>s. CHR ''/'' # s) l)"

text \<open>Loading a value file mutates its interface file, which every table holding
  it shares.\<close>

definition replace_interface_file :: "interface_file \<Rightarrow> interface_file \<Rightarrow> by_location \<Rightarrow> by_location" where
  "replace_interface_file f f' m = map (\<lambda>e. (fst e, map (\<lambda>g. if g = f then f' else g) (snd e))) m"

text \<open>One file of the loop \<open>Load value files of custom config-only configs\<close>.\<close>

definition load_custom_value_file ::
  "load_env \<Rightarrow> config_defs \<Rightarrow> interface_file \<Rightarrow> by_location \<Rightarrow> error + by_location" where
  "load_custom_value_file le defs f m =
     (case value_config_name f of
        None \<Rightarrow> Inr m
      | Some cn \<Rightarrow>
          if is_global_config (map fst (le_global_defs le)) cn then Inr m
          else
            (case get_config_definition (map fst (le_global_defs le)) (le_most_similar le) defs cn
                    (get_file_path_to_show_to_user (if_path f)) of
               Inl e \<Rightarrow> Inl e
             | Inr d \<Rightarrow>
                 if cd_env d \<noteq> ConfigOnly then Inr m
                 else
                   (case interfacefile_is_already_loaded f of
                      Inl e \<Rightarrow> Inl e
                    | Inr True \<Rightarrow> Inr m
                    | Inr False \<Rightarrow>
                        if cn \<in> set (map fst (le_builtins le)) then Inl InvariantViolation
                        else
                          (case load_value_file (le_exec le) f cn of
                             Inl e \<Rightarrow> Inl e
                           | Inr f' \<Rightarrow> Inr (replace_interface_file f f' m)))))"

text \<open>One config of the \<open>configValueSources\<close> loop: \<open>resolveConfigValueSources\<close>
  with the pass's \<open>filesEnv\<close>; a config no file defines is skipped. Its warnings
  are logged and not kept.\<close>

definition page_source_step ::
  "load_env \<Rightarrow> by_location \<Rightarrow> config_name \<times> config_def \<Rightarrow> config_value_sources \<times> files_env
   \<Rightarrow> error + (config_value_sources \<times> files_env)" where
  "page_source_step le rel nd st =
     (let (cn, d) = nd; (srcs, fe) = st in
      case resolve_config_value_sources (le_resolver le) (le_root le) cn d rel fe of
        Inl e \<Rightarrow> Inl e
      | Inr ((None, _), fe') \<Rightarrow> Inr (srcs, fe')
      | Inr ((Some ss, _), fe') \<Rightarrow> Inr (AList.update cn ss srcs, fe'))"

definition page_sources ::
  "load_env \<Rightarrow> config_defs \<Rightarrow> by_location \<Rightarrow> files_env \<Rightarrow> error + (config_value_sources \<times> files_env)" where
  "page_sources le defs rel fe =
     fold_err (page_source_step le rel)
       (filter (\<lambda>nd. \<not> is_global_config (map fst (le_global_defs le)) (fst nd)) defs) ([], fe)"

text \<open>One page of \<open>loadVikeConfig\<close>: its route and its page config, with the
  interface-file table and \<open>filesEnv\<close> as the pass leaves them.\<close>

definition load_page_config ::
  "load_env \<Rightarrow> location_id \<Rightarrow> by_location \<times> files_env
   \<Rightarrow> error + ((route_filesystem \<times> page_config) \<times> (by_location \<times> files_env))" where
  "load_page_config le lid st =
     (let (m, fe) = st in
      case get_config_definitions (le_builtins le) (get_interface_files_relevant m lid) of
        Inl e \<Rightarrow> Inl e
      | Inr defs \<Rightarrow>
          (case fold_err (load_custom_value_file le defs)
                  (get_interface_file_list (get_interface_files_relevant m lid)) m of
             Inl e \<Rightarrow> Inl e
           | Inr m' \<Rightarrow>
               (case page_sources le defs (get_interface_files_relevant m' lid) fe of
                  Inl e \<Rightarrow> Inl e
                | Inr (srcs, fe') \<Rightarrow>
                    (case determine_route_filesystem (le_routing le) (location_string lid) srcs of
                       Inl e \<Rightarrow> Inl e
                     | Inr route \<Rightarrow>
                         (case finalize_page_config (le_functions le) defs lid srcs of
                            Inl e \<Rightarrow> Inl e
                          | Inr pc \<Rightarrow> Inr ((route, pc), (m', fe')))))))"

text \<open>A value file whose config is not global and whose definition, among the
  page's definitions, is \<open>config-only\<close>: the files the loop loads.\<close>

definition custom_config_only :: "load_env \<Rightarrow> config_defs \<Rightarrow> interface_file \<Rightarrow> bool" where
  "custom_config_only le defs g \<longleftrightarrow>
     (case value_config_name g of
        None \<Rightarrow> False
      | Some cn \<Rightarrow> \<not> is_global_config (map fst (le_global_defs le)) cn
                   \<and> (case map_of defs cn of None \<Rightarrow> False | Some d \<Rightarrow> cd_env d = ConfigOnly))"

text \<open>The result of \<open>loadVikeConfig\<close>: \<open>pageConfigs\<close> and the global result.\<close>

type_synonym vike_config = "(route_filesystem \<times> page_config) list \<times> global_result"

text \<open>\<open>loadVikeConfig\<close>: the interface files, the global configs, every location
  that defines a page (chosen on the table as loaded), then the unknown-config
  check on the table as the pages left it. \<open>filesEnv\<close> starts empty.\<close>

definition load_vike_config ::
  "nat \<Rightarrow> load_env \<Rightarrow> plus_file list \<Rightarrow> (error + vike_config) option" where
  "load_vike_config fuel le pfs =
     (case load_interface_files fuel (le_resolver le) (le_exec le) (le_is_tmp le) (le_loc_of le) (le_builtins le)
             (le_root le) pfs of
        None \<Rightarrow> None
      | Some (Inl e) \<Rightarrow> Some (Inl e)
      | Some (Inr m) \<Rightarrow> Some
          (case get_global_configs (le_resolver le) (le_root le) (le_global_defs le) m (\<lambda>_. None) of
             Inl e \<Rightarrow> Inl e
           | Inr (gres, fe) \<Rightarrow>
               (case map_st (load_page_config le) (map fst (filter (\<lambda>e. is_defining_page (snd e)) m)) (m, fe) of
                  Inl e \<Rightarrow> Inl e
                | Inr (pcs, (m', _)) \<Rightarrow>
                    (case assert_known_configs (le_builtins le) (le_global_defs le) (le_most_similar le) m' of
                       Inl e \<Rightarrow> Inl e
                     | Inr _ \<Rightarrow> Inr (pcs, gres)))))"

text \<open>Input for the witnesses: a \<open>+config.js\<close>, a \<open>+prerender.js\<close> (built-in,
  \<open>config-only\<close>) and a \<open>+title.js\<close> with a side-effect export, all at \<open>/pages\<close>.\<close>

definition example_load_exec :: "string \<Rightarrow> jsval" where
  "example_load_exec p =
     (if p = ''/app/pages/+config.js'' then JObj [(''default'', JObj [(''title'', JStr ''Home'')])]
      else if p = ''/app/pages/+prerender.js'' then JObj [(''default'', JBool True)]
      else JObj [(''default'', JStr ''Hello''), (''description'', JStr ''A page'')])"

definition example_plus_files :: "plus_file list" where
  "example_plus_files =
     [\<lparr>pf_absolute = ''/app/pages/+config.js'', pf_relative = ''/pages/+config.js''\<rparr>,
      \<lparr>pf_absolute = ''/app/pages/+prerender.js'', pf_relative = ''/pages/+prerender.js''\<rparr>,
      \<lparr>pf_absolute = ''/app/pages/+title.js'', pf_relative = ''/pages/+title.js''\<rparr>]"

definition example_load_builtins :: config_defs where
  "example_load_builtins =
     [(''prerender'', \<lparr>cd_env = ConfigOnly, cd_cumulative = False, cd_effect = None, cd_computed = None,
                      cd_value_is_file_path = False\<rparr>),
      (''title'', \<lparr>cd_env = ServerAndClient, cd_cumulative = False, cd_effect = None, cd_computed = None,
                  cd_value_is_file_path = False\<rparr>)]"

definition example_title_file :: plus_file where
  "example_title_file = \<lparr>pf_absolute = ''/app/pages/+title.js'', pf_relative = ''/pages/+title.js''\<rparr>"

text \<open>Input for the witnesses of the page loop: a \<open>+config.js\<close> at \<open>/pages\<close> setting
  \<open>Page\<close> and declaring the custom config \<open>myData\<close> as \<open>config-only\<close>, and a
  \<open>+myData.js\<close>.\<close>

definition example_vike_exec :: "string \<Rightarrow> jsval" where
  "example_vike_exec p =
     (if p = ''/app/pages/+config.js''
      then JObj [(''default'', JObj [(''Page'', JStr ''page''),
                                    (''meta'', JObj [(''myData'', JObj [(''env'', JStr ''config-only'')])])])]
      else JObj [(''default'', JStr ''data'')])"

definition example_vike_builtins :: config_defs where
  "example_vike_builtins =
     [(''Page'', \<lparr>cd_env = ServerAndClient, cd_cumulative = False, cd_effect = None, cd_computed = None,
                 cd_value_is_file_path = False\<rparr>),
      (''meta'', \<lparr>cd_env = ConfigOnly, cd_cumulative = False, cd_effect = None, cd_computed = None,
                 cd_value_is_file_path = False\<rparr>)]"

definition example_vike_env :: load_env where
  "example_vike_env =
     \<lparr>le_resolver = example_resolver, le_root = ''/app'', le_exec = example_vike_exec, le_is_tmp = (\<lambda>p. False),
      le_loc_of = (\<lambda>p. [''pages'']), le_builtins = example_vike_builtins, le_global_defs = [],
      le_most_similar = (\<lambda>cn names. None), le_routing = example_routing_env, le_functions = example_functions\<rparr>"

definition example_vike_files :: "plus_file list" where
  "example_vike_files =
     [\<lparr>pf_absolute = ''/app/pages/+config.js'', pf_relative = ''/pages/+config.js''\<rparr>,
      \<lparr>pf_absolute = ''/app/pages/+myData.js'', pf_relative = ''/pages/+myData.js''\<rparr>]"

definition example_vike_config_if :: interface_file where
  "example_vike_config_if =
     \<lparr>if_path = \<lparr>fp_absolute = Some ''/app/pages/+config.js'', fp_relative = Some ''/pages/+config.js'', fp_import_abs = None\<rparr>,
      if_config_map = [(''Page'', Some (JStr ''page'')),
                       (''meta'', Some (JObj [(''myData'', JObj [(''env'', JStr ''config-only'')])]))],
      if_kind = ConfigFileKind [] False\<rparr>"

definition example_vike_value_if :: "jsval option \<Rightarrow> interface_file" where
  "example_vike_value_if v =
     \<lparr>if_path = \<lparr>fp_absolute = Some ''/app/pages/+myData.js'', fp_relative = Some ''/pages/+myData.js'', fp_import_abs = None\<rparr>,
      if_config_map = [(''myData'', v)], if_kind = ValueFileKind ''myData''\<rparr>"

definition example_vike_defs :: config_defs where
  "example_vike_defs = example_vike_builtins @ [(''myData'', \<lparr>cd_env = ConfigOnly, cd_cumulative = False, cd_effect = None,
      cd_computed = None, cd_value_is_file_path = False\<rparr>)]"

subsection \<open>Lemmas\<close>

lemmas example_load_defs = example_load_exec_def example_plus_files_def example_load_builtins_def

lemma example_load_ok:
  "\<exists>m. load_interface_files 2 example_extends_resolver example_load_exec (\<lambda>p. False) (\<lambda>p. [''pages''])
     example_load_builtins ''/app'' example_plus_files = Some (Inr m)"
  by (simp add: load_interface_files_def example_load_defs get_config_name_def path_basename_def
      assert_no_unexpected_plus_sign_def path_dirname_def starts_with_def Let_def
      load_config_plus_file_def load_config_interface_files_def get_interface_file_from_config_file_def
      extends_example_defs numeral_2_eq_2 load_value_plus_file_def get_config_definition_optional_def
      load_value_file_def assert_exports_of_value_file_def value_interface_file_def plus_file_path_def)


lemma map_of_value_file_entry:
  "map_of (value_file_entry cn e m) k = (if k = value_file_key cn (fst e) then Some (Some (snd e)) else map_of m k)"
  by (simp add: value_file_entry_def update_conv')

lemma map_of_fold_value_file_entry:
  "map_of (fold (value_file_entry cn) es m) =
     map_of m ++ map_of (rev (map (\<lambda>e. (value_file_key cn (fst e), Some (snd e))) es))"
proof (induction es arbitrary: m)
  case (Cons e es)
  show ?case
    unfolding fold_Cons comp_def Cons.IH
    by (simp add: value_file_entry_def update_conv' map_of_append map_add_upd_left[symmetric])
qed simp

lemma distinct_fold_value_file_entry:
  "distinct (map fst m) \<Longrightarrow> distinct (map fst (fold (value_file_entry cn) es m))"
  by (induction es arbitrary: m) (simp_all add: value_file_entry_def distinct_update)

lemma load_value_file_Inr:
  assumes "load_value_file exec g cn = Inr vf"
  obtains es where "exec (the (fp_absolute (if_path g))) = JObj es"
    "if_config_map vf = fold (value_file_entry cn) es (if_config_map g)"
    "(''default'' \<in> set (map fst es)) \<noteq> (cn \<in> set (map fst es))"
    "if_path vf = if_path g" "if_kind vf = if_kind g"
  using assms
  by (auto simp: load_value_file_def assert_exports_of_value_file_def split: sum.splits jsval.splits if_splits)

lemma dom_value_file_keys:
  "dom (map_of (rev (map (\<lambda>e. (value_file_key cn (fst e), Some (snd e))) es))) = value_file_key cn ` fst ` set es"
  by (auto simp: dom_map_of_conv_image_fst image_image)

lemma map_of_value_file_primary:
  assumes "d \<notin> set (map fst es)" "{d, k0} = {''default'', cn}"
  shows "map_of (rev (map (\<lambda>e. (value_file_key cn (fst e), Some (snd e))) es)) cn = map_option Some (map_of (rev es) k0)"
  using assms
proof (induction es rule: rev_induct)
  case (snoc x xs)
  then show ?case by (cases x) (auto simp: value_file_key_def doubleton_eq_iff)
qed simp

lemma load_value_file_props:
  assumes "load_value_file exec g cn = Inr vf" "exec (the (fp_absolute (if_path g))) = JObj es"
    and "if_config_map g = [(cn, None)]" "if_kind g = ValueFileKind cn"
  shows "fst ` set (if_config_map vf) = insert cn (fst ` set es - {''default''})
     \<and> value_file_wf vf
     \<and> interfacefile_is_already_loaded vf = Inr True
     \<and> map_of (if_config_map vf) cn = Some (map_of (rev es) (if ''default'' \<in> set (map fst es) then ''default'' else cn))"
proof -
  obtain es' where ex: "exec (the (fp_absolute (if_path g))) = JObj es'"
    and cm: "if_config_map vf = fold (value_file_entry cn) es' [(cn, None)]"
    and one: "(''default'' \<in> set (map fst es')) \<noteq> (cn \<in> set (map fst es'))"
    and kind: "if_kind vf = ValueFileKind cn"
    using load_value_file_Inr[OF assms(1)] assms(3,4) by metis
  have es: "es' = es" using ex assms(2) by simp
  let ?E = "rev (map (\<lambda>e. (value_file_key cn (fst e), Some (snd e))) es)"
  have mo: "map_of (if_config_map vf) = map_of [(cn, None)] ++ map_of ?E"
    using cm es map_of_fold_value_file_entry by metis
  have cn_in: "cn \<in> dom (map_of ?E)"
    using one es unfolding dom_value_file_keys by (force simp: value_file_key_def)
  have keys: "fst ` set (if_config_map vf) = insert cn (fst ` set es - {''default''})"
  proof -
    have "fst ` set (if_config_map vf) = dom (map_of (if_config_map vf))" by (simp add: dom_map_of_conv_image_fst)
    also have "\<dots> = insert cn (value_file_key cn ` fst ` set es)" using mo cn_in dom_value_file_keys[of cn es] by auto
    also have "\<dots> = insert cn (fst ` set es - {''default''})" by (auto simp: value_file_key_def)
    finally show ?thesis .
  qed
  have dist: "distinct (map fst (if_config_map vf))" using cm distinct_fold_value_file_entry[of "[(cn, None)]"] by simp
  have "v \<noteq> None" if "(k, v) \<in> set (if_config_map vf)" for k v
  proof -
    have k: "map_of (if_config_map vf) k = Some v" using that dist by simp
    show ?thesis
    proof (cases "k \<in> dom (map_of ?E)")
      case True
      then obtain w where w: "map_of ?E k = Some w" by auto
      then have "w \<noteq> None" using map_of_SomeD[OF w] by auto
      moreover have "v = w" using k mo w by simp
      ultimately show ?thesis by simp
    next
      case False
      then have "map_of [(cn, None)] k = Some v" using k mo by (simp add: map_add_dom_app_simps)
      then have "k = cn" by (simp split: if_splits)
      with False cn_in show ?thesis by simp
    qed
  qed
  then have all: "list_all (\<lambda>c. c \<noteq> None) (map snd (if_config_map vf))" by (auto simp: list_all_iff)
  have "if_config_map vf \<noteq> []" using keys by auto
  then have "list_ex (\<lambda>c. c \<noteq> None) (map snd (if_config_map vf))" using all by (cases "if_config_map vf") auto
  then have loaded: "interfacefile_is_already_loaded vf = Inr True"
    using all by (simp add: interfacefile_is_already_loaded_def)
  define k0 where "k0 = (if ''default'' \<in> set (map fst es) then ''default'' else cn)"
  have "map_of ?E cn = map_option Some (map_of (rev es) k0)"
    unfolding k0_def using one es
    by (intro map_of_value_file_primary[of "if ''default'' \<in> set (map fst es) then cn else ''default''"]) auto
  moreover have "k0 \<in> set (map fst es)" using one es by (auto simp: k0_def)
  then have "map_of (rev es) k0 \<noteq> None" by (simp add: map_of_eq_None_iff)
  then obtain y where y: "map_of (rev es) k0 = Some y" by blast
  ultimately have "map_of (if_config_map vf) cn = Some (map_of (rev es) k0)"
    using mo by (simp add: map_add_dom_app_simps)
  moreover have "value_file_wf vf" using kind
    using keys dist all by (auto simp: value_file_wf_def list_all_iff)
  ultimately show ?thesis using keys loaded by (simp add: k0_def)
qed

lemma push_interface_files_wf:
  "by_location_wf m \<Longrightarrow> list_all value_file_wf fs \<Longrightarrow> by_location_wf (push_interface_files l fs m)"
proof -
  assume m: "by_location_wf m" and fs: "list_all value_file_wf fs"
  let ?old = "case map_of m l of None \<Rightarrow> [] | Some xs \<Rightarrow> xs"
  have "list_all value_file_wf ?old" using m by (auto simp: by_location_wf_def list_all_iff dest: map_of_SomeD split: option.splits)
  then have "list_all (\<lambda>e. list_all value_file_wf (snd e)) (AList.update l (?old @ fs) m)"
    using m fs by (intro list_all_update) (auto simp: by_location_wf_def)
  then show ?thesis using m by (simp add: by_location_wf_def push_interface_files_def distinct_update)
qed

lemma map_of_push_interface_files:
  "map_of (push_interface_files l fs m) l' =
     (if l' = l then Some ((case map_of m l of None \<Rightarrow> [] | Some xs \<Rightarrow> xs) @ fs) else map_of m l')"
  by (simp add: push_interface_files_def update_conv')

lemma push_interface_files_keeps:
  "map_of m l = Some xs \<Longrightarrow> x \<in> set xs \<Longrightarrow> \<exists>ys. map_of (push_interface_files l' fs m) l = Some ys \<and> x \<in> set ys"
  by (auto simp: map_of_push_interface_files)

lemma partition_plus_files_Inr:
  "partition_plus_files is_tmp pfs = Inr (cs, vs) \<Longrightarrow> f \<in> set pfs \<Longrightarrow>
     get_config_name is_tmp (pf_relative f) = Inr cn \<Longrightarrow> cn \<noteq> Some ''config'' \<Longrightarrow> f \<in> set vs"
proof (induction pfs arbitrary: cs vs)
  case (Cons g gs)
  then show ?case by (auto split: sum.splits if_splits)
qed simp

lemma load_config_interface_files_config:
  assumes "load_config_interface_files fuel r exec root fp = Some (Inr ifs)" "g \<in> set ifs"
  shows "is_config_file g"
proof -
  obtain cf exts where
    m: "map_err (\<lambda>(c, b). get_interface_file_from_config_file c b) ((cf, False) # map (\<lambda>c. (c, True)) exts) = Inr ifs"
    using assms(1) by (auto simp: load_config_interface_files_def split: option.splits sum.splits)
  obtain x where "get_interface_file_from_config_file (fst x) (snd x) = Inr g"
    using map_err_Inr_result[OF m assms(2)] by (auto simp: split_beta)
  then show ?thesis using get_interface_file_from_config_file_kind by blast
qed

lemma config_file_wf: "is_config_file g \<Longrightarrow> value_file_wf g"
  by (cases "if_kind g") (simp_all add: value_file_wf_def)

lemma load_config_plus_file_wf:
  assumes "load_config_plus_file fuel r exec root loc_of f m = Some (Inr m')" "by_location_wf m"
  shows "by_location_wf m'"
proof -
  obtain ifs where ifs: "load_config_interface_files fuel r exec root (plus_file_path f) = Some (Inr ifs)"
    and m': "m' = push_interface_files (loc_of (pf_relative f)) ifs m"
    using assms(1) by (auto simp: load_config_plus_file_def split: option.splits sum.splits)
  have "list_all value_file_wf ifs"
    using load_config_interface_files_config[OF ifs] config_file_wf by (auto simp: list_all_iff)
  then show ?thesis using m' assms(2) push_interface_files_wf by simp
qed

lemma load_value_plus_file_Inr:
  assumes "load_value_plus_file is_tmp exec builtins loc_of f m = Inr m'"
  obtains cn vf where "get_config_name is_tmp (pf_relative f) = Inr (Some cn)"
    "m' = push_interface_files (loc_of (pf_relative f)) [vf] m"
    "if_path vf = plus_file_path f" "if_kind vf = ValueFileKind cn" "value_file_wf vf"
    "if \<exists>d. map_of builtins cn = Some d \<and> cd_env d = ConfigOnly
     then interfacefile_is_already_loaded vf = Inr True else if_config_map vf = [(cn, None)]"
proof -
  obtain cn where cn: "get_config_name is_tmp (pf_relative f) = Inr (Some cn)"
    using assms by (auto simp: load_value_plus_file_def split: sum.splits option.splits)
  let ?vf = "value_interface_file f cn"
  have fresh: "value_file_wf ?vf" "if_path ?vf = plus_file_path f" "if_kind ?vf = ValueFileKind cn"
    "if_config_map ?vf = [(cn, None)]"
    by (simp_all add: value_interface_file_def value_file_wf_def)
  show ?thesis
  proof (cases "\<exists>d. map_of builtins cn = Some d \<and> cd_env d = ConfigOnly")
    case True
    then obtain vf where l: "load_value_file exec ?vf cn = Inr vf"
      and m': "m' = push_interface_files (loc_of (pf_relative f)) [vf] m"
      using assms cn by (auto simp: load_value_plus_file_def get_config_definition_optional_def Let_def
          split: sum.splits)
    obtain es where "exec (the (fp_absolute (if_path ?vf))) = JObj es" using load_value_file_Inr[OF l] by blast
    then have "value_file_wf vf \<and> interfacefile_is_already_loaded vf = Inr True"
      using load_value_file_props[OF l] fresh by simp
    moreover have "if_path vf = plus_file_path f" "if_kind vf = ValueFileKind cn"
      using load_value_file_Inr[OF l] fresh by metis+
    ultimately show ?thesis using that[OF cn m'] True by simp
  next
    case False
    then have m': "m' = push_interface_files (loc_of (pf_relative f)) [?vf] m"
      using assms cn by (auto simp: load_value_plus_file_def get_config_definition_optional_def Let_def
          split: sum.splits option.splits)
    show ?thesis using that[OF cn m'] fresh False by simp
  qed
qed

lemma load_value_plus_file_wf:
  "load_value_plus_file is_tmp exec builtins loc_of f m = Inr m' \<Longrightarrow> by_location_wf m \<Longrightarrow> by_location_wf m'"
  by (erule load_value_plus_file_Inr) (auto intro: push_interface_files_wf)

lemma load_interface_files_Inr:
  assumes "load_interface_files fuel r exec is_tmp loc_of builtins root pfs = Some (Inr m)"
  obtains cs vs m0 where "partition_plus_files is_tmp pfs = Inr (cs, vs)"
    "fold_opt_err (load_config_plus_file fuel r exec root loc_of) cs [] = Some (Inr m0)"
    "fold_err (load_value_plus_file is_tmp exec builtins loc_of) vs m0 = Inr m"
  using assms by (auto simp: load_interface_files_def split: sum.splits option.splits)

lemma value_file_placed_push:
  assumes "value_file_placed builtins l f cn m"
  shows "value_file_placed builtins l f cn (push_interface_files l' fs m)"
proof -
  obtain xs vf where "map_of m l = Some xs" "vf \<in> set xs" and ok: "value_file_loaded_as builtins f cn vf"
    using assms unfolding value_file_placed_def by blast
  then obtain ys where "map_of (push_interface_files l' fs m) l = Some ys" "vf \<in> set ys"
    using push_interface_files_keeps by blast
  then show ?thesis using ok unfolding value_file_placed_def by blast
qed

lemma load_value_plus_file_places:
  assumes "load_value_plus_file is_tmp exec builtins loc_of f t = Inr t'"
    "get_config_name is_tmp (pf_relative f) = Inr (Some cn)"
  shows "value_file_placed builtins (loc_of (pf_relative f)) f cn t'"
  using assms(1)
proof (rule load_value_plus_file_Inr)
  fix cn' vf
  assume c: "get_config_name is_tmp (pf_relative f) = Inr (Some cn')"
    and t': "t' = push_interface_files (loc_of (pf_relative f)) [vf] t"
    and p: "if_path vf = plus_file_path f" "if_kind vf = ValueFileKind cn'"
    and l: "if \<exists>d. map_of builtins cn' = Some d \<and> cd_env d = ConfigOnly
     then interfacefile_is_already_loaded vf = Inr True else if_config_map vf = [(cn', None)]"
  have "cn' = cn" using c assms(2) by simp
  then have ok: "value_file_loaded_as builtins f cn vf" using p l by (simp add: value_file_loaded_as_def)
  have "map_of t' (loc_of (pf_relative f))
      = Some ((case map_of t (loc_of (pf_relative f)) of None \<Rightarrow> [] | Some xs \<Rightarrow> xs) @ [vf])"
    using t' by (simp add: map_of_push_interface_files)
  then show ?thesis using ok unfolding value_file_placed_def by auto
qed

lemma load_value_plus_file_keeps_placed:
  assumes "value_file_placed builtins l f cn t" "load_value_plus_file is_tmp exec builtins loc_of g t = Inr t'"
  shows "value_file_placed builtins l f cn t'"
  using assms(2)
proof (rule load_value_plus_file_Inr)
  fix vf assume "t' = push_interface_files (loc_of (pf_relative g)) [vf] t"
  then show ?thesis using value_file_placed_push[OF assms(1)] by simp
qed

lemma load_interface_files_by_location_wf:
  "load_interface_files fuel r exec is_tmp loc_of builtins root pfs = Some (Inr m) \<Longrightarrow> by_location_wf m"
proof (erule load_interface_files_Inr)
  fix cs vs m0
  assume c: "fold_opt_err (load_config_plus_file fuel r exec root loc_of) cs [] = Some (Inr m0)"
    and v: "fold_err (load_value_plus_file is_tmp exec builtins loc_of) vs m0 = Inr m"
  have "by_location_wf []" by (simp add: by_location_wf_def)
  then have "by_location_wf m0"
    using fold_opt_err_invariant[OF c, of by_location_wf] load_config_plus_file_wf by blast
  then show "by_location_wf m"
    using fold_err_invariant[OF v, of by_location_wf] load_value_plus_file_wf by blast
qed

lemma relevant_map_files:
  "get_interface_files_relevant (map (\<lambda>e. (fst e, r (snd e))) m) lid
     = map (\<lambda>e. (fst e, r (snd e))) (get_interface_files_relevant m lid)"
proof -
  let ?h = "\<lambda>e. (fst e, r (snd e))"
  have k: "inheritance_key (?h e) = inheritance_key e" for e by (simp add: inheritance_key_def)
  have f: "filter (\<lambda>e. is_inherited (fst e) lid) (map ?h m) = map ?h (filter (\<lambda>e. is_inherited (fst e) lid) m)"
    by (simp add: filter_map comp_def)
  show ?thesis
    unfolding get_interface_files_relevant_def f by (rule sort_key_map_same_key) (rule k)
qed

lemma replace_interface_file_relevant:
  "get_interface_files_relevant (replace_interface_file f f' m) lid
     = replace_interface_file f f' (get_interface_files_relevant m lid)"
  unfolding replace_interface_file_def by (rule relevant_map_files)

lemma replace_interface_file_list:
  "get_interface_file_list (replace_interface_file f f' m)
     = map (\<lambda>g. if g = f then f' else g) (get_interface_file_list m)"
  by (induction m) (auto simp: get_interface_file_list_def replace_interface_file_def)

lemma replace_interface_file_wf:
  "by_location_wf m \<Longrightarrow> value_file_wf f' \<Longrightarrow> by_location_wf (replace_interface_file f f' m)"
proof -
  assume m: "by_location_wf m" and f': "value_file_wf f'"
  have "map fst (replace_interface_file f f' m) = map fst m"
    by (induction m) (auto simp: replace_interface_file_def)
  moreover have "list_all (\<lambda>e. list_all value_file_wf (snd e)) (replace_interface_file f f' m)"
    using m f' by (auto simp: by_location_wf_def replace_interface_file_def list_all_iff)
  ultimately show ?thesis using m by (simp add: by_location_wf_def)
qed

lemma relevant_file_list_wf:
  "by_location_wf m \<Longrightarrow> list_all value_file_wf (get_interface_file_list (get_interface_files_relevant m lid))"
  by (auto simp: by_location_wf_def get_interface_file_list_def get_interface_files_relevant_def list_all_iff)

lemma value_file_wf_not_loaded:
  "value_file_wf g \<Longrightarrow> if_kind g = ValueFileKind cn \<Longrightarrow> interfacefile_is_already_loaded g = Inr False
   \<Longrightarrow> if_config_map g = [(cn, None)]"
  by (cases "if_config_map g")
     (auto simp: value_file_wf_def interfacefile_is_already_loaded_def list_all_iff split: if_splits)

lemma get_config_definition_Inr:
  "get_config_definition gn ms defs cn file = Inr d \<Longrightarrow> map_of defs cn = Some d"
  by (auto simp: get_config_definition_def split: sum.splits option.splits)

lemma load_custom_value_file_step:
  assumes "load_custom_value_file le defs x t = Inr t'" "value_file_wf x"
  shows "(t' = t \<and> (custom_config_only le defs x \<longrightarrow> interfacefile_is_already_loaded x = Inr True))
     \<or> (\<exists>x'. t' = replace_interface_file x x' t \<and> value_file_wf x' \<and> interfacefile_is_already_loaded x' = Inr True)"
proof (cases "value_config_name x")
  case None
  then show ?thesis using assms(1) by (simp add: load_custom_value_file_def custom_config_only_def)
next
  case (Some cn)
  then have kind: "if_kind x = ValueFileKind cn" by (cases "if_kind x") auto
  let ?gn = "map fst (le_global_defs le)"
  show ?thesis
  proof (cases "is_global_config ?gn cn")
    case True
    then show ?thesis using assms(1) Some by (simp add: load_custom_value_file_def custom_config_only_def)
  next
    case notg: False
    then obtain d where gd: "get_config_definition ?gn (le_most_similar le) defs cn
        (get_file_path_to_show_to_user (if_path x)) = Inr d"
      using assms(1) Some by (auto simp: load_custom_value_file_def split: sum.splits)
    have md: "map_of defs cn = Some d" using get_config_definition_Inr[OF gd] .
    show ?thesis
    proof (cases "cd_env d = ConfigOnly")
      case False
      then show ?thesis using assms(1) Some notg gd md
        by (simp add: load_custom_value_file_def custom_config_only_def)
    next
      case co: True
      consider "interfacefile_is_already_loaded x = Inr True" | "interfacefile_is_already_loaded x = Inr False"
        using assms(1) Some notg gd co by (auto simp: load_custom_value_file_def split: sum.splits)
      then show ?thesis
      proof cases
        case 1
        then show ?thesis using assms(1) Some notg gd co by (simp add: load_custom_value_file_def)
      next
        case 2
        then obtain x' where l: "load_value_file (le_exec le) x cn = Inr x'"
          and t': "t' = replace_interface_file x x' t"
          using assms(1) Some notg gd co by (auto simp: load_custom_value_file_def split: sum.splits if_splits)
        have cm: "if_config_map x = [(cn, None)]" using value_file_wf_not_loaded[OF assms(2) kind 2] .
        obtain es where "le_exec le (the (fp_absolute (if_path x))) = JObj es" using load_value_file_Inr[OF l] by blast
        then have "value_file_wf x' \<and> interfacefile_is_already_loaded x' = Inr True"
          using load_value_file_props[OF l _ cm kind] by simp
        then show ?thesis using t' by blast
      qed
    qed
  qed
qed

lemma load_custom_value_files_loads:
  assumes "fold_err (load_custom_value_file le defs) (get_interface_file_list (get_interface_files_relevant m lid)) m = Inr m'"
    and "by_location_wf m"
  shows "by_location_wf m' \<and> (\<forall>g\<in>set (get_interface_file_list (get_interface_files_relevant m' lid)).
            custom_config_only le defs g \<longrightarrow> interfacefile_is_already_loaded g = Inr True)"
proof -
  let ?L = "\<lambda>t. get_interface_file_list (get_interface_files_relevant t lid)"
  let ?Q = "\<lambda>ys t. by_location_wf t \<and> list_all value_file_wf ys
     \<and> (\<forall>g\<in>set (?L t). custom_config_only le defs g \<longrightarrow> interfacefile_is_already_loaded g = Inr True \<or> g \<in> set ys)"
  have "?Q [] m'"
  proof (rule fold_err_suffix_invariant[OF assms(1)])
    show "?Q (?L m) m" using assms(2) relevant_file_list_wf by blast
  next
    fix x ys t t'
    assume q: "?Q (x # ys) t" and step: "load_custom_value_file le defs x t = Inr t'"
    then have wfx: "value_file_wf x" by simp
    from load_custom_value_file_step[OF step wfx] show "?Q ys t'"
    proof
      assume "t' = t \<and> (custom_config_only le defs x \<longrightarrow> interfacefile_is_already_loaded x = Inr True)"
      then show ?thesis using q by auto
    next
      assume "\<exists>x'. t' = replace_interface_file x x' t \<and> value_file_wf x' \<and> interfacefile_is_already_loaded x' = Inr True"
      then obtain x' where t': "t' = replace_interface_file x x' t" and x': "value_file_wf x'"
        "interfacefile_is_already_loaded x' = Inr True" by blast
      have "?L t' = map (\<lambda>g. if g = x then x' else g) (?L t)"
        using t' by (simp add: replace_interface_file_relevant replace_interface_file_list)
      then show ?thesis using q x' t' replace_interface_file_wf by auto
    qed
  qed
  then show ?thesis by simp
qed

lemma apply_computed_page_id: "pc_page_id (apply_computed fns defs pc) = pc_page_id pc"
  unfolding apply_computed_def
  by (induction defs arbitrary: pc) (auto simp: apply_computed_of_def Let_def split: option.splits prod.splits)

lemma finalize_page_config_page_id:
  "finalize_page_config fns defs lid srcs = Inr pc \<Longrightarrow> pc_page_id pc = lid"
  by (auto simp: finalize_page_config_def apply_computed_page_id Let_def dest!: apply_effects_all_env_map
      split: sum.splits)

lemma load_page_config_Inr:
  assumes "load_page_config le lid (m, fe) = Inr (res, st')"
  obtains defs m' srcs fe' route pc where
    "get_config_definitions (le_builtins le) (get_interface_files_relevant m lid) = Inr defs"
    "fold_err (load_custom_value_file le defs) (get_interface_file_list (get_interface_files_relevant m lid)) m = Inr m'"
    "page_sources le defs (get_interface_files_relevant m' lid) fe = Inr (srcs, fe')"
    "determine_route_filesystem (le_routing le) (location_string lid) srcs = Inr route"
    "finalize_page_config (le_functions le) defs lid srcs = Inr pc"
    "res = (route, pc)" "st' = (m', fe')"
  using assms by (auto simp: load_page_config_def split: sum.splits prod.splits)

lemma load_page_config_page_id:
  "load_page_config le lid st = Inr (r, st') \<Longrightarrow> pc_page_id (snd r) = lid"
proof -
  assume a: "load_page_config le lid st = Inr (r, st')"
  obtain m fe where st: "st = (m, fe)" by (cases st)
  show ?thesis
    by (rule load_page_config_Inr[OF a[unfolded st]]) (auto dest: finalize_page_config_page_id)
qed

lemma load_vike_config_Inr:
  assumes "load_vike_config fuel le pfs = Some (Inr (pcs, gres))"
  obtains m fe st' where
    "load_interface_files fuel (le_resolver le) (le_exec le) (le_is_tmp le) (le_loc_of le) (le_builtins le)
       (le_root le) pfs = Some (Inr m)"
    "get_global_configs (le_resolver le) (le_root le) (le_global_defs le) m (\<lambda>_. None) = Inr (gres, fe)"
    "map_st (load_page_config le) (map fst (filter (\<lambda>e. is_defining_page (snd e)) m)) (m, fe) = Inr (pcs, st')"
    "assert_known_configs (le_builtins le) (le_global_defs le) (le_most_similar le) (fst st') = Inr ()"
  using assms by (auto simp: load_vike_config_def split: option.splits sum.splits prod.splits)

lemma example_vike_env_fields: "le_resolver example_vike_env = example_resolver" "le_root example_vike_env = ''/app''"
  "le_exec example_vike_env = example_vike_exec" "le_is_tmp example_vike_env = (\<lambda>p. False)"
  "le_loc_of example_vike_env = (\<lambda>p. [''pages''])" "le_builtins example_vike_env = example_vike_builtins"
  "le_global_defs example_vike_env = []" "le_most_similar example_vike_env = (\<lambda>cn names. None)"
  "le_routing example_vike_env = example_routing_env" "le_functions example_vike_env = example_functions"
  by (simp_all add: example_vike_env_def)

lemma example_vike_table: "load_interface_files 2 example_resolver example_vike_exec (\<lambda>p. False) (\<lambda>p. [''pages''])
     example_vike_builtins ''/app'' example_vike_files
   = Some (Inr [([''pages''], [example_vike_config_if, example_vike_value_if None])])"
  by (simp add: load_interface_files_def example_vike_files_def example_vike_exec_def example_vike_builtins_def
      get_config_name_def path_basename_def assert_no_unexpected_plus_sign_def path_dirname_def starts_with_def Let_def
      load_config_plus_file_def load_config_interface_files_def get_interface_file_from_config_file_def
      example_resolver_def extends_example_defs numeral_2_eq_2 load_value_plus_file_def get_config_definition_optional_def
      load_value_file_def assert_exports_of_value_file_def value_interface_file_def plus_file_path_def
      push_interface_files_def example_vike_config_if_def example_vike_value_if_def)

lemma example_vike_global: "get_global_configs example_resolver ''/app'' []
    [([''pages''], [example_vike_config_if, example_vike_value_if None])] (\<lambda>_. None) = Inr (([], []), \<lambda>_. None)"
  by (simp add: get_global_configs_def check_global_placement_def is_global_config_def example_vike_config_if_def
      example_vike_value_if_def)

lemma example_vike_relevant: "get_interface_files_relevant [([''pages''], fs)] [''pages''] = [([''pages''], fs)]"
  by (simp add: get_interface_files_relevant_def is_inherited_def)

lemma example_vike_definitions: "get_config_definitions example_vike_builtins [([''pages''], [example_vike_config_if, example_vike_value_if None])]
   = Inr example_vike_defs"
  by (simp add: example_vike_defs_def example_vike_builtins_def example_vike_config_if_def example_vike_value_if_def
      get_config_definitions_def apply_meta_of_file_def merge_config_def_def
      assert_meta_value_def assert_meta_entry_def js_has_key_def js_get_def parse_config_env_def)

lemma example_vike_loads: "fold_err (load_custom_value_file example_vike_env example_vike_defs)
    (get_interface_file_list [([''pages''], [example_vike_config_if, example_vike_value_if None])])
    [([''pages''], [example_vike_config_if, example_vike_value_if None])]
   = Inr [([''pages''], [example_vike_config_if, example_vike_value_if (Some (JStr ''data''))])]"
  by (simp add: example_vike_env_fields example_vike_defs_def example_vike_builtins_def example_vike_config_if_def example_vike_value_if_def
     get_interface_file_list_def load_custom_value_file_def is_global_config_def get_config_definition_def
     assert_config_exists_def interfacefile_is_already_loaded_def load_value_file_def assert_exports_of_value_file_def
     replace_interface_file_def example_vike_exec_def value_file_entry_def value_file_key_def)

lemma example_vike_page: "\<exists>r fe'. load_page_config example_vike_env [''pages'']
    ([([''pages''], [example_vike_config_if, example_vike_value_if None])], \<lambda>_. None)
   = Inr (r, ([([''pages''], [example_vike_config_if, example_vike_value_if (Some (JStr ''data''))])], fe'))"
  apply (simp add: load_page_config_def example_vike_env_fields example_vike_relevant example_vike_definitions example_vike_loads)
  by (simp add: example_vike_env_fields page_sources_def page_source_step_def is_global_config_def example_vike_defs_def example_vike_builtins_def
      example_vike_config_if_def example_vike_value_if_def example_resolver_def resolution_defs Let_def
      determine_route_filesystem_def example_routing_env_def location_string_def determine_is_error_page_def
      route_filesystem_of_def starts_with_def finalize_page_config_def effects_example_defs get_config_values_def
      get_config_value_def get_defined_at_file_def apply_computed_def apply_computed_of_def apply_effect_of_def
      get_defined_at_file_path_to_show_to_user_def)

lemma example_vike_known: "assert_known_configs example_vike_builtins [] (\<lambda>cn names. None)
    [([''pages''], [example_vike_config_if, example_vike_value_if (Some (JStr ''data''))])] = Inr ()"
  by (simp add: assert_known_configs_def example_vike_relevant example_vike_builtins_def example_vike_config_if_def example_vike_value_if_def
      get_config_definitions_def apply_meta_of_file_def merge_config_def_def assert_config_exists_def
      assert_meta_value_def assert_meta_entry_def js_has_key_def js_get_def parse_config_env_def)

lemma example_vike_run: "\<exists>pcs gres. load_vike_config 2 example_vike_env example_vike_files = Some (Inr (pcs, gres))"
proof -
  obtain r fe' where p: "load_page_config example_vike_env [''pages'']
    ([([''pages''], [example_vike_config_if, example_vike_value_if None])], \<lambda>_. None)
   = Inr (r, ([([''pages''], [example_vike_config_if, example_vike_value_if (Some (JStr ''data''))])], fe'))"
    using example_vike_page by blast
  have d: "is_defining_page [example_vike_config_if, example_vike_value_if None]"
    by (simp add: is_defining_page_def is_defining_page_config_def example_vike_config_if_def)
  show ?thesis
    by (simp add: load_vike_config_def example_vike_env_fields example_vike_table example_vike_global d p example_vike_known bind_st_def)
qed

subsection \<open>Properties of loading\<close>

text \<open>C23. Loading a value file: after \<open>loadValueFile\<close> a value file's config map
  holds its own config and every export other than the default one, each with its
  value (so the file counts as loaded), and its own config holds the default export,
  or the export named after it.\<close>

theorem load_value_file_config_map:
  assumes "load_value_file exec (value_interface_file f cn) cn = Inr vf" "exec (pf_absolute f) = JObj es"
  shows "fst ` set (if_config_map vf) = insert cn (fst ` set es - {''default''})
     \<and> interfacefile_is_already_loaded vf = Inr True
     \<and> map_of (if_config_map vf) cn = Some (map_of (rev es) (if ''default'' \<in> set (map fst es) then ''default'' else cn))"
  using load_value_file_props[OF assms(1)] assms(2) by (simp add: value_interface_file_def plus_file_path_def)

theorem load_value_file_config_map_witness:
  "\<exists>vf. load_value_file example_load_exec (value_interface_file example_title_file ''title'') ''title'' = Inr vf
     \<and> fst ` set (if_config_map vf) = {''title'', ''description''} \<and> interfacefile_is_already_loaded vf = Inr True
     \<and> map_of (if_config_map vf) ''title'' = Some (Some (JStr ''Hello''))"
proof -
  obtain vf where ok: "load_value_file example_load_exec (value_interface_file example_title_file ''title'') ''title'' = Inr vf"
    by (simp add: load_value_file_def assert_exports_of_value_file_def value_interface_file_def plus_file_path_def
        example_load_defs example_title_file_def)
  have "example_load_exec (pf_absolute example_title_file) = JObj [(''default'', JStr ''Hello''), (''description'', JStr ''A page'')]"
    by (simp add: example_load_defs example_title_file_def)
  from load_value_file_config_map[OF ok this] ok show ?thesis by auto
qed

text \<open>C21. Well-formed interface-file table: \<open>loadInterfaceFiles\<close> returns every
  location id once, and every value file in it either without a value (as created)
  or fully loaded, its own config among distinct keys.\<close>

theorem load_interface_files_wf:
  "load_interface_files fuel r exec is_tmp loc_of builtins root pfs = Some (Inr m) \<Longrightarrow> by_location_wf m"
  by (rule load_interface_files_by_location_wf)

theorem load_interface_files_wf_witness:
  "\<exists>m. load_interface_files 2 example_extends_resolver example_load_exec (\<lambda>p. False) (\<lambda>p. [''pages''])
     example_load_builtins ''/app'' example_plus_files = Some (Inr m) \<and> by_location_wf m"
  using example_load_ok load_interface_files_wf by blast

text \<open>C22. Every value file is loaded where it lives: a \<open>+\<close> file other than
  \<open>+config.js\<close> becomes a value file of its config at the location of its path, loaded
  eagerly exactly when its built-in definition is \<open>config-only\<close>.\<close>

theorem load_interface_files_value_file:
  assumes "load_interface_files fuel r exec is_tmp loc_of builtins root pfs = Some (Inr m)"
    and "f \<in> set pfs" "get_config_name is_tmp (pf_relative f) = Inr (Some cn)" "cn \<noteq> ''config''"
  shows "value_file_placed builtins (loc_of (pf_relative f)) f cn m"
  using assms(1)
proof (rule load_interface_files_Inr)
  fix cs vs m0
  assume p: "partition_plus_files is_tmp pfs = Inr (cs, vs)"
    and v: "fold_err (load_value_plus_file is_tmp exec builtins loc_of) vs m0 = Inr m"
  have "f \<in> set vs" using partition_plus_files_Inr[OF p assms(2,3)] assms(4) by simp
  then show ?thesis
    using fold_err_establish[OF v, of f "value_file_placed builtins (loc_of (pf_relative f)) f cn"]
      load_value_plus_file_places[OF _ assms(3)] load_value_plus_file_keeps_placed by blast
qed

theorem load_interface_files_value_file_witness:
  "\<exists>m. load_interface_files 2 example_extends_resolver example_load_exec (\<lambda>p. False) (\<lambda>p. [''pages''])
     example_load_builtins ''/app'' example_plus_files = Some (Inr m)
   \<and> value_file_placed example_load_builtins [''pages'']
       \<lparr>pf_absolute = ''/app/pages/+prerender.js'', pf_relative = ''/pages/+prerender.js''\<rparr> ''prerender'' m"
proof -
  obtain m where ok: "load_interface_files 2 example_extends_resolver example_load_exec (\<lambda>p. False) (\<lambda>p. [''pages''])
     example_load_builtins ''/app'' example_plus_files = Some (Inr m)" using example_load_ok by blast
  have "get_config_name (\<lambda>p. False) ''/pages/+prerender.js'' = Inr (Some ''prerender'')"
    by (simp add: get_config_name_def path_basename_def assert_no_unexpected_plus_sign_def path_dirname_def
        starts_with_def Let_def)
  then show ?thesis
    using ok load_interface_files_value_file[OF ok, of "\<lparr>pf_absolute = ''/app/pages/+prerender.js'', pf_relative = ''/pages/+prerender.js''\<rparr>" "''prerender''"]
    by (auto simp: example_plus_files_def)
qed


text \<open>C20. The page loop loads the value files of custom \<open>config-only\<close> configs: on a
  well-formed table, after one page of \<open>loadVikeConfig\<close>, the table is still well
  formed and every value file at the page's locations whose config is not global and
  is \<open>config-only\<close> by the page's definitions (a custom one, declared by \<open>meta\<close>) is
  loaded; its sources are then resolved over this table.\<close>

theorem load_page_config_loads_custom_values:
  assumes "by_location_wf m" "load_page_config le lid (m, fe) = Inr (res, (m', fe'))"
    and "get_config_definitions (le_builtins le) (get_interface_files_relevant m lid) = Inr defs"
  shows "by_location_wf m' \<and> (\<forall>g\<in>set (get_interface_file_list (get_interface_files_relevant m' lid)).
     custom_config_only le defs g \<longrightarrow> interfacefile_is_already_loaded g = Inr True)"
proof -
  obtain defs' m'' fe'' where d: "get_config_definitions (le_builtins le) (get_interface_files_relevant m lid) = Inr defs'"
    and l: "fold_err (load_custom_value_file le defs') (get_interface_file_list (get_interface_files_relevant m lid)) m = Inr m''"
    and st: "(m', fe') = (m'', fe'')"
    by (rule load_page_config_Inr[OF assms(2)]) blast
  have "defs' = defs" using d assms(3) by simp
  then show ?thesis using load_custom_value_files_loads[OF l assms(1)] st by simp
qed

theorem load_page_config_loads_custom_values_witness:
  "\<exists>r fe'. load_page_config example_vike_env [''pages'']
      ([([''pages''], [example_vike_config_if, example_vike_value_if None])], \<lambda>_. None)
    = Inr (r, ([([''pages''], [example_vike_config_if, example_vike_value_if (Some (JStr ''data''))])], fe'))
   \<and> interfacefile_is_already_loaded (example_vike_value_if (Some (JStr ''data''))) = Inr True"
proof -
  obtain r fe' where p: "load_page_config example_vike_env [''pages'']
      ([([''pages''], [example_vike_config_if, example_vike_value_if None])], \<lambda>_. None)
    = Inr (r, ([([''pages''], [example_vike_config_if, example_vike_value_if (Some (JStr ''data''))])], fe'))"
    using example_vike_page by blast
  have wf: "by_location_wf [([''pages''], [example_vike_config_if, example_vike_value_if None])]"
    by (simp add: by_location_wf_def value_file_wf_def example_vike_config_if_def example_vike_value_if_def)
  have d: "get_config_definitions (le_builtins example_vike_env)
      (get_interface_files_relevant [([''pages''], [example_vike_config_if, example_vike_value_if None])] [''pages''])
    = Inr example_vike_defs"
    by (simp add: example_vike_env_fields example_vike_relevant example_vike_definitions)
  have "custom_config_only example_vike_env example_vike_defs (example_vike_value_if (Some (JStr ''data'')))"
    by (simp add: custom_config_only_def example_vike_env_fields example_vike_value_if_def example_vike_defs_def
        example_vike_builtins_def is_global_config_def)
  then show ?thesis
    using p load_page_config_loads_custom_values[OF wf p d]
    by (simp add: example_vike_relevant get_interface_file_list_def)
qed

text \<open>C19. \<open>loadVikeConfig\<close> composes the components: when it succeeds, the
  interface files it loaded form a well-formed table, and its page configs are, in
  order, one per location of that table whose files define a page (\<open>Page\<close> or
  \<open>route\<close>), with that location as page id.\<close>

theorem load_vike_config_pages:
  assumes "load_vike_config fuel le pfs = Some (Inr (pcs, gres))"
  shows "\<exists>m. load_interface_files fuel (le_resolver le) (le_exec le) (le_is_tmp le) (le_loc_of le) (le_builtins le)
             (le_root le) pfs = Some (Inr m)
     \<and> by_location_wf m \<and> map (\<lambda>p. pc_page_id (snd p)) pcs = map fst (filter (\<lambda>e. is_defining_page (snd e)) m)"
proof (rule load_vike_config_Inr[OF assms])
  fix m fe st'
  assume lm: "load_interface_files fuel (le_resolver le) (le_exec le) (le_is_tmp le) (le_loc_of le) (le_builtins le)
       (le_root le) pfs = Some (Inr m)"
    and ms: "map_st (load_page_config le) (map fst (filter (\<lambda>e. is_defining_page (snd e)) m)) (m, fe) = Inr (pcs, st')"
  have "list_all2 (\<lambda>lid r. lid = pc_page_id (snd r)) (map fst (filter (\<lambda>e. is_defining_page (snd e)) m)) pcs"
    by (rule map_st_rel[OF ms]) (auto dest: load_page_config_page_id)
  then have "map fst (filter (\<lambda>e. is_defining_page (snd e)) m) = map (\<lambda>p. pc_page_id (snd p)) pcs"
    by (simp add: list_all2_eq list.rel_map)
  then show ?thesis using lm load_interface_files_by_location_wf[OF lm] by auto
qed

theorem load_vike_config_pages_witness:
  "\<exists>pcs gres. load_vike_config 2 example_vike_env example_vike_files = Some (Inr (pcs, gres))
     \<and> map (\<lambda>p. pc_page_id (snd p)) pcs = [[''pages'']]"
proof -
  obtain pcs gres where ok: "load_vike_config 2 example_vike_env example_vike_files = Some (Inr (pcs, gres))"
    using example_vike_run by blast
  have "is_defining_page [example_vike_config_if, example_vike_value_if None]"
    by (simp add: is_defining_page_def is_defining_page_config_def example_vike_config_if_def)
  then show ?thesis
    using ok load_vike_config_pages[OF ok] by (auto simp: example_vike_env_fields example_vike_table)
qed

end
