(* ===== verification/Spec2Isabelle.thy ===== *)
theory Spec2Isabelle
  imports Resolution Locations Effects Extends Validation Reload Analyze Naming Loading
begin

text \<open>
  Verification development of the config resolution of vike's V1 design
  (\<open>src/vike/node/plugin/plugins/importUserCode/v1-design/getVikeConfig.ts\<close>) and of
  the page analysis that uses a page's resolved config at render time
  (\<open>src/vike/node/runtime/renderPage/analyzePage.ts\<close>).

  \<^bold>\<open>The program.\<close> \<open>loadVikeConfig\<close> finds the \<open>+\<close> files of the user's project,
  loads each one into an interface file (a \<open>+config.js\<close>, its extended config files,
  or a \<open>+{configName}.js\<close> value file), groups them by location, and then, per page,
  takes the files of the locations the page inherits from, builds the config
  definitions from the built-in ones and the \<open>meta\<close> declarations, resolves every
  config to its ordered value sources, applies effects and computed values, and
  checks unknown and global configs. In the dev server, \<open>reloadVikeConfig\<close> restarts
  this pass on every change and \<open>handleReloadSideEffects\<close> logs the recovery or
  restarts a corrupt dev server. At render time \<open>analyzePage\<close> turns a page config
  into the client dependencies and client entries of the page.

  \<^bold>\<open>Theories.\<close>
  \<^item> \<open>Prelude\<close>: named types of the model, the plumbing of state and errors
    (\<open>bind_st\<close>, \<open>map_st\<close>, \<open>map_err\<close>, \<open>for_each_err\<close>, the fuel-aware \<open>Promise.all\<close>
    \<open>map_opt_err\<close>) and the list, alist and option lemmas the components share.
  \<^item> \<open>Model\<close>: the data: \<open>jsval\<close> for JavaScript values, \<open>FilePath\<close>,
    the \<open>InterfaceFile\<close> union (\<open>interface_file\<close>, \<open>if_kind\<close>), config definitions and
    value sources, and the \<open>error\<close> datatype with one constructor per usage error or
    assertion of the code.
  \<^item> \<open>Resolution\<close>: \<open>resolveConfigValueSources\<close>, \<open>makeOrderDeterministic\<close>,
    \<open>warnOverridenConfigValues\<close>, \<open>getConfigValueSource\<close>, \<open>resolveImport\<close> and its
    path helpers, and \<open>assertFileEnv\<close>, with the module-level \<open>filesEnv\<close> map threaded
    as explicit state.
  \<^item> \<open>Locations\<close>: \<open>getInterfaceFilesRelevant\<close>; \<open>isInherited\<close>,
    \<open>sortAfterInheritanceOrder\<close> and \<open>isGlobalLocation\<close> live in
    \<open>filesystemRouting.ts\<close>, outside the sources, and are modelled from the spec.
  \<^item> \<open>Registry\<close>: \<open>getConfigDefinitions\<close> and \<open>assertMetaValue\<close>; the spread
    \<open>{...configDefinitions[configName], ...configDefinition}\<close> is
    \<open>merge_config_def\<close>, field by field over the five fields of a definition.
  \<^item> \<open>Cumulative\<close>: \<open>getConfigValues\<close>, \<open>mergeCumulative\<close>, \<open>getDefinedAtFile\<close>.
  \<^item> \<open>Effects\<close>: \<open>applyEffectsAll\<close>, \<open>applyEffect\<close>, \<open>applyComputed\<close> and the per-page
    composition of \<open>loadVikeConfig\<close> (sources, then effects, then computed values,
    then the values) as \<open>finalize_page_config\<close>, refined from an abstract spec. The
    page config a computed function receives holds the page id, sources and values;
    \<open>isErrorPage\<close> and \<open>routeFilesystem\<close> are computed beside it (\<open>Naming\<close>) and are
    not visible to computed functions in the model.
  \<^item> \<open>Extends\<close>: \<open>loadConfigFile\<close>, \<open>loadExtendsConfigs\<close>, \<open>assertNoInfiniteLoop\<close>,
    \<open>getExtendsImportData\<close>, \<open>determineFilePathRelativeToUserDir\<close> and the config-file
    branch of \<open>loadInterfaceFiles\<close>.
  \<^item> \<open>Validation\<close>: \<open>isGlobalConfig\<close>, \<open>assertConfigExists\<close>, \<open>handleUnknownConfig\<close>,
    \<open>getGlobalConfigs\<close> (the placement check and the global values), the unknown-config
    pass of \<open>loadVikeConfig\<close>, \<open>interfacefileIsAlreaydLoaded\<close>, \<open>isDefiningPage\<close>.
  \<^item> \<open>Reload\<close>: the module state \<open>vikeConfigPromise\<close>, \<open>isConfigInvalid\<close>,
    \<open>wasConfigInvalid\<close> and \<open>devServerIsCorrupt\<close> as a record, \<open>reloadVikeConfig\<close>,
    \<open>getVikeConfig\<close>, the settling of \<open>loadVikeConfig_withErrorHandling\<close> and the two
    halves of \<open>handleReloadSideEffects\<close> around its \<open>await\<close> as events of a step
    function, with reachability as an inductive predicate. Each pass's computation is
    abstracted to its outcome, success or failure.
  \<^item> \<open>Analyze\<close>: \<open>analyzePage\<close> for a page with a page config.
  \<^item> \<open>Naming\<close>: \<open>getConfigName\<close>, \<open>assertNoUnexpectedPlusSign\<close> and
    \<open>isVikeConfigFile\<close> (which \<open>+\<close> file configures what), and
    \<open>determineRouteFilesystem\<close>, \<open>getFilesystemRoutingRootEffect\<close> and
    \<open>determineIsErrorPage\<close> (the route of a location); JavaScript's \<open>split\<close> and
    \<open>join\<close> and \<open>path.posix.basename\<close> are written out, \<open>isTmpFile\<close> and the
    helpers of \<open>filesystemRouting.ts\<close> are collaborators.
  \<^item> \<open>Loading\<close>: \<open>loadInterfaceFiles\<close> (the \<open>+\<close> files split into config and
    value files, grouped by location id, value files of built-in \<open>config-only\<close>
    configs loaded eagerly), \<open>loadValueFile\<close>, \<open>getConfigDefinition\<close>,
    \<open>getInterfaceFileList\<close>, and the body of \<open>loadVikeConfig\<close> that composes the
    other theories: the global configs, then per page the loading of the value
    files of custom \<open>config-only\<close> configs, the sources of every config (with
    \<open>filesEnv\<close> threaded), the route and the three passes of \<open>Effects\<close>, then the
    unknown-config pass. \<open>interfaceFilesByLocationId\<close> is explicit state: loading a
    value file mutates an interface file that every later page sees, which the
    model writes as a replacement in the table.
  \<^item> This theory: the properties that span the inheritance resolver, the registry
    and the source resolution.

  \<^bold>\<open>Composition.\<close> \<open>load_vike_config\<close> calls \<open>load_interface_files\<close>
  (\<open>Loading\<close>, which calls \<open>load_config_interface_files\<close> of \<open>Extends\<close> and
  \<open>get_config_name\<close> of \<open>Naming\<close>), \<open>get_global_configs\<close> (\<open>Validation\<close>), and
  per page \<open>get_interface_files_relevant\<close> (\<open>Locations\<close>), \<open>get_config_definitions\<close>
  (\<open>Registry\<close>), \<open>resolve_config_value_sources\<close> (\<open>Resolution\<close>),
  \<open>determine_route_filesystem\<close> (\<open>Naming\<close>) and \<open>finalize_page_config\<close>
  (\<open>Effects\<close>, over \<open>Cumulative\<close>), then \<open>assert_known_configs\<close> (\<open>Validation\<close>).
  The well-formedness of the interface-file table (\<open>by_location_wf\<close>) is the
  invariant these steps share.

  \<^bold>\<open>Collaborators.\<close> What the sources call but do not define is a parameter: the
  import resolver (\<open>requireResolve\<close>), the execution of a config file
  (\<open>transpileAndExecuteFile\<close>), the user functions of effects and computed values,
  \<open>getMostSimilar\<close>, the built-in config definitions, \<open>isTmpFile\<close>, the route
  helpers of \<open>filesystemRouting.ts\<close>, and the functions \<open>analyzePage\<close> calls. Each theorem holds for every choice of them.

  \<^bold>\<open>What the lemmas show.\<close> The precedence of value sources (a value file over a
  direct \<open>+config.js\<close> over extends, deeper location over shallower) and a refinement
  of \<open>resolveConfigValueSources\<close> by the ordering of its sources; the cumulative merge
  and its mixing error; that an effect reassigns exactly the environments of its
  target's sources; computed values; meta validation, and that the meta of the
  shallowest declaring location sets a config's environment and a merged meta can
  keep an effect off \<open>config-only\<close>; termination of extends, that every reachable
  extends cycle makes the load fail and every loop error names a real cycle,
  completeness of extends, the depth-first pre-order of \<open>extendsConfigs\<close> and its
  lack of deduplication, and the agreement of the two root-relative path
  computations, with the internal error for every path beside the user root; the placement of global configs; an invariant of
  every reachable reload state, the recovery after a good reload and that only the
  latest pass has side effects, while a superseded failing pass still marks the
  config invalid; the bounds on the client dependencies of a page; the
  round trip of config names through \<open>getConfigName\<close> and its reserved-character
  errors; that filesystem routes are well formed and error pages have none; that
  loading keeps the interface-file table well formed, puts every value file at its
  location and loads the \<open>config-only\<close> ones (built-in ones eagerly, custom ones
  before the page's sources are resolved); and that \<open>loadVikeConfig\<close> returns one
  page config per page-defining location.

  \<^bold>\<open>Fuel.\<close> \<open>loadConfigFile\<close> recurses through the extends graph, whose
  termination the code guards by the visited-path check rather than by the
  structure of the data, so \<open>load_config_file\<close> takes fuel and returns \<open>None\<close> when it
  runs out. The termination theorem of \<open>Extends\<close> shows that \<open>card U + 1\<close> is enough
  when the extends graph stays inside a finite set \<open>U\<close>: the visited path grows with
  each call and never repeats a file, so it has at most \<open>card U\<close> entries.

  \<^bold>\<open>Not modelled.\<close> The discovery of \<open>+\<close> files (\<open>findPlusFiles\<close>, a glob over
  the file system), whose results are the inputs of the model;
  the execution of files (\<open>transpileAndExecuteFile\<close>, I/O, a collaborator);
  logging, warnings and the Vite dev-server restart, which appear only as log
  entries of the reload state; the order in which \<open>Promise.all\<close> callbacks finish
  (config files, value files and the pages of \<open>loadVikeConfig\<close> run one after the
  other, in list order, so two pages never interleave their loads of the same value
  file); \<open>assertExportsOfValueFile\<close>, outside the sources, modelled after the
  spec; and \<open>analyzePage\<close>'s branch without a page config, which delegates to
  \<open>analyzePageClientSide\<close>, outside the sources.
\<close>

definition example_root_file :: interface_file where
  "example_root_file =
     \<lparr>if_path = \<lparr>fp_absolute = Some ''/r/pages/+config.js'', fp_relative = Some ''/pages/+config.js'',
                 fp_import_abs = None\<rparr>,
      if_config_map = [(''title'', Some (JStr ''Root''))], if_kind = ConfigFileKind [] False\<rparr>"

definition example_page_file :: interface_file where
  "example_page_file =
     \<lparr>if_path = \<lparr>fp_absolute = Some ''/r/pages/blog/+config.js'', fp_relative = Some ''/pages/blog/+config.js'',
                 fp_import_abs = None\<rparr>,
      if_config_map = [(''title'', Some (JStr ''Blog''))], if_kind = ConfigFileKind [] False\<rparr>"

definition example_locations :: "(location_id \<times> interface_file list) list" where
  "example_locations =
     [([''pages''], [example_root_file]), ([''pages'', ''blog''], [example_page_file]),
      ([''pages'', ''about''], [example_value_file])]"

text \<open>Two \<open>meta\<close> declarations of the config \<open>x\<close>: \<open>server-only\<close> at
  \<open>/pages\<close> and \<open>client-only\<close> at \<open>/pages/blog\<close>.\<close>

definition example_meta_locations :: "(location_id \<times> interface_file list) list" where
  "example_meta_locations =
     [([''pages''], [example_meta_file ''x'' ''server-only'']),
      ([''pages'', ''blog''], [example_meta_file ''x'' ''client-only''])]"

text \<open>C2. Inheritance specificity (spec P2): resolving a config over the locations a
  page inherits from, the value used comes from a file of the deepest location that
  defines the config, whatever the priority groups of the files at shallower
  locations.\<close>

theorem deepest_location_wins:
  assumes res: "resolve_config_value_sources r root cn d (get_interface_files_relevant by_loc page) fe
                  = Inr ((Some srcs, ws), fe')"
  shows "\<exists>(l, fs) \<in> set by_loc. is_inherited l page \<and> filter (defines_config cn) fs \<noteq> []
           \<and> (\<forall>(l', fs') \<in> set by_loc. is_inherited l' page \<and> filter (defines_config cn) fs' \<noteq> []
                \<longrightarrow> length l' \<le> length l)
           \<and> (\<exists>f\<in>set fs. defines_config cn f \<and> (\<exists>t t'. get_config_value_source r root cn f d t = Inr (hd srcs, t')))"
proof -
  let ?rel = "get_interface_files_relevant by_loc page"
  let ?P = "\<lambda>e. filter (defines_config cn) (snd e) \<noteq> []"
  let ?R = "\<lambda>f s. \<exists>t t'. get_config_value_source r root cn f d t = Inr (s, t')"
  have la: "list_all2 ?R (resolve_order cn ?rel) srcs"
    using resolve_config_value_sources_refines[OF res] by simp
  have "srcs \<noteq> []"
    using resolve_sources_nonempty_result[OF res] .
  then have "resolve_order cn ?rel \<noteq> []" using la by auto
  then have "\<exists>e\<in>set ?rel. ?P e"
    by (auto simp: resolve_order_def location_order_Nil_iff)
  from split_list_first_prop[OF this] obtain pre e post where
    split0: "?rel = pre @ e # post" and P0: "?P e" and none: "\<forall>e\<in>set pre. \<not> ?P e"
    by blast
  obtain l fs where e: "e = (l, fs)" by (cases e)
  have split: "?rel = pre @ (l, fs) # post" and P: "?P (l, fs)" using split0 P0 e by simp_all
  have pre: "\<forall>(l', fs') \<in> set pre. filter (defines_config cn) fs' = []" using none by auto
  have hd_eq: "hd (resolve_order cn ?rel) = hd (location_order cn fs)"
    using resolve_order_first_location[OF pre] P split by simp
  have ne: "location_order cn fs \<noteq> []" using P by (simp add: location_order_Nil_iff)
  have "?R (hd (resolve_order cn ?rel)) (hd srcs)"
    using list_all2_hd[OF la] \<open>resolve_order cn ?rel \<noteq> []\<close> by blast
  moreover have "hd (location_order cn fs) \<in> set (filter (defines_config cn) fs)"
    using ne location_order_mset[of cn fs] by (metis list.set_sel(1) set_mset_mset)
  ultimately have src: "\<exists>f\<in>set fs. defines_config cn f \<and> ?R f (hd srcs)"
    using hd_eq by auto
  have "(l, fs) \<in> set ?rel" using split by simp
  then have mem: "(l, fs) \<in> set by_loc" "is_inherited l page" by simp_all
  have deeper: "length l' \<le> length l"
    if in_by: "(l', fs') \<in> set by_loc" and inh: "is_inherited l' page"
      and def': "filter (defines_config cn) fs' \<noteq> []" for l' fs'
  proof -
    have "(l', fs') \<in> set ?rel" using in_by inh by simp
    then have cases: "(l', fs') \<in> set pre \<or> (l', fs') = (l, fs) \<or> (l', fs') \<in> set post"
      using split by auto
    have "(l', fs') \<notin> set pre" using none def' by auto
    moreover have "(l', fs') \<in> set post \<Longrightarrow> length l' \<le> length l"
      using sorted_inheritance_later_shallower[of pre "(l, fs)" post "(l', fs')"]
        get_interface_files_relevant_sorted[of by_loc page] unfolding split by simp
    ultimately show ?thesis using cases by auto
  qed
  have deepest: "\<forall>(l', fs') \<in> set by_loc. is_inherited l' page \<and> filter (defines_config cn) fs' \<noteq> []
                   \<longrightarrow> length l' \<le> length l"
    using deeper by auto
  show ?thesis
    using mem deepest src P by (intro bexI[of _ "(l, fs)"]) simp_all
qed

theorem deepest_location_wins_witness:
  "\<exists>srcs ws fe'.
     resolve_config_value_sources example_resolver ''/r'' ''title'' example_def
       (get_interface_files_relevant example_locations [''pages'', ''blog'']) Map.empty = Inr ((Some srcs, ws), fe')
   \<and> (\<exists>(l, fs) \<in> set example_locations. is_inherited l [''pages'', ''blog''] \<and> filter (defines_config ''title'') fs \<noteq> []
       \<and> (\<forall>(l', fs') \<in> set example_locations. is_inherited l' [''pages'', ''blog''] \<and> filter (defines_config ''title'') fs' \<noteq> []
            \<longrightarrow> length l' \<le> length l)
       \<and> (\<exists>f\<in>set fs. defines_config ''title'' f \<and>
            (\<exists>t t'. get_config_value_source example_resolver ''/r'' ''title'' f example_def t = Inr (hd srcs, t'))))"
proof -
  obtain srcs ws fe' where res:
    "resolve_config_value_sources example_resolver ''/r'' ''title'' example_def
       (get_interface_files_relevant example_locations [''pages'', ''blog'']) Map.empty = Inr ((Some srcs, ws), fe')"
    by (simp add: example_locations_def example_root_file_def example_page_file_def example_defs
        resolution_defs get_interface_files_relevant_def is_inherited_def inheritance_key_def)
  show ?thesis using res deepest_location_wins [OF res] by blast
qed

text \<open>C35. The shallowest \<open>meta\<close> wins: \<open>getConfigDefinitions\<close> walks the
  relevant locations most specific first and lets the last writer win, so when a
  file of an inherited location declares the \<open>env\<close> of a config, no later file of that
  location declares it, and every other inherited location declaring it is deeper,
  the environment of that shallowest declaration is the one the page gets, the
  opposite of the specificity rule that governs values (P2).\<close>

theorem shallowest_meta_env_wins:
  assumes ok: "get_config_definitions builtins (get_interface_files_relevant by_loc page) = Inr defs"
    and dist: "distinct by_loc"
    and loc: "(l, xs @ f # ys) \<in> set by_loc" "is_inherited l page"
    and meta: "map_of (if_config_map f) ''meta'' = Some (Some m)" "distinct (map fst (object_entries m))"
    and entry: "map_of (object_entries m) cn = Some d" "js_get d ''env'' = JStr e" "parse_config_env e = Some env"
    and later: "\<forall>g\<in>set ys. cn \<notin> set (meta_names g)"
    and shallowest: "\<forall>(l', fs')\<in>set by_loc. (l', fs') \<noteq> (l, xs @ f # ys) \<and> is_inherited l' page
                       \<and> (\<exists>g\<in>set fs'. cn \<in> set (meta_names g)) \<longrightarrow> length l < length l'"
  shows "\<exists>cd. map_of defs cn = Some cd \<and> cd_env cd = env"
proof -
  let ?rel = "get_interface_files_relevant by_loc page" and ?fs = "xs @ f # ys"
  have "(l, ?fs) \<in> set ?rel" using loc by simp
  then obtain pre post where split: "?rel = pre @ (l, ?fs) # post" by (meson split_list)
  have "distinct ?rel" using dist by (simp add: get_interface_files_relevant_def distinct_sort)
  then have notin: "(l, ?fs) \<notin> set post" using split by simp
  have none: "\<forall>g\<in>set fs'. cn \<notin> set (meta_names g)" if post: "(l', fs') \<in> set post" for l' fs'
  proof -
    have "(l', fs') \<in> set ?rel" using split post by simp
    then have "(l', fs') \<in> set by_loc" "is_inherited l' page" by simp_all
    moreover have "length l' \<le> length l"
      using sorted_inheritance_later_shallower[of pre "(l, ?fs)" post "(l', fs')"]
        get_interface_files_relevant_sorted[of by_loc page] post unfolding split by simp
    moreover have "(l', fs') \<noteq> (l, ?fs)" using notin post by blast
    ultimately show ?thesis using shallowest by fastforce
  qed
  have "concat (map snd ?rel)
      = (concat (map snd pre) @ xs) @ f # (ys @ concat (map snd post))"
    unfolding split by simp
  moreover have "\<forall>g\<in>set (ys @ concat (map snd post)). cn \<notin> set (meta_names g)"
    using later none by fastforce
  ultimately show ?thesis
    using meta_last_writer_env[OF _ _ meta entry] ok unfolding get_config_definitions_def by metis
qed

theorem shallowest_meta_env_wins_witness:
  "\<exists>defs. get_config_definitions [] (get_interface_files_relevant example_meta_locations [''pages'', ''blog''])
       = Inr defs \<and> (\<exists>cd. map_of defs ''x'' = Some cd \<and> cd_env cd = ServerOnly)"
proof -
  obtain defs where ok: "get_config_definitions [] (get_interface_files_relevant example_meta_locations [''pages'', ''blog''])
       = Inr defs"
    by (simp add: example_meta_locations_def get_interface_files_relevant_def inheritance_key_def is_inherited_def
      registry_example_defs get_config_definitions_def apply_meta_of_file_def
      assert_meta_value_def assert_meta_entry_def js_has_key_def js_get_def parse_config_env_def)
  have "\<exists>cd. map_of defs ''x'' = Some cd \<and> cd_env cd = ServerOnly"
    by (rule shallowest_meta_env_wins[OF ok, where l = "[''pages'']" and xs = "[]" and f = "example_meta_file ''x'' ''server-only''"
          and ys = "[]" and m = "JObj [(''x'', JObj [(''env'', JStr ''server-only'')])]"
          and d = "JObj [(''env'', JStr ''server-only'')]" and e = "''server-only''"])
      (simp_all add: example_meta_locations_def registry_example_defs is_inherited_def js_get_def
        parse_config_env_def meta_names_def)
  then show ?thesis using ok by blast
qed


end
